(* ===== verification/Prelude.thy ===== *)
theory Prelude
  imports Main "HOL-Library.Finite_Map"
begin

text \<open>
  The vocabulary every component of the model shares: Go error values, the
  outcome of a Go function (a value, an error or a crash of the process), the
  programs over an explicit state, and the logics used by the component proofs:
  \<open>emits\<close> for the calls a program issues, \<open>yields\<close> for the value it returns, \<open>crashes_if\<close>
  for when it can crash.
\<close>

section \<open>Collections\<close>

named_theorems prog_unfold \<open>definitions of the program combinators and the client operations\<close>
named_theorems emits_intro \<open>composition rules for the calls a program issues\<close>
named_theorems const_defs \<open>the string and number constants of the source\<close>

section \<open>Go errors and outcomes\<close>

text \<open>
  A Kubernetes API error carries a reason (\<open>metav1.StatusReason\<close>); an error of
  \<open>fmt.Errorf\<close> without \<open>%w\<close> carries a text and, where its format quotes one, the
  error it quotes. The quoted error is not unwrapped by \<open>errors.As\<close>.
\<close>

datatype status_reason =
    ReasonNotFound
  | ReasonAlreadyExists
  | ReasonConflict
  | ReasonForbidden
  | ReasonOther string

datatype gerror =
    StatusError status_reason string
  | ErrorNew string
  | Errorf string gerror
  | ErrorfList string "gerror list"

fun IsNotFound :: "gerror \<Rightarrow> bool" where
  "IsNotFound (StatusError r _) = (r = ReasonNotFound)"
| "IsNotFound _ = False"

text \<open>
  \<open>Crash\<close> is a Go panic or \<open>log.Fatalf\<close>: the process ends and nothing after it runs.
\<close>

datatype 'a outcome = Ok 'a | Err gerror | Crash string

fun isOk :: "'a outcome \<Rightarrow> bool" where
  "isOk (Ok _) = True"
| "isOk _ = False"

lemma isOk_iff: "isOk r \<longleftrightarrow> (\<exists>a. r = Ok a)"
  by (cases r) auto

section \<open>Programs over an explicit state\<close>

type_synonym ('s, 'a) prog = "'s \<Rightarrow> 'a outcome \<times> 's"

definition ret :: "'a \<Rightarrow> ('s, 'a) prog" where
  [prog_unfold]: "ret a = (\<lambda>s. (Ok a, s))"

definition fail :: "gerror \<Rightarrow> ('s, 'a) prog" where
  [prog_unfold]: "fail e = (\<lambda>s. (Err e, s))"

definition crash :: "string \<Rightarrow> ('s, 'a) prog" where
  [prog_unfold]: "crash msg = (\<lambda>s. (Crash msg, s))"

definition bindM :: "('s, 'a) prog \<Rightarrow> ('a \<Rightarrow> ('s, 'b) prog) \<Rightarrow> ('s, 'b) prog" where
  [prog_unfold]: "bindM m k =
     (\<lambda>s. case m s of
            (Ok a, s') \<Rightarrow> k a s'
          | (Err e, s') \<Rightarrow> (Err e, s')
          | (Crash msg, s') \<Rightarrow> (Crash msg, s'))"

definition thenM :: "('s, 'a) prog \<Rightarrow> ('s, 'b) prog \<Rightarrow> ('s, 'b) prog" where
  [prog_unfold]: "thenM m k = bindM m (\<lambda>_. k)"

text \<open>The result of a call as a value, for code that looks at \<open>err\<close> before it goes on.\<close>

definition tryM :: "('s, 'a) prog \<Rightarrow> ('s, gerror + 'a) prog" where
  [prog_unfold]: "tryM m =
     (\<lambda>s. case m s of
            (Ok a, s') \<Rightarrow> (Ok (Inr a), s')
          | (Err e, s') \<Rightarrow> (Ok (Inl e), s')
          | (Crash msg, s') \<Rightarrow> (Crash msg, s'))"

text \<open>The idiom \<open>if err != nil { return fmt.Errorf("...: %v", err) }\<close>.\<close>

definition wrapErr :: "string \<Rightarrow> ('s, 'a) prog \<Rightarrow> ('s, 'a) prog" where
  [prog_unfold]: "wrapErr msg m =
     (\<lambda>s. case m s of (Err e, s') \<Rightarrow> (Err (Errorf msg e), s') | other \<Rightarrow> other)"

definition gets :: "('s \<Rightarrow> 'a) \<Rightarrow> ('s, 'a) prog" where
  [prog_unfold]: "gets f = (\<lambda>s. (Ok (f s), s))"

definition modify :: "('s \<Rightarrow> 's) \<Rightarrow> ('s, unit) prog" where
  [prog_unfold]: "modify f = (\<lambda>s. (Ok (), f s))"

definition liftSum :: "gerror + 'a \<Rightarrow> ('s, 'a) prog" where
  [prog_unfold]: "liftSum r = (case r of Inl e \<Rightarrow> fail e | Inr a \<Rightarrow> ret a)"

definition liftOutcome :: "'a outcome \<Rightarrow> ('s, 'a) prog" where
  [prog_unfold]: "liftOutcome r = (\<lambda>s. (r, s))"

text \<open>A \<open>for range\<close> loop whose body may return early with an error.\<close>

fun forEach :: "'a list \<Rightarrow> ('a \<Rightarrow> ('s, unit) prog) \<Rightarrow> ('s, unit) prog" where
  "forEach [] f = ret ()"
| "forEach (x # xs) f = thenM (f x) (forEach xs f)"

lemma bindM_ret [simp]: "bindM (ret a) k = k a"
  by (simp add: prog_unfold)

lemma bindM_fail [simp]: "bindM (fail e) k = fail e"
  by (simp add: prog_unfold)

lemma bindM_Ok: "m s = (Ok a, s') \<Longrightarrow> bindM m k s = k a s'"
  by (simp add: prog_unfold)

lemma bindM_Err: "m s = (Err e, s') \<Longrightarrow> bindM m k s = (Err e, s')"
  by (simp add: prog_unfold)

lemma bindM_Crash: "m s = (Crash c, s') \<Longrightarrow> bindM m k s = (Crash c, s')"
  by (simp add: prog_unfold)

lemma wrapErr_Ok: "m s = (Ok a, s') \<Longrightarrow> wrapErr msg m s = (Ok a, s')"
  by (simp add: prog_unfold)

lemma wrapErr_Err: "m s = (Err e, s') \<Longrightarrow> wrapErr msg m s = (Err (Errorf msg e), s')"
  by (simp add: prog_unfold)

lemma bindM_assoc: "bindM (bindM m k) l = bindM m (\<lambda>a. bindM (k a) l)"
  by (auto simp: prog_unfold fun_eq_iff split: prod.splits outcome.splits)


text \<open>
  Evaluation of a program on a state: with the congruence rules the simplifier runs the
  first program before it looks at the continuation.
\<close>

lemma bindM_step:
  "bindM m k s =
     (case m s of (Ok a, s') \<Rightarrow> k a s' | (Err e, s') \<Rightarrow> (Err e, s') | (Crash msg, s') \<Rightarrow> (Crash msg, s'))"
  by (simp add: bindM_def)

lemma thenM_step:
  "thenM m k s =
     (case m s of (Ok a, s') \<Rightarrow> k s' | (Err e, s') \<Rightarrow> (Err e, s') | (Crash msg, s') \<Rightarrow> (Crash msg, s'))"
  by (simp add: thenM_def bindM_def)

lemma bindM_eval_cong: "m = m' \<Longrightarrow> s = s' \<Longrightarrow> bindM m k s = bindM m' k s'"
  by simp

lemma thenM_eval_cong: "m = m' \<Longrightarrow> s = s' \<Longrightarrow> thenM m k s = thenM m' k s'"
  by simp

section \<open>Pure code that may panic or fail\<close>

definition bindO :: "'a outcome \<Rightarrow> ('a \<Rightarrow> 'b outcome) \<Rightarrow> 'b outcome" where
  "bindO m k = (case m of Ok a \<Rightarrow> k a | Err e \<Rightarrow> Err e | Crash msg \<Rightarrow> Crash msg)"

lemma bindO_simps [simp]:
  "bindO (Ok a) k = k a" "bindO (Err e) k = Err e" "bindO (Crash msg) k = Crash msg"
  by (simp_all add: bindO_def)

lemma bindO_Ok: "bindO m k = Ok b \<longleftrightarrow> (\<exists>a. m = Ok a \<and> k a = Ok b)"
  by (cases m) simp_all

text \<open>\<open>for i := range xs\<close> that changes each element in place.\<close>

fun mapO :: "('a \<Rightarrow> 'b outcome) \<Rightarrow> 'a list \<Rightarrow> 'b list outcome" where
  "mapO f [] = Ok []"
| "mapO f (x # xs) = bindO (f x) (\<lambda>y. bindO (mapO f xs) (\<lambda>ys. Ok (y # ys)))"

lemma mapO_pure [simp]: "mapO (\<lambda>x. Ok (f x)) xs = Ok (map f xs)"
  by (induction xs) simp_all

lemma mapO_Ok: "mapO f xs = Ok ys \<longleftrightarrow> list_all2 (\<lambda>x y. f x = Ok y) xs ys"
  by (induction xs arbitrary: ys) (auto simp: bindO_Ok list_all2_Cons1)

lemma mapO_Crash:
  "mapO f xs = Crash msg \<Longrightarrow> \<exists>x\<in>set xs. f x = Crash msg"
proof (induction xs)
  case (Cons x xs)
  then show ?case by (cases "f x"; cases "mapO f xs") auto
qed simp

lemma mapO_Err: "mapO f xs = Err e \<Longrightarrow> \<exists>x\<in>set xs. f x = Err e"
proof (induction xs)
  case (Cons x xs)
  then show ?case by (cases "f x"; cases "mapO f xs") auto
qed simp

text \<open>A change of \<open>xs[0]\<close>, and of what a pointer points to.\<close>

definition atFirst :: "('a \<Rightarrow> 'a outcome) \<Rightarrow> 'a list \<Rightarrow> 'a list outcome" where
  "atFirst f xs = (case xs of [] \<Rightarrow> Crash ''index out of range [0] with length 0''
                            | x # rest \<Rightarrow> bindO (f x) (\<lambda>y. Ok (y # rest)))"

definition atPointer :: "('a \<Rightarrow> 'a outcome) \<Rightarrow> 'a option \<Rightarrow> 'a option outcome" where
  "atPointer f p = (case p of None \<Rightarrow> Crash ''nil pointer dereference''
                            | Some x \<Rightarrow> bindO (f x) (\<lambda>y. Ok (Some y)))"

text \<open>The last element of a range that satisfies a test: an assignment in a loop with no break.\<close>

fun lastMatch :: "('a \<Rightarrow> bool) \<Rightarrow> 'a option \<Rightarrow> 'a list \<Rightarrow> 'a option" where
  "lastMatch P found [] = found"
| "lastMatch P found (x # xs) = lastMatch P (if P x then Some x else found) xs"

lemma lastMatch_acc: "lastMatch P found xs = (case lastMatch P None xs of None \<Rightarrow> found | r \<Rightarrow> r)"
proof (induction xs arbitrary: found)
  case (Cons x xs)
  show ?case
    using Cons [of "if P x then Some x else found"] Cons [of "if P x then Some x else None"]
    by (auto split: option.splits)
qed simp

lemma lastMatch_None: "lastMatch P None xs = None \<longleftrightarrow> (\<forall>x\<in>set xs. \<not> P x)"
proof (induction xs)
  case (Cons x xs)
  then show ?case
    using lastMatch_acc [of P "Some x" xs] by (auto split: option.splits)
qed simp

lemma lastMatch_Some: "lastMatch P None xs = Some y \<Longrightarrow> y \<in> set xs \<and> P y"
proof (induction xs)
  case (Cons x xs)
  then show ?case
    using lastMatch_acc [of P "Some x" xs] by (auto split: option.splits if_splits)
qed simp

section \<open>What a program yields\<close>

text \<open>\<open>yields P m\<close>: if \<open>m\<close> returns a value, the value satisfies \<open>P\<close>.\<close>

definition yields :: "('a \<Rightarrow> bool) \<Rightarrow> ('s, 'a) prog \<Rightarrow> bool" where
  "yields P m \<longleftrightarrow> (\<forall>s a. fst (m s) = Ok a \<longrightarrow> P a)"

lemma yieldsD: "yields P m \<Longrightarrow> fst (m s) = Ok a \<Longrightarrow> P a"
  by (auto simp: yields_def)

lemma yieldsD': "yields P m \<Longrightarrow> m s = (Ok a, s') \<Longrightarrow> P a"
  by (auto simp: yields_def dest: spec [of _ s])

lemma yields_weaken: "yields Q m \<Longrightarrow> (\<And>a. Q a \<Longrightarrow> P a) \<Longrightarrow> yields P m"
  by (auto simp: yields_def)

lemma yields_ret: "P a \<Longrightarrow> yields P (ret a)"
  by (simp add: yields_def ret_def)

lemma yields_fail: "yields P (fail e)"
  by (simp add: yields_def fail_def)

lemma yields_crash: "yields P (crash msg)"
  by (simp add: yields_def crash_def)

lemma yields_liftSum: "(\<And>a. r = Inr a \<Longrightarrow> P a) \<Longrightarrow> yields P (liftSum r)"
  by (auto simp: yields_def liftSum_def ret_def fail_def split: sum.splits)

lemma yields_liftOutcome: "(\<And>a. r = Ok a \<Longrightarrow> P a) \<Longrightarrow> yields P (liftOutcome r)"
  by (auto simp: yields_def liftOutcome_def)

lemma bindM_OkD:
  "fst (bindM m k s) = Ok b \<Longrightarrow> \<exists>a. fst (m s) = Ok a \<and> fst (k a (snd (m s))) = Ok b"
  by (auto simp: prog_unfold split: prod.splits outcome.splits)

lemma yields_bindM:
  "yields Q m \<Longrightarrow> (\<And>a. Q a \<Longrightarrow> yields P (k a)) \<Longrightarrow> yields P (bindM m k)"
  by (fastforce simp: yields_def dest!: bindM_OkD)

lemma yields_any: "yields (\<lambda>_. True) m"
  by (simp add: yields_def)

lemma yields_wrapErr: "yields P m \<Longrightarrow> yields P (wrapErr msg m)"
  unfolding yields_def [of P "wrapErr msg m"]
  by (auto simp: wrapErr_def dest: yieldsD' split: prod.splits outcome.splits)

lemma yields_tryM: "yields P m \<Longrightarrow> yields (case_sum (\<lambda>_. True) P) (tryM m)"
  unfolding yields_def [of _ "tryM m"]
  by (auto simp: tryM_def dest: yieldsD' split: prod.splits outcome.splits)

lemma yields_if: "(b \<Longrightarrow> yields P m) \<Longrightarrow> (\<not> b \<Longrightarrow> yields P k) \<Longrightarrow> yields P (if b then m else k)"
  by simp

lemma yields_case_sum:
  "(\<And>e. r = Inl e \<Longrightarrow> yields P (f e)) \<Longrightarrow> (\<And>a. r = Inr a \<Longrightarrow> yields P (g a)) \<Longrightarrow>
   yields P (case r of Inl e \<Rightarrow> f e | Inr a \<Rightarrow> g a)"
  by (simp split: sum.split)

lemma yields_case_option:
  "(r = None \<Longrightarrow> yields P f) \<Longrightarrow> (\<And>a. r = Some a \<Longrightarrow> yields P (g a)) \<Longrightarrow>
   yields P (case r of None \<Rightarrow> f | Some a \<Rightarrow> g a)"
  by (simp split: option.split)

section \<open>State with a world and a log of the calls\<close>

text \<open>
  A component runs against an environment it does not contain (the API server, the
  file system, the network). \<open>world\<close> is the environment's state, of any type; it is
  only reached through the operations a component is given as parameters. \<open>calls\<close>
  logs each operation with its answer, in order. The states of the reconcilers extend
  this record with the fields of their Go structs.
\<close>

record ('w, 'c) env =
  world :: 'w
  calls :: "'c list"

definition issued :: "(('w, 'c, 'z) env_scheme, 'a) prog \<Rightarrow> ('w, 'c, 'z) env_scheme \<Rightarrow> 'c list" where
  "issued m s = drop (length (calls s)) (calls (snd (m s)))"

section \<open>Which calls a program can issue\<close>

text \<open>
  \<open>emits I A m\<close>: from a state that satisfies \<open>I\<close>, \<open>m\<close> keeps \<open>I\<close> and every call it adds to
  the log satisfies \<open>A\<close>.
\<close>

definition emits ::
  "(('w, 'c, 'z) env_scheme \<Rightarrow> bool) \<Rightarrow> ('c \<Rightarrow> bool) \<Rightarrow>
   (('w, 'c, 'z) env_scheme, 'a) prog \<Rightarrow> bool" where
  "emits I A m \<longleftrightarrow>
     (\<forall>s. I s \<longrightarrow> I (snd (m s)) \<and> (\<exists>es. calls (snd (m s)) = calls s @ es \<and> list_all A es))"

lemma emitsI:
  assumes "\<And>s. I s \<Longrightarrow> I (snd (m s))"
    and "\<And>s. I s \<Longrightarrow> \<exists>es. calls (snd (m s)) = calls s @ es \<and> list_all A es"
  shows "emits I A m"
  using assms by (auto simp: emits_def)

lemma emits_inv: "emits I A m \<Longrightarrow> I s \<Longrightarrow> I (snd (m s))"
  by (auto simp: emits_def)

lemma emits_log:
  assumes "emits I A m" and "I s"
  obtains es where "calls (snd (m s)) = calls s @ es" and "list_all A es"
  using assms by (auto simp: emits_def)

lemma emits_issued: "emits I A m \<Longrightarrow> I s \<Longrightarrow> c \<in> set (issued m s) \<Longrightarrow> A c"
  by (erule (1) emits_log) (auto simp: issued_def list_all_iff)

lemma emits_weaken: "emits I A m \<Longrightarrow> (\<And>c. A c \<Longrightarrow> B c) \<Longrightarrow> emits I B m"
  by (fastforce simp: emits_def list_all_iff)

lemma emits_both: "emits I A m \<Longrightarrow> emits I B m \<Longrightarrow> emits I (\<lambda>c. A c \<and> B c) m"
  by (fastforce simp: emits_def list_all_iff)

lemma emits_ret [emits_intro]: "emits I A (ret a)"
  by (auto simp: emits_def prog_unfold)

lemma emits_fail [emits_intro]: "emits I A (fail e)"
  by (auto simp: emits_def prog_unfold)

lemma emits_crash [emits_intro]: "emits I A (crash msg)"
  by (auto simp: emits_def prog_unfold)

lemma emits_gets [emits_intro]: "emits I A (gets f)"
  by (auto simp: emits_def prog_unfold)

lemma emits_liftSum [emits_intro]: "emits I A (liftSum r)"
  by (auto simp: emits_def prog_unfold split: sum.splits)

lemma emits_liftOutcome [emits_intro]: "emits I A (liftOutcome r)"
  by (auto simp: emits_def prog_unfold)

text \<open>A state predicate that the environment's part of the state cannot change.\<close>

definition env_stable :: "(('w, 'c, 'z) env_scheme \<Rightarrow> bool) \<Rightarrow> bool" where
  "env_stable I \<longleftrightarrow> (\<forall>s w cs. I s \<longrightarrow> I (s\<lparr>world := w, calls := cs\<rparr>))"

lemma env_stable_True [simp]: "env_stable (\<lambda>_. True)"
  by (simp add: env_stable_def)

lemma emits_modify:
  assumes "\<And>s. calls (f s) = calls s" and "\<And>s. I s \<Longrightarrow> I (f s)"
  shows "emits I A (modify f)"
  using assms by (auto simp: emits_def prog_unfold)

lemma emits_bindM:
  assumes m: "emits I A m" and k: "\<And>a. emits I A (k a)"
  shows "emits I A (bindM m k)"
proof (rule emitsI)
  fix s assume s: "I s"
  obtain r s1 where ms: "m s = (r, s1)" by (cases "m s")
  have s1: "I s1" using emits_inv [OF m s] ms by simp
  obtain es where es: "calls s1 = calls s @ es" "list_all A es"
    using emits_log [OF m s] ms by auto
  show "I (snd (bindM m k s))"
    using ms s1 emits_inv [OF k s1] by (cases r) (auto simp: prog_unfold)
  show "\<exists>es. calls (snd (bindM m k s)) = calls s @ es \<and> list_all A es"
  proof (cases r)
    case (Ok a)
    obtain es' where "calls (snd (k a s1)) = calls s1 @ es'" "list_all A es'"
      using emits_log [OF k s1] by blast
    with Ok ms es show ?thesis by (auto simp: prog_unfold)
  qed (use ms es in \<open>auto simp: prog_unfold\<close>)
qed

text \<open>The same, with what the first program guarantees of its result.\<close>

lemma emits_bindM_post:
  assumes m: "emits I A m" and P: "\<And>s a. I s \<Longrightarrow> fst (m s) = Ok a \<Longrightarrow> P a"
    and k: "\<And>a. P a \<Longrightarrow> emits I A (k a)"
  shows "emits I A (bindM m k)"
proof -
  have "emits I A (bindM m (\<lambda>a. if P a then k a else ret undefined))"
    by (rule emits_bindM [OF m]) (simp add: k emits_ret)
  moreover have "bindM m (\<lambda>a. if P a then k a else ret undefined) s = bindM m k s" if "I s" for s
    using P [OF that] by (auto simp: prog_unfold split: prod.splits outcome.splits)
  ultimately show ?thesis by (simp add: emits_def)
qed

lemma emits_bindM_yields:
  "emits I A m \<Longrightarrow> yields P m \<Longrightarrow> (\<And>a. P a \<Longrightarrow> emits I A (k a)) \<Longrightarrow> emits I A (bindM m k)"
  by (rule emits_bindM_post [where P = P]) (auto dest: yieldsD)

lemma emits_thenM: "emits I A m \<Longrightarrow> emits I A k \<Longrightarrow> emits I A (thenM m k)"
  unfolding thenM_def by (rule emits_bindM)

lemma emits_tryM: "emits I A m \<Longrightarrow> emits I A (tryM m)"
  unfolding emits_def prog_unfold by (auto split: prod.splits outcome.splits)

lemma emits_wrapErr: "emits I A m \<Longrightarrow> emits I A (wrapErr msg m)"
  unfolding emits_def prog_unfold by (auto split: prod.splits outcome.splits)

lemma emits_if: "(b \<Longrightarrow> emits I A m) \<Longrightarrow> (\<not> b \<Longrightarrow> emits I A k) \<Longrightarrow> emits I A (if b then m else k)"
  by simp

lemma emits_case_sum:
  "(\<And>e. r = Inl e \<Longrightarrow> emits I A (f e)) \<Longrightarrow> (\<And>a. r = Inr a \<Longrightarrow> emits I A (g a)) \<Longrightarrow>
   emits I A (case r of Inl e \<Rightarrow> f e | Inr a \<Rightarrow> g a)"
  by (simp split: sum.split)

lemma emits_case_option:
  "(r = None \<Longrightarrow> emits I A f) \<Longrightarrow> (\<And>a. r = Some a \<Longrightarrow> emits I A (g a)) \<Longrightarrow>
   emits I A (case r of None \<Rightarrow> f | Some a \<Rightarrow> g a)"
  by (simp split: option.split)

lemma emits_case_prod:
  "(\<And>a b. p = (a, b) \<Longrightarrow> emits I A (f a b)) \<Longrightarrow> emits I A (case p of (a, b) \<Rightarrow> f a b)"
  by (simp split: prod.split)

lemma emits_forEach: "(\<And>x. x \<in> set xs \<Longrightarrow> emits I A (f x)) \<Longrightarrow> emits I A (forEach xs f)"
  by (induction xs) (auto intro!: emits_ret emits_thenM)

lemmas emits_rules =
  emits_ret emits_fail emits_crash emits_gets emits_liftSum emits_liftOutcome
  emits_bindM emits_thenM emits_tryM emits_wrapErr emits_if emits_case_sum
  emits_case_option emits_case_prod emits_forEach

text \<open>The log of a sequence of two programs.\<close>

abbreviation extends :: "(('w, 'c, 'z) env_scheme, 'a) prog \<Rightarrow> bool" where
  "extends m \<equiv> emits (\<lambda>_. True) (\<lambda>_. True) m"

lemma emits_extends: "emits (\<lambda>_. True) A m \<Longrightarrow> extends m"
  by (rule emits_weaken) auto

lemma calls_issued: "emits I A m \<Longrightarrow> I s \<Longrightarrow> calls (snd (m s)) = calls s @ issued m s"
  by (erule (1) emits_log) (simp add: issued_def)

lemma issued_bindM:
  assumes "extends m" and "\<And>a. extends (k a)"
  shows "issued (bindM m k) s =
    issued m s @ (case fst (m s) of Ok a \<Rightarrow> issued (k a) (snd (m s)) | _ \<Rightarrow> [])"
proof -
  obtain r s1 where ms: "m s = (r, s1)" by (cases "m s")
  have s1: "calls s1 = calls s @ issued m s"
    using calls_issued [OF assms(1), of s] ms by simp
  show ?thesis
  proof (cases r)
    case (Ok a)
    have "calls (snd (k a s1)) = calls s @ issued m s @ issued (k a) s1"
      using calls_issued [where m = "k a" and s = s1, OF assms(2) TrueI] s1 by simp
    then have "drop (length (calls s)) (calls (snd (k a s1))) = issued m s @ issued (k a) s1"
      by simp
    moreover have "calls (snd (bindM m k s)) = calls (snd (k a s1))"
      using Ok ms by (simp add: prog_unfold)
    ultimately have "issued (bindM m k) s = issued m s @ issued (k a) s1"
      by (simp only: issued_def [of "bindM m k"])
    with Ok ms show ?thesis by simp
  qed (use ms s1 in \<open>auto simp: prog_unfold issued_def\<close>)
qed

lemma issued_pure [simp]:
  "issued (ret a) s = []" "issued (fail e) s = []" "issued (crash msg) s = []"
  "issued (gets f) s = []" "issued (liftOutcome r) s = []" "issued (liftSum q) s = []"
  by (auto simp: issued_def prog_unfold split: sum.splits)

lemma issued_wrapErr [simp]: "issued (wrapErr msg m) s = issued m s"
  by (auto simp: issued_def prog_unfold split: prod.splits outcome.splits)

lemma issued_tryM [simp]: "issued (tryM m) s = issued m s"
  by (auto simp: issued_def prog_unfold split: prod.splits outcome.splits)

section \<open>When a program can crash\<close>

text \<open>\<open>crashes_if B m\<close>: \<open>m\<close> crashes only after a call that satisfies \<open>B\<close>.\<close>

definition crashes_if :: "('c \<Rightarrow> bool) \<Rightarrow> (('w, 'c, 'z) env_scheme, 'a) prog \<Rightarrow> bool" where
  "crashes_if B m \<longleftrightarrow> (\<forall>s msg. fst (m s) = Crash msg \<longrightarrow> (\<exists>c\<in>set (issued m s). B c))"

lemma crashes_if_simple:
  "crashes_if B (ret a)" "crashes_if B (fail e)" "crashes_if B (gets f)" "crashes_if B (modify g)"
  "crashes_if B (liftSum r)"
  by (auto simp: crashes_if_def prog_unfold split: sum.splits)

lemma crashes_if_liftOutcome: "(\<And>msg. r \<noteq> Crash msg) \<Longrightarrow> crashes_if B (liftOutcome r)"
  by (auto simp: crashes_if_def prog_unfold)

lemma crashes_if_tryM: "crashes_if B m \<Longrightarrow> crashes_if B (tryM m)"
  unfolding crashes_if_def issued_tryM
  by (fastforce simp: tryM_def split: prod.splits outcome.splits)

lemma crashes_if_wrapErr: "crashes_if B m \<Longrightarrow> crashes_if B (wrapErr msg m)"
  unfolding crashes_if_def issued_wrapErr
  by (fastforce simp: wrapErr_def split: prod.splits outcome.splits)

lemma crashes_if_bindM:
  assumes "crashes_if B m" and "\<And>a. crashes_if B (k a)" and "extends m" and "\<And>a. extends (k a)"
  shows "crashes_if B (bindM m k)"
  unfolding crashes_if_def
proof (intro allI impI)
  fix s msg
  assume crash: "fst (bindM m k s) = Crash msg"
  have log: "issued (bindM m k) s =
      issued m s @ (case fst (m s) of Ok a \<Rightarrow> issued (k a) (snd (m s)) | _ \<Rightarrow> [])"
    by (rule issued_bindM [OF assms(3,4)])
  obtain r s1 where ms: "m s = (r, s1)" by (cases "m s")
  show "\<exists>c\<in>set (issued (bindM m k) s). B c"
  proof (cases r)
    case (Ok a)
    with crash ms have "fst (k a s1) = Crash msg" by (simp add: bindM_def)
    then obtain c where "c \<in> set (issued (k a) s1)" "B c" using assms(2) by (auto simp: crashes_if_def)
    with Ok ms log show ?thesis by auto
  next
    case (Crash m1)
    with assms(1) ms obtain c where "c \<in> set (issued m s)" "B c"
      unfolding crashes_if_def by (metis fst_conv)
    with log show ?thesis by auto
  qed (use crash ms in \<open>simp add: bindM_def\<close>)
qed

lemma crashes_if_thenM:
  "crashes_if B m \<Longrightarrow> crashes_if B k \<Longrightarrow> extends m \<Longrightarrow> extends k \<Longrightarrow> crashes_if B (thenM m k)"
  unfolding thenM_def by (rule crashes_if_bindM)

lemma crashes_if_if: "(b \<Longrightarrow> crashes_if B m) \<Longrightarrow> (\<not> b \<Longrightarrow> crashes_if B k) \<Longrightarrow> crashes_if B (if b then m else k)"
  by simp

lemma crashes_if_case_sum:
  "(\<And>e. r = Inl e \<Longrightarrow> crashes_if B (f e)) \<Longrightarrow> (\<And>a. r = Inr a \<Longrightarrow> crashes_if B (g a)) \<Longrightarrow>
   crashes_if B (case r of Inl e \<Rightarrow> f e | Inr a \<Rightarrow> g a)"
  by (simp split: sum.split)

lemma crashes_if_case_option:
  "(r = None \<Longrightarrow> crashes_if B f) \<Longrightarrow> (\<And>a. r = Some a \<Longrightarrow> crashes_if B (g a)) \<Longrightarrow>
   crashes_if B (case r of None \<Rightarrow> f | Some a \<Rightarrow> g a)"
  by (simp split: option.split)

lemma crashes_if_case_prod:
  "(\<And>a b. p = (a, b) \<Longrightarrow> crashes_if B (f a b)) \<Longrightarrow> crashes_if B (case p of (a, b) \<Rightarrow> f a b)"
  by (simp split: prod.split)

lemmas crashes_if_rules =
  crashes_if_simple crashes_if_tryM crashes_if_wrapErr crashes_if_bindM crashes_if_thenM crashes_if_if
  crashes_if_case_sum crashes_if_case_option crashes_if_case_prod

text \<open>The same, with the continuation's crashes excused by the calls before it.\<close>

lemma crashes_if_bindM_log:
  assumes m: "crashes_if B m" "extends m" and k: "\<And>a. extends (k a)"
    and step: "\<And>s a. fst (m s) = Ok a \<Longrightarrow> (\<exists>c\<in>set (issued m s). B c) \<or> crashes_if B (k a)"
  shows "crashes_if B (bindM m k)"
  unfolding crashes_if_def
proof (intro allI impI)
  fix s msg
  assume crash: "fst (bindM m k s) = Crash msg"
  have log: "issued (bindM m k) s =
      issued m s @ (case fst (m s) of Ok a \<Rightarrow> issued (k a) (snd (m s)) | _ \<Rightarrow> [])"
    by (rule issued_bindM [OF m(2) k])
  obtain r s1 where ms: "m s = (r, s1)" by (cases "m s")
  show "\<exists>c\<in>set (issued (bindM m k) s). B c"
  proof (cases r)
    case (Ok a)
    with crash ms have "fst (k a s1) = Crash msg" by (simp add: bindM_def)
    with step [of s a] Ok ms have "(\<exists>c\<in>set (issued m s). B c) \<or> (\<exists>c\<in>set (issued (k a) s1). B c)"
      unfolding crashes_if_def by (metis fst_conv)
    with Ok ms log show ?thesis by auto
  next
    case (Crash m1)
    with m(1) ms have "\<exists>c\<in>set (issued m s). B c" unfolding crashes_if_def by (metis fst_conv)
    with log show ?thesis by auto
  qed (use crash ms in \<open>simp add: bindM_def\<close>)
qed

end
