(* ===== verification/Kube_Objects.thy ===== *)
theory Kube_Objects
  imports Prelude
begin

text \<open>
  The Kubernetes objects the agent reads and writes: the object metadata and, per kind,
  the parts of the Go API structs that the repository's code touches. The structs are
  the vendored types of \<open>k8s.io/api\<close>, \<open>prometheus-operator\<close>, \<open>openshift/api\<close>,
  \<open>ovn-kubernetes\<close>, \<open>operator-framework/api\<close>, \<open>ocs-operator\<close>, \<open>ocs-client-operator\<close>
  and the repository's own \<open>api/v1alpha1\<close>. A Go map is a finite map; where the code
  tests a map for \<open>nil\<close>, or writes into one that may be \<open>nil\<close>, it is an option. A Go
  slice is a list (nil and empty slices are never told apart by the code). A resource
  quantity is its value in thousandths.
\<close>

section \<open>Maps, quantities, keys\<close>

type_synonym smap = "(string, string) fmap"
type_synonym quantity = int

text \<open>A write into a Go map panics when the map is nil.\<close>

definition goMapSet :: "smap option \<Rightarrow> string \<Rightarrow> string \<Rightarrow> smap option outcome" where
  "goMapSet m k v = (case m of None \<Rightarrow> Crash ''assignment to entry in nil map''
                              | Some f \<Rightarrow> Ok (Some (fmupd k v f)))"

text \<open>A read from a nil map finds nothing.\<close>

definition goMapGet :: "smap option \<Rightarrow> string \<Rightarrow> string option" where
  "goMapGet m k = (case m of None \<Rightarrow> None | Some f \<Rightarrow> fmlookup f k)"

text \<open>A nil map and an empty one are equal for \<open>equality.Semantic\<close>.\<close>

definition nilToEmpty :: "smap option \<Rightarrow> smap" where
  "nilToEmpty m = (case m of None \<Rightarrow> fmempty | Some f \<Rightarrow> f)"

record ResourceRequirements =
  rr_Limits :: "(string, quantity) fmap"
  rr_Requests :: "(string, quantity) fmap"

type_synonym nname = "string \<times> string"  \<comment> \<open>\<open>types.NamespacedName\<close>: (Name, Namespace)\<close>

section \<open>Object metadata\<close>

record OwnerReference =
  or_APIVersion :: string
  or_Kind :: string
  or_Name :: string
  or_UID :: string
  or_Controller :: "bool option"
  or_BlockOwnerDeletion :: "bool option"

text \<open>\<open>DeletionTimestamp\<close> is a \<open>*metav1.Time\<close>; 0 is Go's zero time.\<close>

record ObjectMeta =
  Name :: string
  Namespace :: string
  UID :: string
  ResourceVersion :: string
  Labels :: "smap option"
  Annotations :: "smap option"
  OwnerReferences :: "OwnerReference list"
  Finalizers :: "string list"
  DeletionTimestamp :: "int option"

definition emptyMeta :: ObjectMeta where
  "emptyMeta = \<lparr>Name = '''', Namespace = '''', UID = '''', ResourceVersion = '''', Labels = None,
     Annotations = None, OwnerReferences = [], Finalizers = [], DeletionTimestamp = None\<rparr>"

text \<open>\<open>metav1.Time.IsZero\<close>: a nil pointer, or the zero time.\<close>

definition IsZero :: "int option \<Rightarrow> bool" where
  "IsZero t = (case t of None \<Rightarrow> True | Some n \<Rightarrow> n = 0)"

section \<open>Label selectors, containers, services, policies\<close>

record LabelSelectorRequirement =
  lsr_Key :: string
  lsr_Operator :: string
  lsr_Values :: "string list"

record LabelSelector =
  ls_MatchLabels :: smap
  ls_MatchExpressions :: "LabelSelectorRequirement list"

record SecretKeySelector =
  sks_Name :: string
  sks_Key :: string

datatype IntOrString = FromInt int | FromString string

record ServicePort =
  sp_Name :: string
  sp_Protocol :: string
  sp_Port :: int
  sp_TargetPort :: IntOrString

record ServiceSpec =
  sv_Ports :: "ServicePort list"
  sv_Selector :: smap
  sv_ClusterIP :: string

record Container =
  ct_Name :: string
  ct_Image :: string
  ct_Args :: "string list"
  ct_Ports :: "(string \<times> int) list"            \<comment> \<open>Name, ContainerPort\<close>
  ct_VolumeMounts :: "(string \<times> string) list"  \<comment> \<open>Name, MountPath\<close>
  ct_Resources :: ResourceRequirements

datatype VolumeSource = VolSecret string | VolConfigMap string

record NetworkPolicyPeer =
  npp_PodSelector :: "LabelSelector option"
  npp_NamespaceSelector :: "LabelSelector option"

record NetworkPolicyIngressRule =
  npi_Ports :: "(IntOrString option \<times> string option) list"  \<comment> \<open>Port, Protocol\<close>
  npi_From :: "NetworkPolicyPeer list"

record NetworkPolicySpec =
  np_Ingress :: "NetworkPolicyIngressRule list"
  np_PolicyTypes :: "string list"
  np_PodSelector :: LabelSelector

section \<open>Monitoring\<close>

record RelabelConfig =
  rc_SourceLabels :: "string list"
  rc_TargetLabel :: string
  rc_Regex :: string
  rc_Replacement :: string
  rc_Action :: string

record RemoteWriteSpec =
  rw_URL :: string
  rw_BearerToken :: string
  rw_WriteRelabelConfigs :: "RelabelConfig list"

record AlertmanagerEndpoints =
  ame_Namespace :: string
  ame_Name :: string
  ame_Port :: IntOrString

record PrometheusSpec =
  ps_ExternalLabels :: "smap option"
  ps_ServiceAccountName :: string
  ps_ServiceMonitorSelector :: "LabelSelector option"
  ps_ServiceMonitorNamespaceSelector :: "LabelSelector option"
  ps_PodMonitorSelector :: "LabelSelector option"
  ps_PodMonitorNamespaceSelector :: "LabelSelector option"
  ps_Resources :: ResourceRequirements
  ps_ListenLocal :: bool
  ps_EnableAdminAPI :: bool
  ps_Containers :: "Container list"
  ps_Volumes :: "(string \<times> VolumeSource) list"
  ps_RemoteWrite :: "RemoteWriteSpec list"
  ps_RuleSelector :: "LabelSelector option"
  ps_RuleNamespaceSelector :: "LabelSelector option"
  ps_Alerting :: "AlertmanagerEndpoints list option"  \<comment> \<open>\<open>Alerting.Alertmanagers\<close>\<close>
  ps_AdditionalAlertRelabelConfigs :: "SecretKeySelector option"

record AlertmanagerSpec =
  as_Replicas :: "int option"
  as_Resources :: ResourceRequirements
  as_AlertmanagerConfigSelector :: "LabelSelector option"

record Matcher =
  mt_Name :: string
  mt_Value :: string
  mt_MatchType :: string

text \<open>The sub-routes of a route are raw JSON (\<open>apiextensionsv1.JSON\<close>).\<close>

record AMRoute =
  rt_Receiver :: string
  rt_GroupBy :: "string list"
  rt_GroupWait :: string
  rt_GroupInterval :: string
  rt_RepeatInterval :: string
  rt_Matchers :: "Matcher list"
  rt_Routes :: "string list"

record PagerDutyConfig =
  pdc_ServiceKey :: "SecretKeySelector option"
  pdc_Details :: "(string \<times> string) list"

record EmailConfig =
  ec_SendResolved :: "bool option"
  ec_Smarthost :: string
  ec_From :: string
  ec_To :: string
  ec_AuthUsername :: string
  ec_AuthPassword :: "SecretKeySelector option"
  ec_Headers :: "(string \<times> string) list"
  ec_HTML :: string

record Receiver =
  rcv_Name :: string
  rcv_PagerDutyConfigs :: "PagerDutyConfig list"
  rcv_EmailConfigs :: "EmailConfig list"

record AlertmanagerConfigSpec =
  acs_Route :: "AMRoute option"
  acs_Receivers :: "Receiver list"

record Endpoint =
  ep_Port :: string
  ep_Path :: string
  ep_Scheme :: string
  ep_ScrapeTimeout :: string
  ep_Interval :: string
  ep_HonorLabels :: bool
  ep_MetricRelabelConfigs :: "RelabelConfig list"
  ep_RelabelConfigs :: "RelabelConfig list"
  ep_InsecureSkipVerify :: "bool option"        \<comment> \<open>of \<open>TLSConfig\<close>, when set\<close>
  ep_Params :: "(string, string list) fmap"
  ep_BearerTokenFile :: string

record ServiceMonitorSpec =
  sm_Endpoints :: "Endpoint list"
  sm_NamespaceMatchNames :: "string list"
  sm_Selector :: LabelSelector

section \<open>Egress rules\<close>

record EgressFirewallDestination =
  ed_CIDRSelector :: string
  ed_DNSName :: string

record EgressFirewallRule =
  ef_Type :: string
  ef_Ports :: "(string \<times> int) list"  \<comment> \<open>Protocol, Port\<close>
  ef_To :: EgressFirewallDestination

record EgressNetworkPolicyRule =
  en_Type :: string
  en_CIDRSelector :: string
  en_DNSName :: string

section \<open>OLM objects\<close>

record StrategyDeploymentSpec =
  sd_Name :: string
  sd_Containers :: "Container list"  \<comment> \<open>\<open>Spec.Template.Spec.Containers\<close>\<close>

record CatalogSourceSpec =
  cs_Image :: string
  cs_SourceType :: string

record SubscriptionSpec =
  sb_Channel :: string
  sb_Package :: string
  sb_Env :: "(string \<times> string) list option"  \<comment> \<open>\<open>Config.Env\<close>, when \<open>Config\<close> is set\<close>
  sb_CatalogSource :: string
  sb_CatalogSourceNamespace :: string
  sb_InstallPlanApproval :: string

section \<open>The repository's own API: ManagedFusionOffering\<close>

record ManagedFusionOfferingSpec =
  mfo_Kind :: string
  mfo_Release :: string
  mfo_Config :: string

definition KindDataFoundation :: string where
  [const_defs]: "KindDataFoundation = ''DF''"

definition KindDataFoundationClient :: string where
  [const_defs]: "KindDataFoundationClient = ''DFC''"

section \<open>OCS objects\<close>

record TopologySpreadConstraint =
  tsc_MaxSkew :: int
  tsc_TopologyKey :: string
  tsc_WhenUnsatisfiable :: string
  tsc_LabelSelector :: "LabelSelector option"

record PersistentVolumeClaimSpec =
  pvc_StorageClassName :: "string option"
  pvc_Requests :: "(string, quantity) fmap"
  pvc_AccessModes :: "string list"
  pvc_VolumeMode :: "string option"

record StorageDeviceSet =
  ds_Name :: string
  ds_Count :: int
  ds_Replica :: int
  ds_DeviceClass :: string
  ds_DataPVCTemplate :: PersistentVolumeClaimSpec
  ds_Placement :: "TopologySpreadConstraint list"
  ds_PreparePlacement :: "TopologySpreadConstraint list"
  ds_Portable :: bool
  ds_Resources :: ResourceRequirements

record BackingStorageClass =
  bs_Name :: string
  bs_Provisioner :: string
  bs_Parameters :: smap

record StorageProfile =
  sf_DeviceClass :: string
  sf_Name :: string
  sf_BlockPoolParameters :: smap
  sf_SharedFilesystemParameters :: smap

record StorageClusterSpec =
  sc_LabelSelector :: "LabelSelector option"
  sc_ManageNodes :: bool
  sc_MonPVCTemplate :: "PersistentVolumeClaimSpec option"
  sc_Resources :: "(string, ResourceRequirements) fmap"
  sc_BackingStorageClasses :: "BackingStorageClass list"
  sc_StorageProfiles :: "StorageProfile list"
  sc_DefaultStorageProfile :: string
  sc_StorageDeviceSets :: "StorageDeviceSet list"
  sc_MultiCloudGateway :: "string option"        \<comment> \<open>\<open>ReconcileStrategy\<close>, when set\<close>
  sc_HostNetwork :: bool
  sc_AllowRemoteStorageConsumers :: bool
  sc_CephBlockPools :: "string \<times> bool \<times> bool"
    \<comment> \<open>\<open>ReconcileStrategy\<close>, \<open>DisableStorageClass\<close>, \<open>DisableSnapshotClass\<close>\<close>
  sc_CephFilesystems :: "string \<times> bool \<times> bool"

record StorageClassClaimSpec =
  scc_Type :: string
  scc_StorageClient :: "nname option"

section \<open>Objects\<close>

datatype kind =
    KSecret | KConfigMap | KService | KNamespace | KDeployment
  | KNetworkPolicy | KEgressFirewall | KEgressNetworkPolicy
  | KPrometheus | KAlertmanager | KAlertmanagerConfig
  | KServiceMonitor | KPodMonitor | KPrometheusRule
  | KClusterVersion | KClusterServiceVersion | KCustomResourceDefinition
  | KOperatorGroup | KCatalogSource | KSubscription
  | KManagedFusionOffering
  | KStorageCluster | KOCSInitialization | KStorageConsumer
  | KStorageClient | KStorageClassClaim

text \<open>The Go types are finitely many: a statement on every one of them computes.\<close>

instantiation kind :: enum
begin

definition enum_kind :: "kind list" where
  "enum_kind =
     [KSecret, KConfigMap, KService, KNamespace, KDeployment, KNetworkPolicy, KEgressFirewall,
      KEgressNetworkPolicy, KPrometheus, KAlertmanager, KAlertmanagerConfig, KServiceMonitor,
      KPodMonitor, KPrometheusRule, KClusterVersion, KClusterServiceVersion,
      KCustomResourceDefinition, KOperatorGroup, KCatalogSource, KSubscription,
      KManagedFusionOffering, KStorageCluster, KOCSInitialization, KStorageConsumer,
      KStorageClient, KStorageClassClaim]"

definition enum_all_kind :: "(kind \<Rightarrow> bool) \<Rightarrow> bool" where
  "enum_all_kind P \<longleftrightarrow> list_all P Enum.enum"

definition enum_ex_kind :: "(kind \<Rightarrow> bool) \<Rightarrow> bool" where
  "enum_ex_kind P \<longleftrightarrow> list_ex P Enum.enum"

instance
proof
  have all: "k \<in> set Enum.enum" for k :: kind
    by (cases k) (simp_all add: enum_kind_def)
  then show U: "(UNIV :: kind set) = set Enum.enum" by blast
  show "distinct (Enum.enum :: kind list)" by (simp add: enum_kind_def)
  show "Enum.enum_all P \<longleftrightarrow> Ball UNIV P" for P :: "kind \<Rightarrow> bool"
    by (simp add: enum_all_kind_def list_all_iff U)
  show "Enum.enum_ex P \<longleftrightarrow> Bex UNIV P" for P :: "kind \<Rightarrow> bool"
    by (simp add: enum_ex_kind_def list_ex_iff U)
qed

end

text \<open>
  The dynamic type behind \<open>client.Object\<close>, with the fields the code uses. The specs of
  PodMonitors, PrometheusRules and StorageConsumers are never looked at; they are one
  opaque text, so that an update visibly keeps them.
\<close>

datatype obody =
    Secret "smap option"
  | ConfigMap "smap option"
  | Service ServiceSpec
  | NamespaceObj
  | Deployment
  | NetworkPolicy NetworkPolicySpec
  | EgressFirewall "EgressFirewallRule list"
  | EgressNetworkPolicy "EgressNetworkPolicyRule list"
  | Prometheus PrometheusSpec
  | Alertmanager AlertmanagerSpec
  | AlertmanagerConfig AlertmanagerConfigSpec
  | ServiceMonitor ServiceMonitorSpec
  | PodMonitor string
  | PrometheusRule string
  | ClusterVersion string                                  \<comment> \<open>\<open>Spec.ClusterID\<close>\<close>
  | ClusterServiceVersion "StrategyDeploymentSpec list"
  | CustomResourceDefinition
  | OperatorGroup "string list"                            \<comment> \<open>\<open>Spec.TargetNamespaces\<close>\<close>
  | CatalogSource CatalogSourceSpec
  | Subscription "SubscriptionSpec option"
  | ManagedFusionOffering ManagedFusionOfferingSpec
  | StorageCluster StorageClusterSpec string               \<comment> \<open>\<open>Status.Phase\<close>\<close>
  | OCSInitialization bool                                 \<comment> \<open>\<open>Spec.EnableCephTools\<close>\<close>
  | StorageConsumer string
  | StorageClient string string  \<comment> \<open>\<open>Spec.OnboardingTicket\<close>, \<open>Spec.StorageProviderEndpoint\<close>\<close>
  | StorageClassClaim StorageClassClaimSpec

record obj =
  meta :: ObjectMeta
  body :: obody

fun kind_of_body :: "obody \<Rightarrow> kind" where
  "kind_of_body (Secret _) = KSecret"
| "kind_of_body (ConfigMap _) = KConfigMap"
| "kind_of_body (Service _) = KService"
| "kind_of_body NamespaceObj = KNamespace"
| "kind_of_body Deployment = KDeployment"
| "kind_of_body (NetworkPolicy _) = KNetworkPolicy"
| "kind_of_body (EgressFirewall _) = KEgressFirewall"
| "kind_of_body (EgressNetworkPolicy _) = KEgressNetworkPolicy"
| "kind_of_body (Prometheus _) = KPrometheus"
| "kind_of_body (Alertmanager _) = KAlertmanager"
| "kind_of_body (AlertmanagerConfig _) = KAlertmanagerConfig"
| "kind_of_body (ServiceMonitor _) = KServiceMonitor"
| "kind_of_body (PodMonitor _) = KPodMonitor"
| "kind_of_body (PrometheusRule _) = KPrometheusRule"
| "kind_of_body (ClusterVersion _) = KClusterVersion"
| "kind_of_body (ClusterServiceVersion _) = KClusterServiceVersion"
| "kind_of_body CustomResourceDefinition = KCustomResourceDefinition"
| "kind_of_body (OperatorGroup _) = KOperatorGroup"
| "kind_of_body (CatalogSource _) = KCatalogSource"
| "kind_of_body (Subscription _) = KSubscription"
| "kind_of_body (ManagedFusionOffering _) = KManagedFusionOffering"
| "kind_of_body (StorageCluster _ _) = KStorageCluster"
| "kind_of_body (OCSInitialization _) = KOCSInitialization"
| "kind_of_body (StorageConsumer _) = KStorageConsumer"
| "kind_of_body (StorageClient _ _) = KStorageClient"
| "kind_of_body (StorageClassClaim _) = KStorageClassClaim"

definition kind_of :: "obj \<Rightarrow> kind" where
  "kind_of ob = kind_of_body (body ob)"

text \<open>\<open>client.ObjectKeyFromObject\<close>\<close>

definition ObjectKeyFromObject :: "obj \<Rightarrow> nname" where
  "ObjectKeyFromObject ob = (Name (meta ob), Namespace (meta ob))"

section \<open>Zero values\<close>

definition noResources :: ResourceRequirements where
  "noResources = \<lparr>rr_Limits = fmempty, rr_Requests = fmempty\<rparr>"

definition emptySelector :: LabelSelector where
  "emptySelector = \<lparr>ls_MatchLabels = fmempty, ls_MatchExpressions = []\<rparr>"

definition emptyPrometheusSpec :: PrometheusSpec where
  "emptyPrometheusSpec = \<lparr>ps_ExternalLabels = None, ps_ServiceAccountName = '''',
     ps_ServiceMonitorSelector = None, ps_ServiceMonitorNamespaceSelector = None,
     ps_PodMonitorSelector = None, ps_PodMonitorNamespaceSelector = None,
     ps_Resources = noResources, ps_ListenLocal = False, ps_EnableAdminAPI = False,
     ps_Containers = [], ps_Volumes = [], ps_RemoteWrite = [], ps_RuleSelector = None,
     ps_RuleNamespaceSelector = None, ps_Alerting = None,
     ps_AdditionalAlertRelabelConfigs = None\<rparr>"

definition emptyStorageClusterSpec :: StorageClusterSpec where
  "emptyStorageClusterSpec = \<lparr>sc_LabelSelector = None, sc_ManageNodes = False,
     sc_MonPVCTemplate = None, sc_Resources = fmempty, sc_BackingStorageClasses = [],
     sc_StorageProfiles = [], sc_DefaultStorageProfile = '''', sc_StorageDeviceSets = [],
     sc_MultiCloudGateway = None, sc_HostNetwork = False,
     sc_AllowRemoteStorageConsumers = False, sc_CephBlockPools = ('''', False, False),
     sc_CephFilesystems = ('''', False, False)\<rparr>"

text \<open>\<open>&T{}\<close> for the Go type behind each kind.\<close>

fun zero_body :: "kind \<Rightarrow> obody" where
  "zero_body KSecret = Secret None"
| "zero_body KConfigMap = ConfigMap None"
| "zero_body KService = Service \<lparr>sv_Ports = [], sv_Selector = fmempty, sv_ClusterIP = ''''\<rparr>"
| "zero_body KNamespace = NamespaceObj"
| "zero_body KDeployment = Deployment"
| "zero_body KNetworkPolicy =
     NetworkPolicy \<lparr>np_Ingress = [], np_PolicyTypes = [], np_PodSelector = emptySelector\<rparr>"
| "zero_body KEgressFirewall = EgressFirewall []"
| "zero_body KEgressNetworkPolicy = EgressNetworkPolicy []"
| "zero_body KPrometheus = Prometheus emptyPrometheusSpec"
| "zero_body KAlertmanager = Alertmanager \<lparr>as_Replicas = None, as_Resources = noResources,
     as_AlertmanagerConfigSelector = None\<rparr>"
| "zero_body KAlertmanagerConfig =
     AlertmanagerConfig \<lparr>acs_Route = None, acs_Receivers = []\<rparr>"
| "zero_body KServiceMonitor = ServiceMonitor \<lparr>sm_Endpoints = [], sm_NamespaceMatchNames = [],
     sm_Selector = emptySelector\<rparr>"
| "zero_body KPodMonitor = PodMonitor ''''"
| "zero_body KPrometheusRule = PrometheusRule ''''"
| "zero_body KClusterVersion = ClusterVersion ''''"
| "zero_body KClusterServiceVersion = ClusterServiceVersion []"
| "zero_body KCustomResourceDefinition = CustomResourceDefinition"
| "zero_body KOperatorGroup = OperatorGroup []"
| "zero_body KCatalogSource = CatalogSource \<lparr>cs_Image = '''', cs_SourceType = ''''\<rparr>"
| "zero_body KSubscription = Subscription None"
| "zero_body KManagedFusionOffering =
     ManagedFusionOffering \<lparr>mfo_Kind = '''', mfo_Release = '''', mfo_Config = ''''\<rparr>"
| "zero_body KStorageCluster = StorageCluster emptyStorageClusterSpec ''''"
| "zero_body KOCSInitialization = OCSInitialization False"
| "zero_body KStorageConsumer = StorageConsumer ''''"
| "zero_body KStorageClient = StorageClient '''' ''''"
| "zero_body KStorageClassClaim = StorageClassClaim \<lparr>scc_Type = '''', scc_StorageClient = None\<rparr>"

lemma kind_zero_body [simp]: "kind_of_body (zero_body k) = k"
  by (cases k) simp_all

text \<open>An object of a kind with only its name and namespace set.\<close>

definition named :: "kind \<Rightarrow> string \<Rightarrow> string \<Rightarrow> obj" where
  "named k n ns = \<lparr>meta = emptyMeta\<lparr>Name := n, Namespace := ns\<rparr>, body = zero_body k\<rparr>"

lemma kind_named [simp]: "kind_of (named k n ns) = k"
  by (simp add: named_def kind_of_def)

lemma key_named [simp]: "ObjectKeyFromObject (named k n ns) = (n, ns)"
  by (simp add: named_def ObjectKeyFromObject_def)

text \<open>
  A typed client decodes every answer into the Go struct it was handed, so an answer is
  always of the requested type.
\<close>

definition decodeAs :: "kind \<Rightarrow> obj \<Rightarrow> obj" where
  "decodeAs k ob = (if kind_of ob = k then ob else ob\<lparr>body := zero_body k\<rparr>)"

lemma kind_decodeAs [simp]: "kind_of (decodeAs k ob) = k"
  by (simp add: decodeAs_def kind_of_def)

lemma meta_decodeAs [simp]: "meta (decodeAs k ob) = meta ob"
  by (simp add: decodeAs_def)

lemma decodeAs_same [simp]: "kind_of ob = k \<Longrightarrow> decodeAs k ob = ob"
  by (simp add: decodeAs_def)

section \<open>Semantic equality\<close>

text \<open>
  \<open>equality.Semantic.DeepEqual\<close> on two objects compares them field by field; nil and
  empty maps are equal, quantities compare by value.
\<close>

definition semMeta :: "ObjectMeta \<Rightarrow> ObjectMeta" where
  "semMeta m = m\<lparr>Labels := Some (nilToEmpty (Labels m)), Annotations := Some (nilToEmpty (Annotations m))\<rparr>"

fun semBody :: "obody \<Rightarrow> obody" where
  "semBody (Secret d) = Secret (Some (nilToEmpty d))"
| "semBody (ConfigMap d) = ConfigMap (Some (nilToEmpty d))"
| "semBody (Prometheus p) =
     Prometheus (p\<lparr>ps_ExternalLabels := Some (nilToEmpty (ps_ExternalLabels p))\<rparr>)"
| "semBody b = b"

definition semObj :: "obj \<Rightarrow> obj" where
  "semObj ob = \<lparr>meta = semMeta (meta ob), body = semBody (body ob)\<rparr>"

definition Semantic_DeepEqual :: "obj \<Rightarrow> obj \<Rightarrow> bool" where
  "Semantic_DeepEqual a b \<longleftrightarrow> semObj a = semObj b"

lemma Semantic_DeepEqual_refl [simp]: "Semantic_DeepEqual a a"
  by (simp add: Semantic_DeepEqual_def)

text \<open>
  The function takes \<open>interface{}\<close> values: a struct and a pointer to one have different
  dynamic types, and values of different types are never equal.
\<close>

datatype goIface = StructVal obj | PtrTo obj

fun Semantic_DeepEqual_iface :: "goIface \<Rightarrow> goIface \<Rightarrow> bool" where
  "Semantic_DeepEqual_iface (StructVal a) (StructVal b) = Semantic_DeepEqual a b"
| "Semantic_DeepEqual_iface (PtrTo a) (PtrTo b) = Semantic_DeepEqual a b"
| "Semantic_DeepEqual_iface _ _ = False"

end
