(* ===== verification/Kube_Client.thy ===== *)
theory Kube_Client
  imports Kube_Objects
begin

text \<open>
  The Kubernetes client the reconcilers call (\<open>client.Client\<close>, an interface whose other
  side is the API server) and the controller-runtime helpers the repository builds on,
  vendored under \<open>src/vendor\<close>: \<open>CreateOrUpdate\<close>, \<open>SetControllerReference\<close> and their
  helpers. The API server is a parameter: a record of functions over a world of any
  type. The locales at the end state what a mutation function of \<open>CreateOrUpdate\<close> and an
  owner setter promise, and prove once what \<open>CreateOrUpdate\<close> does with them.
\<close>

section \<open>The client interface\<close>

type_synonym gvk = "string \<times> string \<times> string"  \<comment> \<open>Group, Version, Kind\<close>

record 'w client =
  api_Get :: "kind \<Rightarrow> nname \<Rightarrow> 'w \<Rightarrow> (gerror + obj) \<times> 'w"
  api_List :: "kind \<Rightarrow> string option \<Rightarrow> nat option \<Rightarrow> 'w \<Rightarrow> (gerror + obj list) \<times> 'w"
  api_Create :: "obj \<Rightarrow> 'w \<Rightarrow> (gerror + obj) \<times> 'w"
  api_Update :: "obj \<Rightarrow> 'w \<Rightarrow> (gerror + obj) \<times> 'w"
  api_Delete :: "kind \<Rightarrow> nname \<Rightarrow> 'w \<Rightarrow> (gerror + unit) \<times> 'w"

text \<open>One entry of the log: the operation, its arguments and the answer.\<close>

datatype call =
    CGet kind nname "gerror + obj"
  | CList kind "string option" "nat option" "gerror + obj list"
  | CCreate obj "gerror + obj"
  | CUpdate obj "gerror + obj"
  | CDelete kind nname "gerror + unit"
  | CReadFile string "gerror + string"
  | CHttpGet string "gerror + (nat \<times> (gerror + string))"
  | CSleep int

fun is_read :: "call \<Rightarrow> bool" where
  "is_read (CCreate _ _) = False"
| "is_read (CUpdate _ _) = False"
| "is_read (CDelete _ _ _) = False"
| "is_read _ = True"

fun is_delete :: "call \<Rightarrow> bool" where
  "is_delete (CDelete _ _ _) = True"
| "is_delete _ = False"

fun is_create :: "call \<Rightarrow> bool" where
  "is_create (CCreate _ _) = True"
| "is_create _ = False"

lemma is_create_iff: "is_create c \<longleftrightarrow> (\<exists>ob res. c = CCreate ob res)"
  by (cases c) auto

text \<open>A create or an update of the object at a key; every other call is not.\<close>

fun puts_at :: "kind \<Rightarrow> nname \<Rightarrow> call \<Rightarrow> bool" where
  "puts_at k key (CCreate ob _) = (kind_of ob = k \<and> ObjectKeyFromObject ob = key)"
| "puts_at k key (CUpdate ob _) = (kind_of ob = k \<and> ObjectKeyFromObject ob = key)"
| "puts_at k key _ = False"

fun deletes_at :: "kind \<Rightarrow> nname \<Rightarrow> call \<Rightarrow> bool" where
  "deletes_at k key (CDelete k' key' _) = (k' = k \<and> key' = key)"
| "deletes_at k key _ = False"

lemma deletes_at_iff: "deletes_at k key c \<longleftrightarrow> (\<exists>res. c = CDelete k key res)"
  by (cases c) auto

definition reads_or_puts :: "(kind \<times> nname) set \<Rightarrow> call \<Rightarrow> bool" where
  "reads_or_puts K c \<longleftrightarrow> is_read c \<or> (\<exists>(k, key) \<in> K. puts_at k key c)"

lemma reads_or_puts_read [simp]: "is_read c \<Longrightarrow> reads_or_puts K c"
  by (simp add: reads_or_puts_def)

lemma reads_or_puts_not_delete: "reads_or_puts K c \<Longrightarrow> \<not> is_delete c"
  by (cases c) (auto simp: reads_or_puts_def)

definition callM :: "('w \<Rightarrow> 'a \<times> 'w) \<Rightarrow> ('a \<Rightarrow> call) \<Rightarrow> (('w, call, 'z) env_scheme, 'a) prog" where
  [prog_unfold]: "callM f mk =
     (\<lambda>s. case f (world s) of
            (a, w') \<Rightarrow> (Ok a, s\<lparr>world := w', calls := calls s @ [mk a]\<rparr>))"

definition client_get ::
  "('w, 'y) client_scheme \<Rightarrow> kind \<Rightarrow> nname \<Rightarrow> (('w, call, 'z) env_scheme, obj) prog" where
  [prog_unfold]: "client_get x k key =
     bindM (callM (\<lambda>w. apfst (map_sum id (decodeAs k)) (api_Get x k key w)) (CGet k key)) liftSum"

definition client_list ::
  "('w, 'y) client_scheme \<Rightarrow> kind \<Rightarrow> string option \<Rightarrow> nat option \<Rightarrow>
   (('w, call, 'z) env_scheme, obj list) prog" where
  [prog_unfold]: "client_list x k ns lim =
     bindM (callM (\<lambda>w. apfst (map_sum id (map (decodeAs k))) (api_List x k ns lim w)) (CList k ns lim))
       liftSum"

definition client_create ::
  "('w, 'y) client_scheme \<Rightarrow> obj \<Rightarrow> (('w, call, 'z) env_scheme, obj) prog" where
  [prog_unfold]: "client_create x ob =
     bindM (callM (\<lambda>w. apfst (map_sum id (decodeAs (kind_of ob))) (api_Create x ob w)) (CCreate ob)) liftSum"

definition client_update ::
  "('w, 'y) client_scheme \<Rightarrow> obj \<Rightarrow> (('w, call, 'z) env_scheme, obj) prog" where
  [prog_unfold]: "client_update x ob =
     bindM (callM (\<lambda>w. apfst (map_sum id (decodeAs (kind_of ob))) (api_Update x ob w)) (CUpdate ob)) liftSum"

definition client_delete ::
  "('w, 'y) client_scheme \<Rightarrow> kind \<Rightarrow> nname \<Rightarrow> (('w, call, 'z) env_scheme, unit) prog" where
  [prog_unfold]: "client_delete x k key =
     bindM (callM (api_Delete x k key) (CDelete k key)) liftSum"

section \<open>CreateOrUpdate\<close>

datatype OperationResult = OperationResultNone | OperationResultCreated | OperationResultUpdated

text \<open>
  \<open>mutate\<close> runs the mutation function and rejects a change of the object's key. The
  functions are closures over the object in Go; here they take it and return it.
\<close>

definition mutate ::
  "(obj \<Rightarrow> ('s, obj) prog) \<Rightarrow> nname \<Rightarrow> obj \<Rightarrow> ('s, obj) prog" where
  [prog_unfold]: "mutate f key ob =
     bindM (f ob) (\<lambda>ob'.
       if key \<noteq> ObjectKeyFromObject ob'
       then fail (ErrorNew ''MutateFn cannot mutate object name and/or object namespace'')
       else ret ob')"

definition CreateOrUpdate ::
  "('w, 'y) client_scheme \<Rightarrow> obj \<Rightarrow> (obj \<Rightarrow> (('w, call, 'z) env_scheme, obj) prog) \<Rightarrow>
   (('w, call, 'z) env_scheme, OperationResult \<times> obj) prog" where
  [prog_unfold]: "CreateOrUpdate x ob f =
     bindM (tryM (client_get x (kind_of ob) (ObjectKeyFromObject ob))) (\<lambda>got.
       case got of
         Inl err \<Rightarrow>
           if \<not> IsNotFound err then fail err
           else bindM (mutate f (ObjectKeyFromObject ob) ob) (\<lambda>ob'.
                bindM (client_create x ob') (\<lambda>created.
                ret (OperationResultCreated, created)))
       | Inr existing \<Rightarrow>
           bindM (mutate f (ObjectKeyFromObject ob) existing) (\<lambda>ob'.
             if Semantic_DeepEqual existing ob' then ret (OperationResultNone, ob')
             else bindM (client_update x ob') (\<lambda>updated.
                  ret (OperationResultUpdated, updated))))"

section \<open>Owner references\<close>

definition ParseGroupVersion :: "string \<Rightarrow> (string \<times> string) option" where
  "ParseGroupVersion gv =
     (if gv = '''' \<or> gv = ''/'' then Some ('''', '''')
      else case count_list gv (CHR ''/'') of
             0 \<Rightarrow> Some ('''', gv)
           | Suc 0 \<Rightarrow> Some (takeWhile (\<lambda>c. c \<noteq> CHR ''/'') gv,
                            tl (dropWhile (\<lambda>c. c \<noteq> CHR ''/'') gv))
           | _ \<Rightarrow> None)"

definition GroupVersion_String :: "string \<Rightarrow> string \<Rightarrow> string" where
  "GroupVersion_String grp ver = (if length grp > 0 then grp @ ''/'' @ ver else ver)"

definition referSameObject :: "OwnerReference \<Rightarrow> OwnerReference \<Rightarrow> bool" where
  "referSameObject a b =
     (case ParseGroupVersion (or_APIVersion a) of
        None \<Rightarrow> False
      | Some (aGroup, _) \<Rightarrow>
          (case ParseGroupVersion (or_APIVersion b) of
             None \<Rightarrow> False
           | Some (bGroup, _) \<Rightarrow>
               aGroup = bGroup \<and> or_Kind a = or_Kind b \<and> or_Name a = or_Name b))"

fun indexOwnerRef :: "OwnerReference list \<Rightarrow> OwnerReference \<Rightarrow> nat option" where
  "indexOwnerRef [] ref = None"
| "indexOwnerRef (r # rs) ref =
     (if referSameObject r ref then Some 0 else map_option Suc (indexOwnerRef rs ref))"

definition setOwners :: "OwnerReference list \<Rightarrow> obj \<Rightarrow> obj" where
  "setOwners rs ob = ob\<lparr>meta := (meta ob)\<lparr>OwnerReferences := rs\<rparr>\<rparr>"

definition upsertOwnerRef :: "OwnerReference \<Rightarrow> obj \<Rightarrow> obj" where
  "upsertOwnerRef ref ob =
     (let owners = OwnerReferences (meta ob) in
      setOwners (case indexOwnerRef owners ref of
                   None \<Rightarrow> owners @ [ref]
                 | Some idx \<Rightarrow> owners[idx := ref]) ob)"

fun GetControllerOf :: "OwnerReference list \<Rightarrow> OwnerReference option" where
  "GetControllerOf [] = None"
| "GetControllerOf (r # rs) = (if or_Controller r = Some True then Some r else GetControllerOf rs)"

definition validateOwner :: "obj \<Rightarrow> obj \<Rightarrow> gerror option" where
  "validateOwner owner ob =
     (let ownerNs = Namespace (meta owner); objNs = Namespace (meta ob) in
      if ownerNs \<noteq> '''' then
        if objNs = ''''
        then Some (ErrorNew ''cluster-scoped resource must not have a namespace-scoped owner'')
        else if ownerNs \<noteq> objNs
        then Some (ErrorNew ''cross-namespace owner references are disallowed'')
        else None
      else None)"

definition controllerRef :: "gvk \<Rightarrow> obj \<Rightarrow> OwnerReference" where
  "controllerRef g owner = (case g of (grp, ver, knd) \<Rightarrow>
     \<lparr>or_APIVersion = GroupVersion_String grp ver, or_Kind = knd,
      or_Name = Name (meta owner), or_UID = UID (meta owner),
      or_Controller = Some True, or_BlockOwnerDeletion = Some True\<rparr>)"

text \<open>A scheme registers Go types under their group, version and kind.\<close>

type_synonym scheme = "kind \<Rightarrow> gvk option"

definition GVKForObject :: "scheme \<Rightarrow> kind \<Rightarrow> gerror + gvk" where
  "GVKForObject sch k = (case sch k of
     None \<Rightarrow> Inl (ErrorNew ''no kind is registered for the type in scheme'')
   | Some g \<Rightarrow> Inr g)"

definition SetControllerReference :: "scheme \<Rightarrow> obj \<Rightarrow> obj \<Rightarrow> gerror + obj" where
  "SetControllerReference sch owner controlled =
     (case validateOwner owner controlled of
        Some err \<Rightarrow> Inl err
      | None \<Rightarrow>
          (case GVKForObject sch (kind_of owner) of
             Inl err \<Rightarrow> Inl err
           | Inr g \<Rightarrow>
               (let ref = controllerRef g owner in
                case GetControllerOf (OwnerReferences (meta controlled)) of
                  Some existing \<Rightarrow>
                    if \<not> referSameObject existing ref
                    then Inl (ErrorNew ''Object is already owned by another controller'')
                    else Inr (upsertOwnerRef ref controlled)
                | None \<Rightarrow> Inr (upsertOwnerRef ref controlled))))"

section \<open>Calls of the client operations\<close>

lemma emits_callM:
  assumes "env_stable I" and "\<And>a. A (mk a)"
  shows "emits I A (callM f mk)"
  using assms by (auto simp: emits_def prog_unfold env_stable_def split: prod.splits)

lemma emits_client_get:
  assumes "env_stable I" and "\<And>r. A (CGet k key r)"
  shows "emits I A (client_get x k key)"
  unfolding client_get_def by (intro emits_rules emits_callM assms)

lemma emits_client_list:
  assumes "env_stable I" and "\<And>r. A (CList k ns lim r)"
  shows "emits I A (client_list x k ns lim)"
  unfolding client_list_def by (intro emits_rules emits_callM assms)

lemma emits_client_create:
  assumes "env_stable I" and "\<And>r. A (CCreate ob r)"
  shows "emits I A (client_create x ob)"
  unfolding client_create_def by (intro emits_rules emits_callM assms)

lemma emits_client_update:
  assumes "env_stable I" and "\<And>r. A (CUpdate ob r)"
  shows "emits I A (client_update x ob)"
  unfolding client_update_def by (intro emits_rules emits_callM assms)

lemma emits_client_delete:
  assumes "env_stable I" and "\<And>r. A (CDelete k key r)"
  shows "emits I A (client_delete x k key)"
  unfolding client_delete_def by (intro emits_rules emits_callM assms)

lemma decoded_kind [dest]:
  "apfst (map_sum id (decodeAs k)) p = (Inr ob, w) \<Longrightarrow> kind_of ob = k"
  by (cases p; cases "fst p") auto

lemma client_get_kind: "fst (client_get x k key s) = Ok ob \<Longrightarrow> kind_of ob = k"
  by (auto simp: prog_unfold split: prod.splits sum.splits)

lemma mutate_Ok:
  "fst (mutate f key ob s) = Ok ob' \<Longrightarrow> fst (f ob s) = Ok ob' \<and> ObjectKeyFromObject ob' = key"
  by (auto simp: prog_unfold split: prod.splits outcome.splits if_splits)

lemma emits_mutate: "emits I A (f ob) \<Longrightarrow> emits I A (mutate f key ob)"
  unfolding mutate_def by (intro emits_rules)

text \<open>
  Whatever the mutation function does, the writes of \<open>CreateOrUpdate\<close> itself are at the
  key and kind of the object it was given.
\<close>

lemma emits_CreateOrUpdate:
  assumes stable: "env_stable I"
    and get: "\<And>r. A (CGet (kind_of ob) (ObjectKeyFromObject ob) r)"
    and puts: "\<And>c. puts_at (kind_of ob) (ObjectKeyFromObject ob) c \<Longrightarrow> A c"
    and f: "\<And>o1. emits I A (f o1)"
    and kind: "\<And>o1. kind_of o1 = kind_of ob \<Longrightarrow> yields (\<lambda>o2. kind_of o2 = kind_of ob) (f o1)"
  shows "emits I A (CreateOrUpdate x ob f)"
proof -
  let ?k = "kind_of ob" and ?key = "ObjectKeyFromObject ob"
  have mut: "yields (\<lambda>o2. kind_of o2 = ?k \<and> ObjectKeyFromObject o2 = ?key) (mutate f ?key o1)"
    if "kind_of o1 = ?k" for o1
    using kind [OF that] by (auto simp: yields_def dest!: mutate_Ok)
  have create: "emits I A (bindM (mutate f ?key ob) (\<lambda>ob'. bindM (client_create x ob')
      (\<lambda>created. ret (OperationResultCreated, created))))"
    by (rule emits_bindM_yields [OF emits_mutate [OF f] mut])
      (auto intro!: emits_rules emits_client_create stable puts)
  have update: "emits I A (bindM (mutate f ?key ex) (\<lambda>ob'.
      if Semantic_DeepEqual ex ob' then ret (OperationResultNone, ob')
      else bindM (client_update x ob') (\<lambda>updated. ret (OperationResultUpdated, updated))))"
    if "kind_of ex = ?k" for ex
    by (rule emits_bindM_yields [OF emits_mutate [OF f] mut [OF that]])
      (auto intro!: emits_rules emits_client_update stable puts)
  show ?thesis
    unfolding CreateOrUpdate_def
  proof (rule emits_bindM_post [where P = "\<lambda>got. case got of Inl _ \<Rightarrow> True | Inr ex \<Rightarrow> kind_of ex = ?k"])
    show "emits I A (tryM (client_get x ?k ?key))"
      by (intro emits_tryM emits_client_get stable get)
    show "case got of Inl _ \<Rightarrow> True | Inr ex \<Rightarrow> kind_of ex = ?k"
      if "fst (tryM (client_get x ?k ?key) s) = Ok got" for s got
      using that by (auto simp: prog_unfold split: prod.splits sum.splits outcome.splits)
  qed (auto intro: create update emits_fail split: sum.split)
qed

section \<open>Runs that delete nothing; the keys of the answers\<close>

abbreviation nodelete :: "(('w, call, 'z) env_scheme, 'a) prog \<Rightarrow> bool" where
  "nodelete m \<equiv> emits (\<lambda>_. True) (\<lambda>c. \<not> is_delete c) m"

lemma nodelete_client [emits_intro]:
  "nodelete (client_get x k key)" "nodelete (client_list x k ns lim)"
  "nodelete (client_create x ob)" "nodelete (client_update x ob)"
  by (auto intro!: emits_client_get emits_client_list emits_client_create emits_client_update)

lemma nodelete_CreateOrUpdate:
  assumes "\<And>o1. nodelete (f o1)"
  shows "nodelete (CreateOrUpdate x ob f)"
  unfolding CreateOrUpdate_def mutate_def
  by (intro emits_rules nodelete_client assms)

text \<open>
  A server that answers a get with an object of the name and namespace asked for, and a
  create or an update with an object of the name and namespace it was sent.
\<close>

definition answers_keyed :: "('w, 'y) client_scheme \<Rightarrow> bool" where
  "answers_keyed x \<longleftrightarrow>
     (\<forall>k key w ob. fst (api_Get x k key w) = Inr ob \<longrightarrow> ObjectKeyFromObject ob = key) \<and>
     (\<forall>ob w ob'. fst (api_Create x ob w) = Inr ob' \<longrightarrow> ObjectKeyFromObject ob' = ObjectKeyFromObject ob) \<and>
     (\<forall>ob w ob'. fst (api_Update x ob w) = Inr ob' \<longrightarrow> ObjectKeyFromObject ob' = ObjectKeyFromObject ob)"

lemma key_decodeAs [simp]: "ObjectKeyFromObject (decodeAs k ob) = ObjectKeyFromObject ob"
  by (simp add: ObjectKeyFromObject_def)

lemma decoded_Inr:
  "apfst (map_sum id (decodeAs k)) p = (Inr ob, w) \<Longrightarrow> \<exists>ob0. fst p = Inr ob0 \<and> ob = decodeAs k ob0"
  by (cases p; cases "fst p") auto

lemma client_get_key:
  "answers_keyed x \<Longrightarrow> fst (client_get x k key s) = Ok ob \<Longrightarrow> ObjectKeyFromObject ob = key"
  unfolding answers_keyed_def prog_unfold
  by (auto split: prod.splits sum.splits dest!: decoded_Inr simp del: split_paired_All)

lemma client_update_key:
  "answers_keyed x \<Longrightarrow> fst (client_update x ob s) = Ok ob' \<Longrightarrow>
     ObjectKeyFromObject ob' = ObjectKeyFromObject ob \<and> kind_of ob' = kind_of ob"
  unfolding answers_keyed_def prog_unfold
  by (auto split: prod.splits sum.splits dest!: decoded_Inr simp del: split_paired_All)

lemma client_create_key:
  "answers_keyed x \<Longrightarrow> fst (client_create x ob s) = Ok ob' \<Longrightarrow>
     ObjectKeyFromObject ob' = ObjectKeyFromObject ob \<and> kind_of ob' = kind_of ob"
  unfolding answers_keyed_def prog_unfold
  by (auto split: prod.splits sum.splits dest!: decoded_Inr simp del: split_paired_All)

lemma yields_client_get: "yields (\<lambda>ob. kind_of ob = k) (client_get x k key)"
  by (auto simp: yields_def dest: client_get_kind)

lemma yields_mutate:
  "yields P (f ob) \<Longrightarrow> yields (\<lambda>ob'. P ob' \<and> ObjectKeyFromObject ob' = key) (mutate f key ob)"
  by (auto simp: yields_def dest!: mutate_Ok)

lemma CreateOrUpdate_key:
  assumes x: "answers_keyed x"
    and kind: "\<And>o1. kind_of o1 = kind_of ob \<Longrightarrow> yields (\<lambda>o2. kind_of o2 = kind_of ob) (f o1)"
  shows "yields (\<lambda>(_, ob'). ObjectKeyFromObject ob' = ObjectKeyFromObject ob \<and> kind_of ob' = kind_of ob)
    (CreateOrUpdate x ob f)"
proof -
  have update: "yields (\<lambda>ob'. ObjectKeyFromObject ob' = ObjectKeyFromObject o1 \<and> kind_of ob' = kind_of o1)
      (client_update x o1)" for o1
    using client_update_key [OF x] by (auto simp: yields_def)
  have create: "yields (\<lambda>ob'. ObjectKeyFromObject ob' = ObjectKeyFromObject o1 \<and> kind_of ob' = kind_of o1)
      (client_create x o1)" for o1
    using client_create_key [OF x] by (auto simp: yields_def)
  show ?thesis
    unfolding CreateOrUpdate_def
    by (rule yields_bindM [OF yields_tryM [OF yields_client_get]], split sum.split)
      (auto intro!: yields_fail yields_ret yields_if yields_bindM [OF yields_mutate [OF kind]]
        yields_bindM [OF create] yields_bindM [OF update])
qed

section \<open>What is written\<close>

text \<open>Everything \<open>CreateOrUpdate\<close> writes is a result of its mutation function.\<close>

definition writes_only :: "(obj \<Rightarrow> bool) \<Rightarrow> call \<Rightarrow> bool" where
  "writes_only P c \<longleftrightarrow>
     (case c of CCreate ob _ \<Rightarrow> P ob | CUpdate ob _ \<Rightarrow> P ob | CDelete _ _ _ \<Rightarrow> False | _ \<Rightarrow> True)"

lemma writes_only_simps [simp]:
  "writes_only P (CCreate ob r) = P ob" "writes_only P (CUpdate ob r) = P ob"
  by (simp_all add: writes_only_def)

lemma writes_only_read [simp]: "is_read c \<Longrightarrow> writes_only P c"
  by (cases c) (simp_all add: writes_only_def)

lemma emits_CreateOrUpdate_writes:
  assumes stable: "env_stable I"
    and f: "\<And>o1. kind_of o1 = kind_of ob \<Longrightarrow> emits I (writes_only P) (f o1)"
    and y: "\<And>o1. kind_of o1 = kind_of ob \<Longrightarrow> yields P (f o1)"
  shows "emits I (writes_only P) (CreateOrUpdate x ob f)"
proof -
  have mut: "emits I (writes_only P) (mutate f key o1)" "yields P (mutate f key o1)"
    if "kind_of o1 = kind_of ob" for key o1
    using f [OF that] y [OF that]
    by (auto simp: mutate_def intro!: emits_rules yields_bindM [where Q = P] yields_if yields_ret yields_fail)
  show ?thesis
    unfolding CreateOrUpdate_def
  proof (rule emits_bindM_yields [OF _ yields_tryM [OF yields_client_get]])
    show "emits I (writes_only P) (tryM (client_get x (kind_of ob) (ObjectKeyFromObject ob)))"
      by (intro emits_tryM emits_client_get stable) simp
  qed (auto split: sum.split intro!: emits_fail emits_ret emits_if emits_bindM_yields [OF mut]
      emits_bindM [OF emits_client_create [OF stable]] emits_bindM [OF emits_client_update [OF stable]])
qed

section \<open>What SetControllerReference does\<close>

definition gvk_ok :: "gvk \<Rightarrow> bool" where
  "gvk_ok g = (case g of (grp, ver, _) \<Rightarrow> ParseGroupVersion (GroupVersion_String grp ver) \<noteq> None)"

definition scheme_ok :: "scheme \<Rightarrow> bool" where
  "scheme_ok sch \<longleftrightarrow> (\<forall>k g. sch k = Some g \<longrightarrow> gvk_ok g)"

definition isControllerRef :: "OwnerReference \<Rightarrow> bool" where
  "isControllerRef r \<longleftrightarrow> or_Controller r = Some True"

lemma referSameObject_controllerRef:
  "gvk_ok g \<Longrightarrow> referSameObject (controllerRef g owner) (controllerRef g owner)"
  by (auto simp: gvk_ok_def referSameObject_def controllerRef_def split: prod.splits)

lemma referSameObject_trans:
  "referSameObject a b \<Longrightarrow> referSameObject b c \<Longrightarrow> referSameObject a c"
  by (auto simp: referSameObject_def split: option.splits)

lemma referSameObject_sym: "referSameObject a b \<Longrightarrow> referSameObject b a"
  by (auto simp: referSameObject_def split: option.splits)

lemma indexOwnerRef_Some:
  "indexOwnerRef rs ref = Some i \<longleftrightarrow>
     i < length rs \<and> referSameObject (rs ! i) ref \<and> (\<forall>j<i. \<not> referSameObject (rs ! j) ref)"
  apply (induction rs arbitrary: i)
  apply simp
  subgoal for r rs i by (cases i) (auto simp: less_Suc_eq_0_disj All_less_Suc2)
  done

lemma indexOwnerRef_None: "indexOwnerRef rs ref = None \<longleftrightarrow> (\<forall>r\<in>set rs. \<not> referSameObject r ref)"
  by (induction rs) auto

definition upserted :: "OwnerReference \<Rightarrow> OwnerReference list \<Rightarrow> OwnerReference list" where
  "upserted ref rs = (case indexOwnerRef rs ref of None \<Rightarrow> rs @ [ref] | Some i \<Rightarrow> rs[i := ref])"

lemma upsertOwnerRef_upserted:
  "upsertOwnerRef ref ob = setOwners (upserted ref (OwnerReferences (meta ob))) ob"
  by (simp add: upsertOwnerRef_def upserted_def Let_def)

lemma upserted_Cons:
  "upserted ref (r # rs) = (if referSameObject r ref then ref # rs else r # upserted ref rs)"
  by (auto simp: upserted_def split: option.splits)

lemma upserted_Nil [simp]: "upserted ref [] = [ref]"
  by (simp add: upserted_def)

lemma ref_in_upserted: "ref \<in> set (upserted ref rs)"
  by (induction rs) (auto simp: upserted_Cons)

lemma upserted_idem: "referSameObject ref ref \<Longrightarrow> upserted ref (upserted ref rs) = upserted ref rs"
  by (induction rs) (auto simp: upserted_Cons)

lemma GetControllerOf_upserted:
  assumes "isControllerRef ref" and "case GetControllerOf rs of None \<Rightarrow> True | Some e \<Rightarrow> referSameObject e ref"
  shows "GetControllerOf (upserted ref rs) = Some ref"
  using assms by (induction rs) (auto simp: upserted_Cons isControllerRef_def split: if_splits)

lemma SetControllerReference_Inr:
  "SetControllerReference sch owner ob = Inr ob' \<longleftrightarrow>
     validateOwner owner ob = None \<and>
     (\<exists>g. sch (kind_of owner) = Some g \<and>
       (case GetControllerOf (OwnerReferences (meta ob)) of
          None \<Rightarrow> True | Some e \<Rightarrow> referSameObject e (controllerRef g owner)) \<and>
       ob' = upsertOwnerRef (controllerRef g owner) ob)"
  by (auto simp: SetControllerReference_def GVKForObject_def Let_def split: option.splits)

lemma validateOwner_cong:
  "Namespace (meta a) = Namespace (meta b) \<Longrightarrow> validateOwner owner a = validateOwner owner b"
  by (simp add: validateOwner_def)

lemma setOwners_meta [simp]:
  "body (setOwners rs ob) = body ob" "kind_of (setOwners rs ob) = kind_of ob"
  "OwnerReferences (meta (setOwners rs ob)) = rs"
  "Name (meta (setOwners rs ob)) = Name (meta ob)"
  "Namespace (meta (setOwners rs ob)) = Namespace (meta ob)"
  "Labels (meta (setOwners rs ob)) = Labels (meta ob)"
  "Finalizers (meta (setOwners rs ob)) = Finalizers (meta ob)"
  by (simp_all add: setOwners_def kind_of_def)

lemma setOwners_same: "OwnerReferences (meta ob) = rs \<Longrightarrow> setOwners rs ob = ob"
  by (auto simp: setOwners_def)

lemma SetControllerReference_settled:
  assumes ok: "scheme_ok sch" and set: "SetControllerReference sch owner ob = Inr ob'"
    and own: "OwnerReferences (meta a) = OwnerReferences (meta ob')"
    and ns: "Namespace (meta a) = Namespace (meta ob)"
  shows "SetControllerReference sch owner a = Inr a"
proof -
  obtain g where g: "sch (kind_of owner) = Some g"
    and v: "validateOwner owner ob = None"
    and ctl: "case GetControllerOf (OwnerReferences (meta ob)) of
          None \<Rightarrow> True | Some e \<Rightarrow> referSameObject e (controllerRef g owner)"
    and ob': "ob' = upsertOwnerRef (controllerRef g owner) ob"
    using set by (auto simp: SetControllerReference_Inr)
  let ?ref = "controllerRef g owner"
  have refl: "referSameObject ?ref ?ref"
    using ok g unfolding scheme_ok_def by (intro referSameObject_controllerRef) blast
  have isc: "isControllerRef ?ref" by (cases g) (simp add: isControllerRef_def controllerRef_def)
  have a: "OwnerReferences (meta a) = upserted ?ref (OwnerReferences (meta ob))"
    using own ob' by (simp add: upsertOwnerRef_upserted)
  have "upsertOwnerRef ?ref a = a"
    by (simp add: upsertOwnerRef_upserted a upserted_idem [OF refl] setOwners_same)
  moreover have "validateOwner owner a = None"
    using v validateOwner_cong [OF ns] by simp
  ultimately show ?thesis
    using g refl GetControllerOf_upserted [OF isc ctl] by (auto simp: SetControllerReference_Inr a)
qed

text \<open>An object keeps at most one controller.\<close>

lemma GetControllerOf_None: "GetControllerOf rs = None \<longleftrightarrow> filter isControllerRef rs = []"
  by (induction rs) (auto simp: isControllerRef_def)

lemma GetControllerOf_Some: "GetControllerOf rs = Some e \<Longrightarrow> e \<in> set rs \<and> isControllerRef e"
  by (induction rs) (auto simp: isControllerRef_def split: if_splits)

lemma upserted_one_controller:
  assumes "case GetControllerOf rs of None \<Rightarrow> True | Some e \<Rightarrow> referSameObject e ref"
    and "length (filter isControllerRef rs) \<le> 1"
    and "length (filter (\<lambda>r. referSameObject r ref) rs) \<le> 1"
  shows "length (filter isControllerRef (upserted ref rs)) \<le> 1"
  using assms
proof (induction rs)
  case (Cons r rs)
  show ?case
  proof (cases "referSameObject r ref")
    case True
    have none: "\<forall>r'\<in>set rs. \<not> referSameObject r' ref"
      using Cons.prems(3) True by (simp add: filter_empty_conv)
    have "filter isControllerRef rs = []"
    proof (cases "isControllerRef r")
      case True
      then show ?thesis using Cons.prems(2) by simp
    next
      case False
      then have "GetControllerOf rs = None"
        using Cons.prems(1) none GetControllerOf_Some
        by (cases "GetControllerOf rs") (auto simp: isControllerRef_def)
      then show ?thesis by (simp add: GetControllerOf_None)
    qed
    with True show ?thesis by (simp add: upserted_Cons)
  next
    case False
    then have "\<not> isControllerRef r" using Cons.prems(1) by (auto simp: isControllerRef_def)
    with False Cons show ?thesis by (auto simp: upserted_Cons isControllerRef_def)
  qed
qed simp

section \<open>Contracts of mutation functions\<close>

text \<open>What the server writes into an object it stores: its UID and its version.\<close>

definition stamp :: "string \<Rightarrow> string \<Rightarrow> obj \<Rightarrow> obj" where
  "stamp u v ob = ob\<lparr>meta := (meta ob)\<lparr>UID := u, ResourceVersion := v\<rparr>\<rparr>"

lemma stamp_frame [simp]:
  "body (stamp u v ob) = body ob" "kind_of (stamp u v ob) = kind_of ob"
  "ObjectKeyFromObject (stamp u v ob) = ObjectKeyFromObject ob"
  "OwnerReferences (meta (stamp u v ob)) = OwnerReferences (meta ob)"
  "Name (meta (stamp u v ob)) = Name (meta ob)"
  "Namespace (meta (stamp u v ob)) = Namespace (meta ob)"
  "Labels (meta (stamp u v ob)) = Labels (meta ob)"
  "Annotations (meta (stamp u v ob)) = Annotations (meta ob)"
  "UID (meta (stamp u v ob)) = u" "ResourceVersion (meta (stamp u v ob)) = v"
  by (simp_all add: stamp_def kind_of_def ObjectKeyFromObject_def)

text \<open>
  A mutation function without effects, on objects of the kind \<open>k\<close> (in Go, the static type
  of the object). It keeps the object's kind and key, and it is settled: on an object it
  has produced, as the server hands it back, it changes nothing.
\<close>

locale pure_mutator =
  fixes k :: kind and g :: "obj \<Rightarrow> obj outcome"
  assumes same_kind: "kind_of ob = k \<Longrightarrow> g ob = Ok ob' \<Longrightarrow> kind_of ob' = k"
    and same_key: "kind_of ob = k \<Longrightarrow> g ob = Ok ob' \<Longrightarrow> ObjectKeyFromObject ob' = ObjectKeyFromObject ob"
    and settled: "kind_of ob = k \<Longrightarrow> g ob = Ok ob' \<Longrightarrow> g (stamp u v ob') = Ok (stamp u v ob')"
begin

lemma CreateOrUpdate_calls:
  assumes k: "kind_of ob = k"
  shows "emits (\<lambda>_. True) (reads_or_puts {(k, ObjectKeyFromObject ob)})
     (CreateOrUpdate x ob (\<lambda>o1. liftOutcome (g o1)))"
proof (rule emits_CreateOrUpdate)
  show "emits (\<lambda>_. True) (reads_or_puts {(k, ObjectKeyFromObject ob)}) (liftOutcome (g o1))"
    for o1 by (rule emits_liftOutcome)
  show "yields (\<lambda>o2. kind_of o2 = kind_of ob) (liftOutcome (g o1))" if "kind_of o1 = kind_of ob" for o1
    using that same_kind k by (intro yields_liftOutcome) simp
qed (auto simp: reads_or_puts_def k)

text \<open>Once the server holds what the function made, a further run only reads.\<close>

lemma CreateOrUpdate_quiet:
  assumes made: "kind_of ob0 = k" "g ob0 = Ok ob1" and k: "kind_of ob = k"
    and key: "ObjectKeyFromObject ob1 = ObjectKeyFromObject ob"
    and get: "api_Get x k (ObjectKeyFromObject ob) (world s) = (Inr (stamp u v ob1), w')"
  shows "CreateOrUpdate x ob (\<lambda>o1. liftOutcome (g o1)) s =
    (Ok (OperationResultNone, stamp u v ob1),
     s\<lparr>world := w', calls := calls s @ [CGet k (ObjectKeyFromObject ob) (Inr (stamp u v ob1))]\<rparr>)"
  using settled [OF made, of u v] same_kind [OF made] get k key by (simp add: prog_unfold)

text \<open>What is written on the create path is the function applied to the object given.\<close>

lemma CreateOrUpdate_creates:
  assumes get: "api_Get x k (ObjectKeyFromObject ob) (world s) = (Inl e, w')" "IsNotFound e"
    and k: "kind_of ob = k" and made: "g ob = Ok ob1"
  shows "CCreate ob1 (map_sum id (decodeAs k) (fst (api_Create x ob1 w')))
    \<in> set (issued (CreateOrUpdate x ob (\<lambda>o1. liftOutcome (g o1))) s)"
  using get k same_key [OF k made] same_kind [OF k made] made
  by (cases "api_Create x ob1 w'") (auto simp: prog_unfold issued_def split: sum.splits)

text \<open>
  The whole log: a read, and at most one write, of the function applied to what was read or,
  when there was nothing, to the object given.
\<close>

lemma CreateOrUpdate_log:
  assumes k: "kind_of ob = k"
  obtains (read) ans where "issued (CreateOrUpdate x ob (\<lambda>o1. liftOutcome (g o1))) s = [CGet k (ObjectKeyFromObject ob) ans]"
  | (create) e ob1 res where "IsNotFound e" and "g ob = Ok ob1"
      and "issued (CreateOrUpdate x ob (\<lambda>o1. liftOutcome (g o1))) s =
        [CGet k (ObjectKeyFromObject ob) (Inl e), CCreate ob1 res]"
  | (update) ex ob1 res where "kind_of ex = k" and "g ex = Ok ob1" and "\<not> Semantic_DeepEqual ex ob1"
      and "issued (CreateOrUpdate x ob (\<lambda>o1. liftOutcome (g o1))) s =
        [CGet k (ObjectKeyFromObject ob) (Inr ex), CUpdate ob1 res]"
proof -
  let ?m = "CreateOrUpdate x ob (\<lambda>o1. liftOutcome (g o1))" and ?key = "ObjectKeyFromObject ob"
  obtain a w1 where get: "api_Get x k ?key (world s) = (a, w1)" by (cases "api_Get x k ?key (world s)")
  show thesis
  proof (cases a)
    case (Inl e)
    show thesis
    proof (cases "IsNotFound e \<and> (\<exists>ob1. g ob = Ok ob1)")
      case True
      then obtain ob1 where made: "g ob = Ok ob1" by blast
      obtain res w2 where "api_Create x ob1 w1 = (res, w2)" by (cases "api_Create x ob1 w1")
      then have "issued ?m s = [CGet k ?key (Inl e), CCreate ob1 (map_sum id (decodeAs k) res)]"
        using get Inl True k made same_key [OF k made] same_kind [OF k made]
        by (cases res) (auto simp: prog_unfold issued_def)
      with True made show thesis by (intro create) auto
    next
      case False
      then have "issued ?m s = [CGet k ?key (Inl e)]"
        using get Inl k by (cases "g ob") (auto simp: prog_unfold issued_def)
      then show thesis by (rule read)
    qed
  next
    case (Inr ex0)
    let ?ex = "decodeAs k ex0"
    show thesis
    proof (cases "\<exists>ob1. g ?ex = Ok ob1 \<and> \<not> Semantic_DeepEqual ?ex ob1 \<and> ObjectKeyFromObject ob1 = ?key")
      case True
      then obtain ob1 where made: "g ?ex = Ok ob1" "\<not> Semantic_DeepEqual ?ex ob1" "ObjectKeyFromObject ob1 = ?key"
        by blast
      obtain res w2 where "api_Update x ob1 w1 = (res, w2)" by (cases "api_Update x ob1 w1")
      then have "issued ?m s = [CGet k ?key (Inr ?ex), CUpdate ob1 (map_sum id (decodeAs k) res)]"
        using get Inr k made same_kind [of ?ex ob1]
        by (cases res) (auto simp: prog_unfold issued_def)
      with made show thesis by (intro update) auto
    next
      case False
      then have "issued ?m s = [CGet k ?key (Inr ?ex)]"
        using get Inr k by (cases "g ?ex") (auto simp: prog_unfold issued_def)
      then show thesis by (rule read)
    qed
  qed
qed

text \<open>What is written on the update path is the function applied to what was read.\<close>

lemma CreateOrUpdate_updates:
  assumes get: "api_Get x k (ObjectKeyFromObject ob) (world s) = (Inr ex, w')" and k: "kind_of ob = k"
    and ex: "kind_of ex = k" "ObjectKeyFromObject ex = ObjectKeyFromObject ob"
    and made: "g ex = Ok ob1" and diff: "\<not> Semantic_DeepEqual ex ob1"
  shows "CUpdate ob1 (map_sum id (decodeAs k) (fst (api_Update x ob1 w')))
    \<in> set (issued (CreateOrUpdate x ob (\<lambda>o1. liftOutcome (g o1))) s)"
  using get k diff ex same_key [OF ex(1) made] same_kind [OF ex(1) made] made
  by (cases "api_Update x ob1 w'") (auto simp: prog_unfold issued_def split: sum.splits)

end

text \<open>
  Setting the owner: only the owner references change, and where they are already as the
  setter leaves them it changes nothing, whatever the rest of the object is.
\<close>

locale owner_setter =
  fixes own :: "obj \<Rightarrow> gerror + obj"
  assumes own_shape: "own ob = Inr ob' \<Longrightarrow> ob' = setOwners (OwnerReferences (meta ob')) ob"
    and own_settled: "own ob = Inr ob' \<Longrightarrow>
      OwnerReferences (meta a) = OwnerReferences (meta ob') \<Longrightarrow>
      Namespace (meta a) = Namespace (meta ob) \<Longrightarrow> own a = Inr a"

text \<open>Setting the contents: kind, key and owners stay.\<close>

locale content_setter =
  fixes k :: kind and h :: "obj \<Rightarrow> obj outcome"
  assumes h_kind: "kind_of ob = k \<Longrightarrow> h ob = Ok ob' \<Longrightarrow> kind_of ob' = k"
    and h_key: "kind_of ob = k \<Longrightarrow> h ob = Ok ob' \<Longrightarrow> ObjectKeyFromObject ob' = ObjectKeyFromObject ob"
    and h_owners: "kind_of ob = k \<Longrightarrow> h ob = Ok ob' \<Longrightarrow> OwnerReferences (meta ob') = OwnerReferences (meta ob)"
    and h_settled: "kind_of ob = k \<Longrightarrow> h ob = Ok ob' \<Longrightarrow> h (stamp u v ob') = Ok (stamp u v ob')"

sublocale content_setter \<subseteq> pure_mutator k h
  by unfold_locales (fact h_kind h_key h_settled)+

text \<open>The closures of the reconcilers: set the owner, return its error, then the contents.\<close>

definition withOwner :: "(obj \<Rightarrow> gerror + obj) \<Rightarrow> (obj \<Rightarrow> obj outcome) \<Rightarrow> obj \<Rightarrow> obj outcome" where
  [prog_unfold]: "withOwner own h ob = (case own ob of Inl err \<Rightarrow> Err err | Inr ob' \<Rightarrow> h ob')"

locale owned_setter = owner_setter own + content_setter k h
  for own :: "obj \<Rightarrow> gerror + obj" and k :: kind and h :: "obj \<Rightarrow> obj outcome"

sublocale owned_setter \<subseteq> owned: pure_mutator k "withOwner own h"
proof
  fix ob ob' :: obj and u v
  assume k: "kind_of ob = k" and "withOwner own h ob = Ok ob'"
  then obtain o1 where o1: "own ob = Inr o1" and ob': "h o1 = Ok ob'"
    by (auto simp: withOwner_def split: sum.splits)
  note shape = own_shape [OF o1]
  have "kind_of o1 = kind_of ob" and key: "ObjectKeyFromObject o1 = ObjectKeyFromObject ob"
    by (subst shape, simp add: ObjectKeyFromObject_def)+
  then have k1: "kind_of o1 = k" by (simp add: k)
  show "kind_of ob' = k" "ObjectKeyFromObject ob' = ObjectKeyFromObject ob"
    using h_kind [OF k1 ob'] h_key [OF k1 ob'] key by simp_all
  have "own (stamp u v ob') = Inr (stamp u v ob')"
    using h_owners [OF k1 ob'] h_key [OF k1 ob'] key
    by (intro own_settled [OF o1]) (simp_all add: ObjectKeyFromObject_def)
  then show "withOwner own h (stamp u v ob') = Ok (stamp u v ob')"
    using h_settled [OF k1 ob'] by (simp add: withOwner_def)
qed

lemma SetControllerReference_shape:
  "SetControllerReference sch owner ob = Inr ob' \<Longrightarrow> ob' = setOwners (OwnerReferences (meta ob')) ob"
  by (auto simp: SetControllerReference_Inr upsertOwnerRef_upserted)

end
