(* ===== verification/Go_Strings.thy ===== *)
theory Go_Strings
  imports Prelude "HOL-Library.Sublist" "HOL-Library.Char_ord"
begin

text \<open>
  The functions of Go's \<open>strings\<close> package the repository calls, on strings as byte lists.
\<close>

section \<open>Definitions\<close>

definition HasPrefix :: "string \<Rightarrow> string \<Rightarrow> bool" where
  "HasPrefix s p \<longleftrightarrow> prefix p s"

text \<open>\<open>strings.Split\<close> with a one-byte separator: always at least one piece.\<close>

fun Split :: "string \<Rightarrow> char \<Rightarrow> string list" where
  "Split [] sep = [[]]"
| "Split (c # cs) sep =
     (if c = sep then [] # Split cs sep
      else (case Split cs sep of [] \<Rightarrow> [[c]] | w # ws \<Rightarrow> (c # w) # ws))"

fun Join :: "string list \<Rightarrow> string \<Rightarrow> string" where
  "Join [] sep = ''''"
| "Join [w] sep = w"
| "Join (w # w' # ws) sep = w @ sep @ Join (w' # ws) sep"

text \<open>\<open>strings.Replace(s, old, new, -1)\<close> for one-byte \<open>old\<close> and \<open>new\<close>\<close>

definition ReplaceAll :: "string \<Rightarrow> char \<Rightarrow> char \<Rightarrow> string" where
  "ReplaceAll s old new = map (\<lambda>c. if c = old then new else c) s"

text \<open>\<open>strings.LastIndex\<close> for a one-byte substring; \<open>None\<close> is -1.\<close>

fun LastIndex :: "string \<Rightarrow> char \<Rightarrow> nat option" where
  "LastIndex [] c = None"
| "LastIndex (x # xs) c =
     (case LastIndex xs c of
        Some i \<Rightarrow> Some (Suc i)
      | None \<Rightarrow> (if x = c then Some 0 else None))"

text \<open>
  \<open>strings.TrimSpace\<close> removes the runes of Unicode's \<open>White_Space\<close>, here by their UTF-8
  encodings, from both ends.
\<close>

definition spaceRunes :: "string list" where
  "spaceRunes =
     [[CHR 0x20], [CHR 0x09], [CHR 0x0A], [CHR 0x0B], [CHR 0x0C], [CHR 0x0D],
      [CHR 0xC2, CHR 0x85], [CHR 0xC2, CHR 0xA0], [CHR 0xE1, CHR 0x9A, CHR 0x80],
      [CHR 0xE2, CHR 0x80, CHR 0x80], [CHR 0xE2, CHR 0x80, CHR 0x81], [CHR 0xE2, CHR 0x80, CHR 0x82],
      [CHR 0xE2, CHR 0x80, CHR 0x83], [CHR 0xE2, CHR 0x80, CHR 0x84], [CHR 0xE2, CHR 0x80, CHR 0x85],
      [CHR 0xE2, CHR 0x80, CHR 0x86], [CHR 0xE2, CHR 0x80, CHR 0x87], [CHR 0xE2, CHR 0x80, CHR 0x88],
      [CHR 0xE2, CHR 0x80, CHR 0x89], [CHR 0xE2, CHR 0x80, CHR 0x8A], [CHR 0xE2, CHR 0x80, CHR 0xA8],
      [CHR 0xE2, CHR 0x80, CHR 0xA9], [CHR 0xE2, CHR 0x80, CHR 0xAF], [CHR 0xE2, CHR 0x81, CHR 0x9F],
      [CHR 0xE3, CHR 0x80, CHR 0x80]]"

function stripRunes :: "string list \<Rightarrow> string \<Rightarrow> string" where
  "stripRunes rs s =
     (case find (\<lambda>r. r \<noteq> [] \<and> prefix r s) rs of
        None \<Rightarrow> s
      | Some r \<Rightarrow> stripRunes rs (drop (length r) s))"
  by pat_completeness auto
termination
proof (relation "measure (\<lambda>(rs, s). length s)")
  fix rs :: "string list" and s r
  assume "find (\<lambda>r. r \<noteq> [] \<and> prefix r s) rs = Some r"
  then have "r \<noteq> []" and "prefix r s"
    by (auto simp: find_Some_iff)
  then show "((rs, drop (length r) s), rs, s) \<in> measure (\<lambda>(rs, s). length s)"
    by (auto simp: prefix_def)
qed simp

declare stripRunes.simps [simp del]

definition TrimSpace :: "string \<Rightarrow> string" where
  "TrimSpace s =
     rev (stripRunes (map rev spaceRunes) (rev (stripRunes spaceRunes s)))"

section \<open>Facts\<close>

lemma HasPrefix_Nil [simp]: "HasPrefix s []"
  by (simp add: HasPrefix_def)

lemma HasPrefix_append [simp]: "HasPrefix (p @ s) p"
  by (simp add: HasPrefix_def)

lemma Split_not_Nil [simp]: "Split s sep \<noteq> []"
  by (induction s) (auto split: list.splits)

lemma Split_no_sep: "sep \<notin> set s \<Longrightarrow> Split s sep = [s]"
  by (induction s) auto

lemma Split_pieces: "w \<in> set (Split s sep) \<Longrightarrow> sep \<notin> set w"
  by (induction s arbitrary: w) (auto split: list.splits if_splits)

lemma Split_append: "sep \<notin> set w \<Longrightarrow> Split (w @ sep # s) sep = w # Split s sep"
  by (induction w) auto

text \<open>Splitting undoes joining, for a nonempty list of pieces without the separator.\<close>

lemma Split_Join:
  "ws \<noteq> [] \<Longrightarrow> (\<And>w. w \<in> set ws \<Longrightarrow> sep \<notin> set w) \<Longrightarrow> Split (Join ws [sep]) sep = ws"
  by (induction ws "[sep]" rule: Join.induct) (auto simp: Split_no_sep Split_append)

lemma Join_Split: "Join (Split s sep) [sep] = s"
proof (induction s)
  case (Cons c cs)
  then show ?case by (cases "Split cs sep"; cases "tl (Split cs sep)") auto
qed simp

lemma LastIndex_None: "LastIndex s c = None \<longleftrightarrow> c \<notin> set s"
  by (induction s) (auto split: option.splits)

lemma LastIndex_append: "c \<notin> set t \<Longrightarrow> LastIndex (s @ c # t) c = Some (length s)"
proof (induction s)
  case Nil
  then show ?case by (auto simp: LastIndex_None [THEN iffD2])
qed auto

lemma LastIndex_Some:
  "LastIndex s c = Some i \<Longrightarrow> \<exists>t. s = take i s @ c # t \<and> c \<notin> set t \<and> i < length s"
proof (induction s arbitrary: i)
  case (Cons x xs)
  show ?case
  proof (cases "LastIndex xs c")
    case None
    then have "c \<notin> set xs" by (simp add: LastIndex_None)
    with None show ?thesis using Cons.prems by (auto split: if_splits)
  next
    case (Some j)
    with Cons.IH [OF Some] Cons.prems show ?thesis by auto
  qed
qed simp

lemma ReplaceAll_length [simp]: "length (ReplaceAll s a b) = length s"
  by (simp add: ReplaceAll_def)

lemma ReplaceAll_gone: "a \<noteq> b \<Longrightarrow> a \<notin> set (ReplaceAll s a b)"
  by (auto simp: ReplaceAll_def)

lemma ReplaceAll_id: "a \<notin> set s \<Longrightarrow> ReplaceAll s a b = s"
  by (induction s) (auto simp: ReplaceAll_def)

lemma ReplaceAll_Join:
  "(\<And>w. w \<in> set ws \<Longrightarrow> a \<notin> set w) \<Longrightarrow> ReplaceAll (Join ws [a]) a b = Join ws [b]"
proof (induction ws "[a]" rule: Join.induct)
  case 1
  show ?case by (simp add: ReplaceAll_def)
next
  case (2 w)
  then show ?case by (simp add: ReplaceAll_id)
next
  case (3 w w' ws)
  then show ?case using ReplaceAll_id [of a w b] by (auto simp: ReplaceAll_def)
qed

lemma stripRunes_suffix: "\<exists>p. s = p @ stripRunes rs s"
proof (induction rs s rule: stripRunes.induct)
  case (1 rs s)
  show ?case
  proof (cases "find (\<lambda>r. r \<noteq> [] \<and> prefix r s) rs")
    case (Some r)
    then have "prefix r s" by (auto simp: find_Some_iff)
    then have "s = r @ drop (length r) s" by (auto simp: prefix_def)
    moreover have "stripRunes rs s = stripRunes rs (drop (length r) s)"
      using Some by (simp add: stripRunes.simps [of rs s])
    ultimately show ?thesis using 1 [OF Some] by (metis append.assoc)
  qed (simp add: stripRunes.simps)
qed

lemma stripRunes_stops: "r \<in> set rs \<Longrightarrow> r \<noteq> [] \<Longrightarrow> \<not> prefix r (stripRunes rs s)"
proof (induction rs s rule: stripRunes.induct)
  case (1 rs s)
  then show ?case
    by (subst stripRunes.simps) (auto simp: find_None_iff split: option.splits)
qed

text \<open>\<open>TrimSpace\<close> cuts a prefix and a suffix; the rest starts and ends with no space.\<close>

lemma TrimSpace_infix: "\<exists>p q. s = p @ TrimSpace s @ q"
proof -
  obtain p where p: "s = p @ stripRunes spaceRunes s" using stripRunes_suffix by blast
  obtain q where "rev (stripRunes spaceRunes s) = q @ stripRunes (map rev spaceRunes) (rev (stripRunes spaceRunes s))"
    using stripRunes_suffix by blast
  then have "stripRunes spaceRunes s = TrimSpace s @ rev q"
    by (metis TrimSpace_def rev_append rev_rev_ident)
  with p show ?thesis by metis
qed

lemma TrimSpace_suffix: "r \<in> set spaceRunes \<Longrightarrow> \<not> suffix r (TrimSpace s)"
  using stripRunes_stops [of "rev r" "map rev spaceRunes" "rev (stripRunes spaceRunes s)"]
  by (auto simp: TrimSpace_def suffix_to_prefix spaceRunes_def)

end
