(* ===== verification/Utils.thy ===== *)
theory Utils
  imports Kube_Client Go_Strings
begin

text \<open>
  \<open>utils/utils.go\<close> and \<open>utils/imds.go\<close>: slices of strings, the retry loop, labels,
  annotations, finalizers and owner references of an object, the deployment name behind
  a pod name, HTTP reads and the VPC address ranges of the instance metadata service.
\<close>

section \<open>The host\<close>

text \<open>
  Beside the API server, a program of the repository reaches files, HTTP servers and the
  clock. They are parameters like the API server. An HTTP answer is a status code and
  the result of reading the body.
\<close>

record 'w host = "'w client" +
  os_ReadFile :: "string \<Rightarrow> 'w \<Rightarrow> (gerror + string) \<times> 'w"
  http_Get :: "string \<Rightarrow> 'w \<Rightarrow> (gerror + (nat \<times> (gerror + string))) \<times> 'w"
  time_Sleep :: "int \<Rightarrow> 'w \<Rightarrow> 'w"

definition host_readFile ::
  "('w, 'y) host_scheme \<Rightarrow> string \<Rightarrow> (('w, call, 'z) env_scheme, string) prog" where
  [prog_unfold]: "host_readFile x path = bindM (callM (os_ReadFile x path) (CReadFile path)) liftSum"

definition host_httpGet ::
  "('w, 'y) host_scheme \<Rightarrow> string \<Rightarrow> (('w, call, 'z) env_scheme, nat \<times> (gerror + string)) prog" where
  [prog_unfold]: "host_httpGet x url = bindM (callM (http_Get x url) (CHttpGet url)) liftSum"

definition host_sleep ::
  "('w, 'y) host_scheme \<Rightarrow> int \<Rightarrow> (('w, call, 'z) env_scheme, unit) prog" where
  [prog_unfold]: "host_sleep x d = callM (\<lambda>w. ((), time_Sleep x d w)) (\<lambda>_. CSleep d)"

section \<open>Slices of strings\<close>

fun Contains :: "string list \<Rightarrow> string \<Rightarrow> bool" where
  "Contains [] s = False"
| "Contains (item # rest) s = (if item = s then True else Contains rest s)"

fun Remove :: "string list \<Rightarrow> string \<Rightarrow> string list" where
  "Remove [] s = []"
| "Remove (item # rest) s = (if item = s then Remove rest s else item # Remove rest s)"

text \<open>The index loop fills a slice made with the source's length.\<close>

function mapItemsFrom ::
  "nat \<Rightarrow> string list \<Rightarrow> (string \<Rightarrow> string) \<Rightarrow> string list \<Rightarrow> string list" where
  "mapItemsFrom i source transform target =
     (if i < length source
      then mapItemsFrom (i + 1) source transform (target[i := transform (source ! i)])
      else target)"
  by pat_completeness auto
termination
  by (relation "measure (\<lambda>(i, source, _, _). length source - i)") auto

declare mapItemsFrom.simps [simp del]

definition MapItems :: "string list \<Rightarrow> (string \<Rightarrow> string) \<Rightarrow> string list" where
  "MapItems source transform =
     mapItemsFrom 0 source transform (replicate (length source) '''')"

lemma Contains_iff [simp]: "Contains xs s \<longleftrightarrow> s \<in> set xs"
  by (induction xs) auto

lemma Remove_filter: "Remove xs s = filter (\<lambda>y. y \<noteq> s) xs"
  by (induction xs) auto

lemma mapItemsFrom_eq:
  "length target = length source \<Longrightarrow>
   mapItemsFrom i source f target = take i target @ map f (drop i source)"
proof (induction i source f target rule: mapItemsFrom.induct)
  case (1 i source f target)
  show ?case
  proof (cases "i < length source")
    case True
    have "mapItemsFrom i source f target = mapItemsFrom (i + 1) source f (target[i := f (source ! i)])"
      using True by (simp add: mapItemsFrom.simps [of i])
    also have "\<dots> = take (Suc i) (target[i := f (source ! i)]) @ map f (drop (Suc i) source)"
      using 1 True by simp
    also have "\<dots> = take i target @ map f (drop i source)"
      using True 1 by (simp add: take_Suc_conv_app_nth Cons_nth_drop_Suc [symmetric])
    finally show ?thesis .
  qed (use 1 in \<open>simp add: mapItemsFrom.simps [of i]\<close>)
qed

lemma MapItems_map: "MapItems xs f = map f xs"
  by (simp add: MapItems_def mapItemsFrom_eq)

section \<open>Retry\<close>

function retryFrom ::
  "('w, 'y) host_scheme \<Rightarrow> int \<Rightarrow> int \<Rightarrow> int \<Rightarrow> (('w, call, 'z) env_scheme, unit) prog \<Rightarrow>
   gerror option \<Rightarrow> (('w, call, 'z) env_scheme, unit) prog" where
  "retryFrom x i attempts sleep f err =
     (if i < attempts
      then bindM (tryM f) (\<lambda>r.
             case r of
               Inr _ \<Rightarrow> ret ()
             | Inl e \<Rightarrow> thenM (host_sleep x sleep) (retryFrom x (i + 1) attempts sleep f (Some e)))
      else fail (case err of
                   None \<Rightarrow> ErrorNew ''Failed after retries. Last error: <nil>''
                 | Some e \<Rightarrow> Errorf ''Failed after retries. Last error'' e))"
  by pat_completeness auto
termination
  by (relation "measure (\<lambda>(x, i, attempts, _, _, _). nat (attempts - i))") auto

declare retryFrom.simps [simp del]

definition Retry ::
  "('w, 'y) host_scheme \<Rightarrow> int \<Rightarrow> int \<Rightarrow> (('w, call, 'z) env_scheme, unit) prog \<Rightarrow>
   (('w, call, 'z) env_scheme, unit) prog" where
  "Retry x attempts sleep f = retryFrom x 0 attempts sleep f None"

section \<open>Labels and annotations\<close>

definition setLabels :: "smap option \<Rightarrow> obj \<Rightarrow> obj" where
  "setLabels ls ob = ob\<lparr>meta := (meta ob)\<lparr>Labels := ls\<rparr>\<rparr>"

definition setAnnotations :: "smap option \<Rightarrow> obj \<Rightarrow> obj" where
  "setAnnotations an ob = ob\<lparr>meta := (meta ob)\<lparr>Annotations := an\<rparr>\<rparr>"

definition setFinalizers :: "string list \<Rightarrow> obj \<Rightarrow> obj" where
  "setFinalizers fs ob = ob\<lparr>meta := (meta ob)\<lparr>Finalizers := fs\<rparr>\<rparr>"

text \<open>
  A nil map is replaced by a fresh one before the write, so the write cannot panic; the
  object shares the map, so the write is seen through it.
\<close>

definition AddLabel :: "obj \<Rightarrow> string \<Rightarrow> string \<Rightarrow> obj" where
  "AddLabel ob key v =
     (let labels = (case Labels (meta ob) of None \<Rightarrow> fmempty | Some m \<Rightarrow> m)
      in setLabels (Some (fmupd key v labels)) ob)"

definition AddAnnotation :: "obj \<Rightarrow> string \<Rightarrow> string \<Rightarrow> obj" where
  "AddAnnotation ob key v =
     (let annotations = (case Annotations (meta ob) of None \<Rightarrow> fmempty | Some m \<Rightarrow> m)
      in setAnnotations (Some (fmupd key v annotations)) ob)"

section \<open>Finalizers\<close>

definition AddFinalizer :: "obj \<Rightarrow> string \<Rightarrow> bool \<times> obj" where
  "AddFinalizer ob finalizer =
     (if \<not> Contains (Finalizers (meta ob)) finalizer
      then (True, setFinalizers (Finalizers (meta ob) @ [finalizer]) ob)
      else (False, ob))"

definition RemoveFinalizer :: "obj \<Rightarrow> string \<Rightarrow> bool \<times> obj" where
  "RemoveFinalizer ob finalizer =
     (if Contains (Finalizers (meta ob)) finalizer
      then (True, setFinalizers (Remove (Finalizers (meta ob)) finalizer) ob)
      else (False, ob))"

section \<open>Owner references\<close>

definition newOwnerRef :: "gvk \<Rightarrow> obj \<Rightarrow> bool \<Rightarrow> OwnerReference" where
  "newOwnerRef g owner isController = (case g of (grp, ver, knd) \<Rightarrow>
     \<lparr>or_APIVersion = GroupVersion_String grp ver, or_Kind = knd,
      or_Name = Name (meta owner), or_UID = UID (meta owner),
      or_Controller = Some isController, or_BlockOwnerDeletion = None\<rparr>)"

definition sameOwner :: "OwnerReference \<Rightarrow> OwnerReference \<Rightarrow> bool" where
  "sameOwner ref r \<longleftrightarrow>
     or_APIVersion ref = or_APIVersion r \<and> or_Kind ref = or_Kind r \<and>
     or_Name ref = or_Name r \<and> or_UID ref = or_UID r"

text \<open>The first entry of the same owner is overwritten, otherwise the entry is appended.\<close>

fun putOwner :: "OwnerReference \<Rightarrow> OwnerReference list \<Rightarrow> OwnerReference list" where
  "putOwner ref [] = [ref]"
| "putOwner ref (r # rs) = (if sameOwner ref r then ref # rs else r # putOwner ref rs)"

definition AddOwnerReference :: "scheme \<Rightarrow> obj \<Rightarrow> obj \<Rightarrow> bool \<Rightarrow> gerror + obj" where
  "AddOwnerReference sch owner res isController =
     (case GVKForObject sch (kind_of owner) of
        Inl err \<Rightarrow> Inl err
      | Inr g \<Rightarrow>
          Inr (setOwners (putOwner (newOwnerRef g owner isController) (OwnerReferences (meta res))) res))"

section \<open>Pod names, HTTP, the metadata service\<close>

text \<open>\<open>CHR 0x2D\<close> is the hyphen, \<open>CHR 0x0A\<close> the newline, \<open>CHR 0x3B\<close> the semicolon.\<close>

definition DeploymentNameFromPodName :: "string \<Rightarrow> gerror + string" where
  "DeploymentNameFromPodName podName =
     (case LastIndex podName (CHR 0x2D) of
        None \<Rightarrow> Inl (ErrorNew ''invalid pod name'')
      | Some i \<Rightarrow>
          (case LastIndex (take i podName) (CHR 0x2D) of
             None \<Rightarrow> Inl (ErrorNew ''invalid pod name'')
           | Some j \<Rightarrow> Inr (take j podName)))"

definition HTTPGetAndParseBody ::
  "('w, 'y) host_scheme \<Rightarrow> string \<Rightarrow> (('w, call, 'z) env_scheme, string) prog" where
  [prog_unfold]: "HTTPGetAndParseBody x endpoint =
     bindM (wrapErr (''Failed to get '' @ endpoint) (host_httpGet x endpoint)) (\<lambda>resp.
       wrapErr ''Failed to read response body'' (liftSum (snd resp)))"

definition IMDSv1Server :: string where
  [const_defs]: "IMDSv1Server = ''http://169.254.169.254''"

definition IMDSConfigMapName :: string where
  [const_defs]: "IMDSConfigMapName = ''aws-data''"

definition CIDRKey :: string where
  [const_defs]: "CIDRKey = ''vpc-cidr''"

definition IMDSFetchIPv4CIDR ::
  "('w, 'y) host_scheme \<Rightarrow> string \<Rightarrow> (('w, call, 'z) env_scheme, string) prog" where
  [prog_unfold]: "IMDSFetchIPv4CIDR x imdsServerAddr =
     bindM (wrapErr ''failed to determine mac address of instance''
              (HTTPGetAndParseBody x (imdsServerAddr @ ''/latest/meta-data/mac''))) (\<lambda>mac.
     bindM (wrapErr ''Could not get VPC CIDR using mac address''
              (HTTPGetAndParseBody x
                 (imdsServerAddr @ ''/latest/meta-data/network/interfaces/macs/'' @ mac @
                  ''/vpc-ipv4-cidr-blocks''))) (\<lambda>cidrs.
     ret (ReplaceAll cidrs (CHR 0x0A) (CHR 0x3B))))"

section \<open>Labels and annotations: one contract\<close>

text \<open>
  Both are maps in the metadata. \<open>add\<close> stores one entry, keeps the others and the rest of
  the object, and never leaves the map nil.
\<close>

locale meta_map =
  fixes get :: "obj \<Rightarrow> smap option"
    and add :: "obj \<Rightarrow> string \<Rightarrow> string \<Rightarrow> obj"
  assumes get_add: "goMapGet (get (add ob k v)) k' = (if k' = k then Some v else goMapGet (get ob) k')"
    and add_body: "body (add ob k v) = body ob"
    and add_key: "ObjectKeyFromObject (add ob k v) = ObjectKeyFromObject ob"
    and add_owners: "OwnerReferences (meta (add ob k v)) = OwnerReferences (meta ob)"
    and add_finalizers: "Finalizers (meta (add ob k v)) = Finalizers (meta ob)"
    and add_settled: "goMapGet (get ob) k = Some v \<Longrightarrow> add ob k v = ob"
    and get_stamp: "get (stamp u w ob) = get ob"
begin

lemma add_kind: "kind_of (add ob k v) = kind_of ob"
  by (simp add: kind_of_def add_body)

lemma add_twice: "add (add ob k v) k v = add ob k v"
  by (rule add_settled) (simp add: get_add)

lemma add_twice_stamped: "add (stamp u w (add ob k v)) k v = stamp u w (add ob k v)"
  by (rule add_settled) (simp add: get_stamp get_add)

lemma content: "content_setter knd (\<lambda>ob. Ok (add ob k v))"
  by unfold_locales (auto simp: add_kind add_key add_owners add_twice_stamped)

end

lemma fmupd_present: "fmlookup m k = Some v \<Longrightarrow> fmupd k v m = m"
  by (rule fmap_ext) auto

interpretation labels: meta_map "\<lambda>ob. Labels (meta ob)" AddLabel
  by unfold_locales
    (auto simp: AddLabel_def setLabels_def goMapGet_def ObjectKeyFromObject_def fmupd_present stamp_def
          split: option.splits)

interpretation annotations: meta_map "\<lambda>ob. Annotations (meta ob)" AddAnnotation
  by unfold_locales
    (auto simp: AddAnnotation_def setAnnotations_def goMapGet_def ObjectKeyFromObject_def fmupd_present stamp_def
          split: option.splits)

lemma AddLabel_frame [simp]:
  "body (AddLabel ob k v) = body ob" "kind_of (AddLabel ob k v) = kind_of ob"
  "ObjectKeyFromObject (AddLabel ob k v) = ObjectKeyFromObject ob"
  "OwnerReferences (meta (AddLabel ob k v)) = OwnerReferences (meta ob)"
  by (simp_all add: labels.add_body labels.add_kind labels.add_key labels.add_owners)

lemma AddAnnotation_frame [simp]:
  "body (AddAnnotation ob k v) = body ob" "kind_of (AddAnnotation ob k v) = kind_of ob"
  "ObjectKeyFromObject (AddAnnotation ob k v) = ObjectKeyFromObject ob"
  "OwnerReferences (meta (AddAnnotation ob k v)) = OwnerReferences (meta ob)"
  by (simp_all add: annotations.add_body annotations.add_kind annotations.add_key annotations.add_owners)

section \<open>Owner references: the setter's contract\<close>

lemma sameOwner_refl [simp]: "sameOwner r r"
  by (simp add: sameOwner_def)

lemma putOwner_idem: "putOwner ref (putOwner ref rs) = putOwner ref rs"
  by (induction rs) auto

lemma putOwner_mem: "ref \<in> set (putOwner ref rs)"
  by (induction rs) auto

lemma putOwner_other: "\<not> sameOwner ref r \<Longrightarrow> r \<in> set (putOwner ref rs) \<longleftrightarrow> r \<in> set rs"
  by (induction rs) (auto simp: sameOwner_def)

lemma AddOwnerReference_Inr:
  "AddOwnerReference sch owner res c = Inr res' \<longleftrightarrow>
     (\<exists>g. sch (kind_of owner) = Some g \<and>
          res' = setOwners (putOwner (newOwnerRef g owner c) (OwnerReferences (meta res))) res)"
  by (auto simp: AddOwnerReference_def GVKForObject_def split: option.splits)

interpretation add_owner: owner_setter "\<lambda>res. AddOwnerReference sch owner res c" for sch owner c
  by unfold_locales (auto simp: AddOwnerReference_Inr putOwner_idem intro!: setOwners_same [symmetric])

section \<open>Finalizers\<close>

lemma AddFinalizer_present: "snd (AddFinalizer ob f) = ob' \<Longrightarrow> f \<in> set (Finalizers (meta ob'))"
  by (auto simp: AddFinalizer_def setFinalizers_def)

lemma setFinalizers_frame [simp]:
  "body (setFinalizers fs ob) = body ob" "kind_of (setFinalizers fs ob) = kind_of ob"
  "ObjectKeyFromObject (setFinalizers fs ob) = ObjectKeyFromObject ob"
  "DeletionTimestamp (meta (setFinalizers fs ob)) = DeletionTimestamp (meta ob)"
  "Finalizers (meta (setFinalizers fs ob)) = fs" "UID (meta (setFinalizers fs ob)) = UID (meta ob)"
  by (simp_all add: setFinalizers_def kind_of_def ObjectKeyFromObject_def)

lemma setFinalizers_twice [simp]:
  "setFinalizers a (setFinalizers b ob) = setFinalizers a ob"
  "setFinalizers (Finalizers (meta ob)) ob = ob"
  by (simp_all add: setFinalizers_def)

lemma RemoveFinalizer_frame [simp]:
  "kind_of (snd (RemoveFinalizer ob f)) = kind_of ob"
  "ObjectKeyFromObject (snd (RemoveFinalizer ob f)) = ObjectKeyFromObject ob"
  by (simp_all add: RemoveFinalizer_def)

lemma AddFinalizer_frame [simp]:
  "kind_of (snd (AddFinalizer ob f)) = kind_of ob"
  "ObjectKeyFromObject (snd (AddFinalizer ob f)) = ObjectKeyFromObject ob"
  by (simp_all add: AddFinalizer_def)

section \<open>Calls of the host operations\<close>

lemma emits_host_readFile:
  assumes "env_stable I" and "\<And>r. A (CReadFile path r)"
  shows "emits I A (host_readFile x path)"
  unfolding host_readFile_def by (intro emits_rules emits_callM assms)

lemma emits_host_httpGet:
  assumes "env_stable I" and "\<And>r. A (CHttpGet url r)"
  shows "emits I A (host_httpGet x url)"
  unfolding host_httpGet_def by (intro emits_rules emits_callM assms)

lemma emits_IMDSFetchIPv4CIDR:
  assumes "env_stable I" and "\<And>url r. A (CHttpGet url r)"
  shows "emits I A (IMDSFetchIPv4CIDR x addr)"
  unfolding IMDSFetchIPv4CIDR_def HTTPGetAndParseBody_def
  by (intro emits_rules emits_host_httpGet assms)

end
