(* ===== verification/Scheme.thy ===== *)
theory Scheme
  imports Kube_Client
begin

text \<open>
  The scheme of the process: \<open>addAllSchemes\<close> and \<open>pluginAddToScheme\<close> of \<open>main.go\<close>,
  \<open>DFAddToScheme\<close> and \<open>DFCAddToScheme\<close> of the controllers, and the group and version of
  \<open>api/v1alpha1\<close>. Each \<open>AddToScheme\<close> registers the types of one API package; only the
  types that occur in the model are listed.
\<close>

definition GroupVersion :: "string \<times> string" where
  "GroupVersion = (''misf.ibm.com'', ''v1alpha1'')"

definition register :: "string \<Rightarrow> string \<Rightarrow> (kind \<times> string) list \<Rightarrow> scheme \<Rightarrow> scheme" where
  "register grp ver ks sch =
     sch ++ map_of (map (\<lambda>(k, knd). (k, (grp, ver, knd))) ks)"

definition corev1_AddToScheme :: "scheme \<Rightarrow> scheme" where
  "corev1_AddToScheme = register '''' ''v1''
     [(KSecret, ''Secret''), (KConfigMap, ''ConfigMap''), (KService, ''Service''),
      (KNamespace, ''Namespace'')]"

definition appsv1_AddToScheme :: "scheme \<Rightarrow> scheme" where
  "appsv1_AddToScheme = register ''apps'' ''v1'' [(KDeployment, ''Deployment'')]"

definition clientgoscheme_AddToScheme :: "scheme \<Rightarrow> scheme" where
  "clientgoscheme_AddToScheme =
     register ''networking.k8s.io'' ''v1'' [(KNetworkPolicy, ''NetworkPolicy'')] \<circ>
     appsv1_AddToScheme \<circ> corev1_AddToScheme"

definition promv1_AddToScheme :: "scheme \<Rightarrow> scheme" where
  "promv1_AddToScheme = register ''monitoring.coreos.com'' ''v1''
     [(KPrometheus, ''Prometheus''), (KAlertmanager, ''Alertmanager''),
      (KServiceMonitor, ''ServiceMonitor''), (KPodMonitor, ''PodMonitor''),
      (KPrometheusRule, ''PrometheusRule'')]"

definition promv1a1_AddToScheme :: "scheme \<Rightarrow> scheme" where
  "promv1a1_AddToScheme = register ''monitoring.coreos.com'' ''v1alpha1''
     [(KAlertmanagerConfig, ''AlertmanagerConfig'')]"

definition operators_AddToScheme :: "scheme \<Rightarrow> scheme" where
  "operators_AddToScheme = register ''operators.coreos.com'' ''v1alpha1''
     [(KClusterServiceVersion, ''ClusterServiceVersion''), (KCatalogSource, ''CatalogSource''),
      (KSubscription, ''Subscription'')]"

definition openshiftv1_AddToScheme :: "scheme \<Rightarrow> scheme" where
  "openshiftv1_AddToScheme = register ''network.openshift.io'' ''v1''
     [(KEgressNetworkPolicy, ''EgressNetworkPolicy'')]"

definition configv1_AddToScheme :: "scheme \<Rightarrow> scheme" where
  "configv1_AddToScheme = register ''config.openshift.io'' ''v1''
     [(KClusterVersion, ''ClusterVersion'')]"

definition misfv1a1_AddToScheme :: "scheme \<Rightarrow> scheme" where
  "misfv1a1_AddToScheme = register (fst GroupVersion) (snd GroupVersion)
     [(KManagedFusionOffering, ''ManagedFusionOffering'')]"

definition opv1_AddToScheme :: "scheme \<Rightarrow> scheme" where
  "opv1_AddToScheme = register ''operators.coreos.com'' ''v1''
     [(KOperatorGroup, ''OperatorGroup'')]"

definition ovnv1_AddToScheme :: "scheme \<Rightarrow> scheme" where
  "ovnv1_AddToScheme = register ''k8s.ovn.org'' ''v1'' [(KEgressFirewall, ''EgressFirewall'')]"

definition apiextensionsv1_AddToScheme :: "scheme \<Rightarrow> scheme" where
  "apiextensionsv1_AddToScheme = register ''apiextensions.k8s.io'' ''v1''
     [(KCustomResourceDefinition, ''CustomResourceDefinition'')]"

definition DFAddToScheme :: "scheme \<Rightarrow> scheme" where
  "DFAddToScheme =
     register ''ocs.openshift.io'' ''v1alpha1'' [(KStorageConsumer, ''StorageConsumer'')] \<circ>
     register ''ocs.openshift.io'' ''v1''
       [(KStorageCluster, ''StorageCluster''), (KOCSInitialization, ''OCSInitialization'')]"

definition DFCAddToScheme :: "scheme \<Rightarrow> scheme" where
  "DFCAddToScheme = register ''ocs.openshift.io'' ''v1alpha1''
     [(KStorageClient, ''StorageClient''), (KStorageClassClaim, ''StorageClassClaim'')]"

definition pluginAddToScheme :: "scheme \<Rightarrow> scheme" where
  "pluginAddToScheme = DFCAddToScheme \<circ> DFAddToScheme"

definition addAllSchemes :: "scheme \<Rightarrow> scheme" where
  "addAllSchemes =
     pluginAddToScheme \<circ> apiextensionsv1_AddToScheme \<circ> ovnv1_AddToScheme \<circ> opv1_AddToScheme \<circ>
     misfv1a1_AddToScheme \<circ> configv1_AddToScheme \<circ> openshiftv1_AddToScheme \<circ>
     operators_AddToScheme \<circ> corev1_AddToScheme \<circ> appsv1_AddToScheme \<circ> promv1a1_AddToScheme \<circ>
     promv1_AddToScheme \<circ> clientgoscheme_AddToScheme"

text \<open>\<open>runtime.NewScheme()\<close> is empty; \<open>mgr.GetScheme()\<close> is the scheme \<open>init\<close> filled.\<close>

definition agentScheme :: scheme where
  "agentScheme = addAllSchemes (\<lambda>_. None)"

lemmas scheme_defs =
  agentScheme_def addAllSchemes_def pluginAddToScheme_def DFAddToScheme_def DFCAddToScheme_def
  corev1_AddToScheme_def appsv1_AddToScheme_def clientgoscheme_AddToScheme_def
  promv1_AddToScheme_def promv1a1_AddToScheme_def operators_AddToScheme_def
  openshiftv1_AddToScheme_def configv1_AddToScheme_def misfv1a1_AddToScheme_def
  opv1_AddToScheme_def ovnv1_AddToScheme_def apiextensionsv1_AddToScheme_def
  register_def GroupVersion_def

lemma agentScheme_owners [simp]:
  "agentScheme KSecret = Some ('''', ''v1'', ''Secret'')"
  "agentScheme KManagedFusionOffering = Some (''misf.ibm.com'', ''v1alpha1'', ''ManagedFusionOffering'')"
  by (simp_all add: scheme_defs map_add_def)

lemma agentScheme_parses:
  "\<forall>k. case agentScheme k of
     None \<Rightarrow> False | Some (grp, ver, knd) \<Rightarrow> ParseGroupVersion (GroupVersion_String grp ver) = Some (grp, ver)"
  by code_simp

lemma agentScheme_total: "\<exists>g. agentScheme k = Some g \<and> gvk_ok g"
  using agentScheme_parses [rule_format, of k] by (auto simp: gvk_ok_def split: option.splits)

lemma agentScheme_inj: "inj agentScheme"
proof -
  have "distinct (map agentScheme Enum.enum)" by code_simp
  then show ?thesis by (simp add: distinct_map enum_UNIV)
qed

lemma agentScheme_ok: "scheme_ok agentScheme"
  using agentScheme_total by (metis option.inject scheme_ok_def)

text \<open>Owning through \<open>SetControllerReference\<close> satisfies the owner-setter contract.\<close>

interpretation controller_owner: owner_setter "SetControllerReference agentScheme owner" for owner
  by unfold_locales
    (auto dest: SetControllerReference_shape intro: SetControllerReference_settled [OF agentScheme_ok])

end
