(* ===== verification/Call_Order.thy ===== *)
theory Call_Order
  imports Prelude
begin

text \<open>
  Order in the log of a run: \<open>guarded B G m\<close> says that \<open>m\<close> issues a call satisfying \<open>B\<close> only
  after a call that satisfies \<open>G\<close>. The rules follow the structure of the programs.
\<close>

section \<open>Logs\<close>

fun guardedLog :: "('c \<Rightarrow> bool) \<Rightarrow> ('c \<Rightarrow> bool) \<Rightarrow> bool \<Rightarrow> 'c list \<Rightarrow> bool" where
  "guardedLog B G seen [] = True"
| "guardedLog B G seen (c # cs) = ((B c \<longrightarrow> seen) \<and> guardedLog B G (seen \<or> G c) cs)"

lemma guardedLog_True [simp]: "guardedLog B G True cs"
  by (induction cs) auto

lemma guardedLog_append:
  "guardedLog B G seen (xs @ ys) \<longleftrightarrow>
     guardedLog B G seen xs \<and> guardedLog B G (seen \<or> list_ex G xs) ys"
  by (induction xs arbitrary: seen) (auto simp: disj_assoc)

lemma guardedLog_mono: "guardedLog B G False cs \<Longrightarrow> guardedLog B G seen cs"
  by (cases seen) simp_all

lemma guardedLog_none: "list_all (\<lambda>c. \<not> B c) cs \<Longrightarrow> guardedLog B G seen cs"
  by (induction cs arbitrary: seen) auto

lemma guardedLogD:
  assumes "guardedLog B G False log" and "c \<in> set log" and "B c"
  obtains pre post g where "log = pre @ c # post" and "g \<in> set pre" and "G g"
proof -
  obtain pre post where log: "log = pre @ c # post" using assms(2) by (auto dest: split_list)
  with assms(1,3) have "list_ex G pre" by (auto simp: guardedLog_append)
  then obtain g where "g \<in> set pre" "G g" by (auto simp: list_ex_iff)
  with log show thesis by (rule that)
qed

section \<open>Programs\<close>

definition guarded ::
  "('c \<Rightarrow> bool) \<Rightarrow> ('c \<Rightarrow> bool) \<Rightarrow> (('w, 'c, 'z) env_scheme, 'a) prog \<Rightarrow> bool" where
  "guarded B G m \<longleftrightarrow> (\<forall>s. guardedLog B G False (issued m s))"

lemma guarded_never:
  assumes "emits (\<lambda>_. True) (\<lambda>c. \<not> B c) m"
  shows "guarded B G m"
  unfolding guarded_def
  using emits_issued [OF assms] by (intro allI guardedLog_none) (simp add: list_all_iff)

lemma guarded_simple [simp]:
  "guarded B G (ret a)" "guarded B G (fail e)" "guarded B G (crash msg)" "guarded B G (gets f)"
  "guarded B G (liftSum r)" "guarded B G (liftOutcome q)"
  by (simp_all add: guarded_def)

lemma guarded_wrapErr: "guarded B G m \<Longrightarrow> guarded B G (wrapErr msg m)"
  by (simp add: guarded_def)

lemma guarded_tryM: "guarded B G m \<Longrightarrow> guarded B G (tryM m)"
  by (simp add: guarded_def)

text \<open>The continuation is guarded, or the first program has already met the guard.\<close>

lemma guarded_bindM_log:
  assumes m: "guarded B G m" "extends m" and k: "\<And>a. extends (k a)"
    and step: "\<And>s a. fst (m s) = Ok a \<Longrightarrow> list_ex G (issued m s) \<or> guarded B G (k a)"
  shows "guarded B G (bindM m k)"
  unfolding guarded_def
proof
  fix s
  have log: "issued (bindM m k) s =
      issued m s @ (case fst (m s) of Ok a \<Rightarrow> issued (k a) (snd (m s)) | _ \<Rightarrow> [])"
    by (rule issued_bindM [OF m(2) k])
  show "guardedLog B G False (issued (bindM m k) s)"
  proof (cases "fst (m s)")
    case (Ok a)
    have "guardedLog B G (list_ex G (issued m s)) (issued (k a) (snd (m s)))"
      using step [OF Ok] by (auto simp: guarded_def intro: guardedLog_mono)
    with Ok m(1) show ?thesis by (simp add: log guardedLog_append guarded_def)
  qed (use m(1) in \<open>simp_all add: log guarded_def\<close>)
qed

lemma guarded_bindM:
  "guarded B G m \<Longrightarrow> (\<And>a. guarded B G (k a)) \<Longrightarrow> extends m \<Longrightarrow> (\<And>a. extends (k a)) \<Longrightarrow>
   guarded B G (bindM m k)"
  by (rule guarded_bindM_log) auto

lemma guarded_thenM:
  "guarded B G m \<Longrightarrow> guarded B G k \<Longrightarrow> extends m \<Longrightarrow> extends k \<Longrightarrow> guarded B G (thenM m k)"
  unfolding thenM_def by (rule guarded_bindM)

lemma guarded_modify: "(\<And>s. calls (f s) = calls s) \<Longrightarrow> guarded B G (modify f)"
  by (intro guarded_never emits_modify) auto

lemma guarded_if: "(b \<Longrightarrow> guarded B G m) \<Longrightarrow> (\<not> b \<Longrightarrow> guarded B G k) \<Longrightarrow> guarded B G (if b then m else k)"
  by simp

lemma guarded_case_sum:
  "(\<And>e. r = Inl e \<Longrightarrow> guarded B G (f e)) \<Longrightarrow> (\<And>a. r = Inr a \<Longrightarrow> guarded B G (g a)) \<Longrightarrow>
   guarded B G (case r of Inl e \<Rightarrow> f e | Inr a \<Rightarrow> g a)"
  by (simp split: sum.split)

lemma guardedD:
  assumes "guarded B G m" and "c \<in> set (issued m s)" and "B c"
  obtains pre post g where "issued m s = pre @ c # post" and "g \<in> set pre" and "G g"
proof -
  have "guardedLog B G False (issued m s)" using assms(1) by (simp add: guarded_def)
  from guardedLogD [OF this assms(2,3)] that show thesis by blast
qed

section \<open>Programs on a state around another\<close>

text \<open>A program on a state made around another: a plugin runs on one around the reconciler's.\<close>

definition embedded :: "('s \<Rightarrow> 't) \<Rightarrow> ('t \<Rightarrow> 's) \<Rightarrow> ('t, 'a) prog \<Rightarrow> ('s, 'a) prog" where
  [prog_unfold]: "embedded enter leave m = (\<lambda>s. case m (enter s) of (r, t) \<Rightarrow> (r, leave t))"

lemma issued_embedded:
  assumes "\<And>s. calls (enter s) = calls s" and "\<And>t. calls (leave t) = calls t"
  shows "issued (embedded enter leave m) s = issued m (enter s)"
  using assms by (simp add: issued_def embedded_def split: prod.splits)

lemma emits_embedded:
  assumes m: "emits J A m" and "\<And>s. calls (enter s) = calls s" and "\<And>t. calls (leave t) = calls t"
    and "\<And>s. I s \<Longrightarrow> J (enter s)" and "\<And>t. J t \<Longrightarrow> I (leave t)"
  shows "emits I A (embedded enter leave m)"
proof (rule emitsI)
  fix s assume s: "I s"
  show "I (snd (embedded enter leave m s))"
    using assms(5) [OF emits_inv [OF m assms(4) [OF s]]] by (simp add: embedded_def split_beta)
  obtain es where "calls (snd (m (enter s))) = calls (enter s) @ es" "list_all A es"
    by (rule emits_log [OF m assms(4) [OF s]])
  then show "\<exists>es. calls (snd (embedded enter leave m s)) = calls s @ es \<and> list_all A es"
    using assms(2,3) by (auto simp: embedded_def split_beta)
qed

lemma guarded_before:
  assumes "guarded B G m" and "issued m s = pre @ c # post" and "B c"
  shows "\<exists>g\<in>set pre. G g"
proof -
  have "guardedLog B G False (pre @ c # post)" using assms(1,2) by (metis guarded_def)
  with assms(3) show ?thesis by (simp add: guardedLog_append list_ex_iff)
qed

end
