(* ===== verification/Controllers.thy ===== *)
theory Controllers
  imports Utils Scheme Call_Order
begin

text \<open>
  What the two controllers of \<open>controllers/*.go\<close> share: the package's constants, the result
  of a reconcile run, the accessors of typed objects, deletion that tolerates a missing
  object, and the search for a cluster service version by the prefix of its name.
\<close>

section \<open>Constants\<close>

definition managedFusionFinalizer :: string where
  [const_defs]: "managedFusionFinalizer = ''misf.ibm.com/finalizer''"

definition monLabelKey :: string where
  [const_defs]: "monLabelKey = ''app''"

definition monLabelValue :: string where
  [const_defs]: "monLabelValue = ''managed-fusion-agent''"

section \<open>The result of a run\<close>

text \<open>\<open>ctrl.Result\<close>; \<open>RequeueAfter\<close> is a \<open>time.Duration\<close>, in nanoseconds.\<close>

record ctrl_Result =
  Requeue :: bool
  RequeueAfter :: int

definition noRequeue :: ctrl_Result where
  "noRequeue = \<lparr>Requeue = False, RequeueAfter = 0\<rparr>"

text \<open>\<open>time.Second\<close>\<close>

definition Second :: int where
  [const_defs]: "Second = 1000000000"

section \<open>Fields of typed objects\<close>

fun secretData :: "obj \<Rightarrow> smap option" where
  "secretData ob = (case body ob of Secret d \<Rightarrow> d | _ \<Rightarrow> None)"

fun configMapData :: "obj \<Rightarrow> smap option" where
  "configMapData ob = (case body ob of ConfigMap d \<Rightarrow> d | _ \<Rightarrow> None)"

fun clusterID :: "obj \<Rightarrow> string" where
  "clusterID ob = (case body ob of ClusterVersion i \<Rightarrow> i | _ \<Rightarrow> '''')"

fun csvDeployments :: "obj \<Rightarrow> StrategyDeploymentSpec list" where
  "csvDeployments ob = (case body ob of ClusterServiceVersion ds \<Rightarrow> ds | _ \<Rightarrow> [])"

definition setBody :: "obody \<Rightarrow> obj \<Rightarrow> obj" where
  "setBody b ob = ob\<lparr>body := b\<rparr>"

lemma setBody_frame [simp]:
  "meta (setBody b ob) = meta ob" "body (setBody b ob) = b"
  "kind_of (setBody b ob) = kind_of_body b"
  "ObjectKeyFromObject (setBody b ob) = ObjectKeyFromObject ob"
  "setBody b (setBody b' ob) = setBody b ob"
  by (simp_all add: setBody_def kind_of_def ObjectKeyFromObject_def)

lemma setBody_stamp [simp]: "setBody b (stamp u v ob) = stamp u v (setBody b ob)"
  by (simp add: setBody_def stamp_def)

lemma setBody_same: "body ob = b \<Longrightarrow> setBody b ob = ob"
  by (auto simp: setBody_def)

section \<open>Operations both reconcilers have\<close>

text \<open>\<open>delete\<close>: a missing object is not an error.\<close>

definition deleteObj ::
  "('w, 'y) client_scheme \<Rightarrow> kind \<Rightarrow> nname \<Rightarrow> (('w, call, 'z) env_scheme, unit) prog" where
  [prog_unfold]: "deleteObj x k key =
     bindM (tryM (client_delete x k key)) (\<lambda>res.
       case res of
         Inl err \<Rightarrow> if \<not> IsNotFound err then fail err else ret ()
       | Inr _ \<Rightarrow> ret ())"

text \<open>The first candidate whose name has the prefix.\<close>

fun csvWithPrefix :: "string \<Rightarrow> obj list \<Rightarrow> obj option" where
  "csvWithPrefix name [] = None"
| "csvWithPrefix name (candidate # rest) =
     (if HasPrefix (Name (meta candidate)) name then Some candidate else csvWithPrefix name rest)"

definition csvInNamespace ::
  "('w, 'y) client_scheme \<Rightarrow> string \<Rightarrow> string \<Rightarrow> (('w, call, 'z) env_scheme, obj) prog" where
  [prog_unfold]: "csvInNamespace x ns name =
     bindM (wrapErr ''unable to list csv resources''
              (client_list x KClusterServiceVersion (Some ns) None)) (\<lambda>items.
       case csvWithPrefix name items of
         Some candidate \<Rightarrow> ret candidate
       | None \<Rightarrow> fail (StatusError ReasonNotFound ''unable to find a csv with the prefix''))"

definition crdAvailable :: "(string, bool) fmap \<Rightarrow> string \<Rightarrow> bool" where
  "crdAvailable crds name = (fmlookup crds name = Some True)"

section \<open>Creating and updating a field of a reconciler\<close>

text \<open>
  \<open>ctrl.CreateOrUpdate(r.ctx, r.Client, r.field, f)\<close>: \<open>f\<close> may read the reconciler, and on
  success the field holds the object the server answered with.
\<close>

definition createOrUpdate ::
  "('w, 'y) client_scheme \<Rightarrow> (('w, call, 'z) env_scheme \<Rightarrow> obj) \<Rightarrow>
   ((obj \<Rightarrow> obj) \<Rightarrow> ('w, call, 'z) env_scheme \<Rightarrow> ('w, call, 'z) env_scheme) \<Rightarrow>
   (('w, call, 'z) env_scheme \<Rightarrow> obj \<Rightarrow> (('w, call, 'z) env_scheme, obj) prog) \<Rightarrow>
   (('w, call, 'z) env_scheme, unit) prog" where
  [prog_unfold]: "createOrUpdate x field field_update f =
     bindM (gets (\<lambda>r. r)) (\<lambda>r.
     bindM (CreateOrUpdate x (field r) (f r)) (\<lambda>(_, ob).
     modify (field_update (\<lambda>_. ob))))"

lemma deleteObj_no_crash: "fst (deleteObj x k key s) \<noteq> Crash msg"
  by (auto simp: prog_unfold split: prod.splits sum.splits)

lemma emits_deleteObj:
  assumes "env_stable I" and "\<And>r. A (CDelete k key r)"
  shows "emits I A (deleteObj x k key)"
  unfolding deleteObj_def by (intro emits_rules emits_client_delete assms)

lemma emits_csvInNamespace:
  assumes "env_stable I" and "\<And>r. A (CList KClusterServiceVersion (Some ns) None r)"
  shows "emits I A (csvInNamespace x ns name)"
  unfolding csvInNamespace_def by (intro emits_rules emits_client_list assms)

lemma csvWithPrefix_Some:
  "csvWithPrefix name items = Some c \<Longrightarrow> c \<in> set items \<and> HasPrefix (Name (meta c)) name"
  by (induction items) (auto split: if_splits)

section \<open>Setters of owned objects\<close>

text \<open>
  Most objects are filled by a function that overwrites the body with one that depends
  only on the reconciler, and sets labels and annotations.
\<close>

definition fillBody :: "obody \<Rightarrow> obj \<Rightarrow> obj outcome" where
  [prog_unfold]: "fillBody b ob = Ok (setBody b ob)"

definition fillLabelled :: "obody \<Rightarrow> obj \<Rightarrow> obj outcome" where
  [prog_unfold]: "fillLabelled b ob = Ok (AddLabel (setBody b ob) monLabelKey monLabelValue)"

lemma fillBody_content: "kind_of_body b = k \<Longrightarrow> content_setter k (fillBody b)"
  by unfold_locales (auto simp: fillBody_def)

lemma fillLabelled_content: "kind_of_body b = k \<Longrightarrow> content_setter k (fillLabelled b)"
proof (unfold_locales, goal_cases)
  case (4 ob ob' u v)
  then have "ob' = AddLabel (setBody b ob) monLabelKey monLabelValue"
    by (simp add: fillLabelled_def)
  moreover have "setBody b (stamp u v ob') = stamp u v ob'"
    using calculation by (intro setBody_same) simp
  ultimately show ?case
    by (simp add: fillLabelled_def labels.add_twice_stamped)
qed (auto simp: fillLabelled_def)

lemmas owned_fill =
  owned_setter.intro [OF controller_owner.owner_setter_axioms fillBody_content]
  owned_setter.intro [OF controller_owner.owner_setter_axioms fillLabelled_content]
  owned_setter.intro [OF add_owner.owner_setter_axioms fillBody_content]

section \<open>Writes and crashes of the shared operations\<close>

lemma createOrUpdate_issued:
  assumes "\<And>r ob. calls (upd (\<lambda>_. ob) r) = calls r"
  shows "issued (createOrUpdate x field upd f) r = issued (CreateOrUpdate x (field r) (f r)) r"
  by (auto simp: issued_def createOrUpdate_def gets_def bindM_def modify_def assms split: prod.splits outcome.splits)

lemma createOrUpdate_writes:
  assumes I: "env_stable I" "I r"
    and f: "\<And>o1. kind_of o1 = kind_of (field r) \<Longrightarrow> emits I (writes_only P) (f r o1)"
      "\<And>o1. kind_of o1 = kind_of (field r) \<Longrightarrow> yields P (f r o1)"
    and upd: "\<And>r ob. calls (upd (\<lambda>_. ob) r) = calls r"
  shows "list_all (writes_only P) (issued (createOrUpdate x field upd f) r)"
proof -
  let ?m = "CreateOrUpdate x (field r) (f r)"
  have m: "emits I (writes_only P) ?m"
    by (rule emits_CreateOrUpdate_writes [OF I(1) f])
  have "issued (createOrUpdate x field upd f) r = issued ?m r"
    by (rule createOrUpdate_issued) (rule upd)
  then show ?thesis using emits_issued [OF m I(2)] by (simp add: list_all_iff)
qed

lemma crashes_if_client:
  "crashes_if B (client_get x k key)" "crashes_if B (client_list x k n lim)"
  "crashes_if B (client_create x ob)" "crashes_if B (client_update x ob)"
  "crashes_if B (client_delete x k key)" "crashes_if B (host_readFile h path)"
  by (auto simp: crashes_if_def prog_unfold split: prod.splits sum.splits)

lemma extends_CreateOrUpdate: "(\<And>o1. extends (f o1)) \<Longrightarrow> extends (CreateOrUpdate x ob f)"
  unfolding CreateOrUpdate_def mutate_def
  by (intro emits_rules emits_client_get emits_client_create emits_client_update; simp)

lemma crashes_if_CreateOrUpdate:
  assumes "\<And>o1. crashes_if B (f o1)" and "\<And>o1. extends (f o1)"
  shows "crashes_if B (CreateOrUpdate x ob f)"
  unfolding CreateOrUpdate_def mutate_def
  by (intro crashes_if_rules crashes_if_client assms emits_rules emits_client_get emits_client_create
      emits_client_update; simp)

lemma crashes_if_createOrUpdate:
  assumes "\<And>r o1. crashes_if B (f r o1)" and "\<And>r o1. extends (f r o1)"
    and "\<And>r ob. calls (upd (\<lambda>_. ob) r) = calls r"
  shows "crashes_if B (createOrUpdate x field upd f)"
  unfolding createOrUpdate_def
  by (intro crashes_if_rules crashes_if_CreateOrUpdate extends_CreateOrUpdate emits_rules emits_modify assms;
      simp add: assms)

lemma extends_createOrUpdate:
  assumes "\<And>r o1. extends (f r o1)" and "\<And>r ob. calls (upd (\<lambda>_. ob) r) = calls r"
  shows "extends (createOrUpdate x field upd f)"
  unfolding createOrUpdate_def
  by (intro emits_rules extends_CreateOrUpdate emits_modify assms TrueI)

end
