(* ===== verification/Resources.thy ===== *)
theory Resources
  imports Kube_Objects
begin

text \<open>
  The resource tables of \<open>utils/resources.go\<close> and \<open>datafoundation/resources.go\<close>, with the
  quantities \<open>resource.MustParse\<close> makes of their literals.
\<close>

section \<open>Quantities\<close>

text \<open>
  The part of the quantity grammar the repository's literals use: decimal digits and one
  of the suffixes \<open>m\<close>, none, \<open>Ki\<close>, \<open>Mi\<close>, \<open>Gi\<close>, \<open>Ti\<close>.
\<close>

fun parseDigits :: "int \<Rightarrow> string \<Rightarrow> int \<times> string" where
  "parseDigits n [] = (n, [])"
| "parseDigits n (c # cs) =
     (if CHR ''0'' = c \<or> c \<in> set ''123456789''
      then parseDigits (10 * n + (of_char c - 48)) cs
      else (n, c # cs))"

definition suffixFactor :: "string \<Rightarrow> int option" where
  "suffixFactor suf =
     (if suf = ''m'' then Some 1
      else if suf = '''' then Some 1000
      else if suf = ''Ki'' then Some (1000 * 2 ^ 10)
      else if suf = ''Mi'' then Some (1000 * 2 ^ 20)
      else if suf = ''Gi'' then Some (1000 * 2 ^ 30)
      else if suf = ''Ti'' then Some (1000 * 2 ^ 40)
      else None)"

definition ParseQuantity :: "string \<Rightarrow> quantity option" where
  "ParseQuantity s =
     (case parseDigits 0 s of
        (n, suf) \<Rightarrow> if suf = s then None else map_option (\<lambda>f. n * f) (suffixFactor suf))"

text \<open>
  \<open>MustParse\<close> panics on a text that does not parse, at package initialisation, before
  \<open>main\<close>. \<open>literals_parse\<close> below shows that no literal of the tables does.
\<close>

definition MustParse :: "string \<Rightarrow> quantity" where
  "MustParse s = (case ParseQuantity s of Some q \<Rightarrow> q | None \<Rightarrow> 0)"

definition cpuMemory :: "string \<Rightarrow> string \<Rightarrow> (string, quantity) fmap" where
  "cpuMemory cpu memory =
     fmupd ''cpu'' (MustParse cpu) (fmupd ''memory'' (MustParse memory) fmempty)"

definition requirements :: "string \<Rightarrow> string \<Rightarrow> string \<Rightarrow> string \<Rightarrow> ResourceRequirements" where
  "requirements limCpu limMemory reqCpu reqMemory =
     \<lparr>rr_Limits = cpuMemory limCpu limMemory, rr_Requests = cpuMemory reqCpu reqMemory\<rparr>"

section \<open>Tables\<close>

type_synonym resource_table = "(string \<times> string \<times> string \<times> string \<times> string) list"
  \<comment> \<open>name, limits (cpu, memory), requests (cpu, memory)\<close>

definition utilsResourceRequirements :: resource_table where
  "utilsResourceRequirements =
     [(''prometheus'',          ''400m'', ''250Mi'', ''400m'', ''250Mi''),
      (''alertmanager'',        ''100m'', ''200Mi'', ''100m'', ''200Mi''),
      (''csi-provisioner'',     ''15m'',  ''85Mi'',  ''15m'',  ''85Mi''),
      (''csi-resizer'',         ''10m'',  ''55Mi'',  ''10m'',  ''55Mi''),
      (''csi-attacher'',        ''10m'',  ''45Mi'',  ''10m'',  ''45Mi''),
      (''csi-snapshotter'',     ''10m'',  ''35Mi'',  ''10m'',  ''35Mi''),
      (''csi-rbdplugin'',       ''25m'',  ''270Mi'', ''25m'',  ''270Mi''),
      (''liveness-prometheus'', ''10m'',  ''30Mi'',  ''10m'',  ''30Mi''),
      (''driver-registrar'',    ''10m'',  ''25Mi'',  ''10m'',  ''25Mi''),
      (''csi-cephfsplugin'',    ''20m'',  ''160Mi'', ''20m'',  ''160Mi''),
      (''kube-rbac-proxy'',     ''50m'',  ''30Mi'',  ''50m'',  ''30Mi'')]"

definition dfResourceRequirements :: resource_table where
  "dfResourceRequirements =
     [(''ocs-operator'',         ''200m'',  ''200Mi'', ''200m'',  ''200Mi''),
      (''rook-ceph-operator'',   ''300m'',  ''250Mi'', ''300m'',  ''250Mi''),
      (''ocs-metrics-exporter'', ''60m'',   ''75Mi'',  ''60m'',   ''75Mi''),
      (''mds'',                  ''1500m'', ''8Gi'',   ''1500m'', ''8Gi''),
      (''mgr'',                  ''1000m'', ''3Gi'',   ''1000m'', ''3Gi''),
      (''mon'',                  ''1000m'', ''2Gi'',   ''1000m'', ''2Gi''),
      (''sds'',                  ''1650m'', ''6Gi'',   ''1650m'', ''6Gi''),
      (''crashcollector'',       ''50m'',   ''80Mi'',  ''50m'',   ''80Mi'')]"

text \<open>\<open>GetResourceRequirements\<close> of either package: a missing name is a panic.\<close>

definition lookupRequirements :: "resource_table \<Rightarrow> string \<Rightarrow> ResourceRequirements outcome" where
  "lookupRequirements table name =
     (case map_of table name of
        Some (lc, lm, rc, rm) \<Rightarrow> Ok (requirements lc lm rc rm)
      | None \<Rightarrow> Crash (''Resource requirement not found: '' @ name))"

definition utils_GetResourceRequirements :: "string \<Rightarrow> ResourceRequirements outcome" where
  "utils_GetResourceRequirements name = lookupRequirements utilsResourceRequirements name"

definition df_GetResourceRequirements :: "string \<Rightarrow> ResourceRequirements outcome" where
  "df_GetResourceRequirements name = lookupRequirements dfResourceRequirements name"

text \<open>A call in a package-level variable: its panic would be at initialisation.\<close>

definition atInit :: "ResourceRequirements outcome \<Rightarrow> ResourceRequirements" where
  "atInit r = (case r of Ok req \<Rightarrow> req | _ \<Rightarrow> noResources)"

section \<open>Facts\<close>

definition parses :: "string \<Rightarrow> bool" where
  "parses s = (case ParseQuantity s of None \<Rightarrow> False | Some _ \<Rightarrow> True)"

definition literalsParse :: "resource_table \<Rightarrow> bool" where
  "literalsParse table =
     list_all (\<lambda>(_, lc, lm, rc, rm). parses lc \<and> parses lm \<and> parses rc \<and> parses rm) table"

lemma literals_parse:
  "literalsParse utilsResourceRequirements \<and> literalsParse dfResourceRequirements"
  by code_simp

lemma lookupRequirements_Ok:
  "(\<exists>req. lookupRequirements table name = Ok req) \<longleftrightarrow> name \<in> fst ` set table"
proof (cases "map_of table name")
  case None
  then have "name \<notin> fst ` set table" by (simp add: map_of_eq_None_iff)
  with None show ?thesis by (simp add: lookupRequirements_def)
next
  case (Some q)
  then have "name \<in> fst ` set table" by (metis map_of_eq_None_iff option.distinct(1))
  with Some show ?thesis by (cases q) (simp add: lookupRequirements_def)
qed

end
