(* ===== verification/Go_Json.thy ===== *)
theory Go_Json
  imports Go_Strings "HOL-Library.List_Lexorder"
begin

text \<open>
  Go's \<open>encoding/json\<close>, as far as the repository uses it: \<open>json.Marshal\<close> of structs (an
  object in field order), maps with string keys (an object in key order), slices, strings
  and booleans; and \<open>fmt\<close>'s \<open>%d\<close>. The texts the repository encodes are ASCII.
\<close>

section \<open>Values and their encoding\<close>

datatype json =
    JStr string
  | JBool bool
  | JRaw string
  | JArr "json list"
  | JObj "(string \<times> json) list"

definition hexDigit :: "nat \<Rightarrow> char" where
  "hexDigit n = ''0123456789abcdef'' ! (n mod 16)"

text \<open>The escapes of \<open>Marshal\<close>; angle brackets and ampersands are escaped for HTML.\<close>

definition escapeChar :: "char \<Rightarrow> string" where
  "escapeChar c =
     (let n = of_char c :: nat in
      if c = CHR 0x22 then [CHR 0x5C, CHR 0x22]
      else if c = CHR 0x5C then [CHR 0x5C, CHR 0x5C]
      else if c = CHR 0x0A then [CHR 0x5C, CHR ''n'']
      else if c = CHR 0x0D then [CHR 0x5C, CHR ''r'']
      else if c = CHR 0x09 then [CHR 0x5C, CHR ''t'']
      else if n < 32 \<or> c = CHR ''<'' \<or> c = CHR ''>'' \<or> c = CHR ''&''
      then [CHR 0x5C, CHR ''u'', CHR ''0'', CHR ''0'', hexDigit (n div 16), hexDigit n]
      else [c])"

definition quoteJson :: "string \<Rightarrow> string" where
  "quoteJson s = CHR 0x22 # concat (map escapeChar s) @ [CHR 0x22]"

fun Marshal :: "json \<Rightarrow> string" where
  "Marshal (JStr s) = quoteJson s"
| "Marshal (JBool b) = (if b then ''true'' else ''false'')"
| "Marshal (JRaw s) = s"
| "Marshal (JArr js) = ''['' @ Join (map Marshal js) '','' @ '']''"
| "Marshal (JObj fs) =
     ''{'' @ Join (map (\<lambda>(k, j). quoteJson k @ '':'' @ Marshal j) fs) '','' @ ''}''"

text \<open>A struct field with the tag \<open>omitempty\<close> is left out when its value is empty.\<close>

definition fieldOpt :: "string \<Rightarrow> bool \<Rightarrow> json \<Rightarrow> (string \<times> json) list" where
  "fieldOpt k present j = (if present then [(k, j)] else [])"

text \<open>A map's entries are written in the order of their keys.\<close>

definition jsonOfMap :: "(string \<times> string) list \<Rightarrow> json" where
  "jsonOfMap kvs = JObj (map (\<lambda>(k, v). (k, JStr v)) (sort_key fst kvs))"

text \<open>\<open>utils.ToJsonOrDie\<close>: encoding a map of strings has no error, so it cannot panic.\<close>

definition ToJsonOrDie :: "json \<Rightarrow> string" where
  "ToJsonOrDie val = Marshal val"

section \<open>Decimal numbers\<close>

function itoa :: "nat \<Rightarrow> string" where
  "itoa n = (if n < 10 then [char_of (48 + n)] else itoa (n div 10) @ [char_of (48 + n mod 10)])"
  by pat_completeness auto
termination
  by (relation "measure id") auto

declare itoa.simps [simp del]

end
