(* ===== verification/Templates.thy ===== *)
theory Templates
  imports Utils Resources Go_Json
begin

text \<open>
  The objects of \<open>templates/*.go\<close>, from which the agent's reconciler makes the specs it
  writes. Each is a package-level variable that the code deep-copies before use. The
  resource tables are consulted when the package is initialised.
\<close>

section \<open>Prometheus\<close>

definition resourceSelector :: LabelSelector where
  "resourceSelector =
     \<lparr>ls_MatchLabels = fmupd ''app'' ''managed-fusion-agent'' fmempty, ls_MatchExpressions = []\<rparr>"

definition namespaceSelector :: LabelSelector where
  "namespaceSelector =
     \<lparr>ls_MatchLabels = fmempty,
      ls_MatchExpressions = [\<lparr>lsr_Key = ''kubernetes.io/metadata.name'', lsr_Operator = ''Exists'',
                             lsr_Values = []\<rparr>]\<rparr>"

definition RemoteWriteDNSName :: string where
  [const_defs]: "RemoteWriteDNSName = ''ingest.us-south.monitoring.cloud.ibm.com''"

definition KubeRBACProxyPortNumber :: nat where
  [const_defs]: "KubeRBACProxyPortNumber = 9339"

definition PrometheusServingCertSecretName :: string where
  [const_defs]: "PrometheusServingCertSecretName = ''prometheus-serving-cert-secret''"

definition PrometheusKubeRBACPoxyConfigMapName :: string where
  [const_defs]: "PrometheusKubeRBACPoxyConfigMapName = ''prometheus-kube-rbac-proxy-config''"

text \<open>Every entry of both lists is commented out in the source.\<close>

definition metrics :: "string list" where "metrics = []"

definition alerts :: "string list" where "alerts = []"

definition getRelableRegex :: "string list \<Rightarrow> string list \<Rightarrow> string" where
  "getRelableRegex alertNames metricNames =
     ''(ALERTS;('' @ Join alertNames ''|'' @ ''))|'' @
     Join (MapItems metricNames (\<lambda>str. ''('' @ str @ '';)'')) ''|''"

definition kubeRBACProxyContainer :: Container where
  "kubeRBACProxyContainer =
     \<lparr>ct_Name = ''kube-rbac-proxy'', ct_Image = '''',
      ct_Args =
        [''--secure-listen-address=0.0.0.0:'' @ itoa KubeRBACProxyPortNumber,
         ''--upstream=http://127.0.0.1:9090/'',
         ''--logtostderr=true'',
         ''--v=10'',
         ''--tls-cert-file=/etc/tls-secret/tls.crt'',
         ''--tls-private-key-file=/etc/tls-secret/tls.key'',
         ''--client-ca-file=/var/run/secrets/kubernetes.io/serviceaccount/service-ca.crt'',
         ''--config-file=/etc/kube-rbac-config/config-file.json''],
      ct_Ports = [(''https'', int KubeRBACProxyPortNumber)],
      ct_VolumeMounts = [(''serving-cert'', ''/etc/tls-secret''),
                         (''kube-rbac-config'', ''/etc/kube-rbac-config'')],
      ct_Resources = atInit (utils_GetResourceRequirements ''kube-rbac-proxy'')\<rparr>"

definition PrometheusTemplate :: PrometheusSpec where
  "PrometheusTemplate =
     \<lparr>ps_ExternalLabels = Some fmempty,
      ps_ServiceAccountName = ''prometheus-k8s'',
      ps_ServiceMonitorSelector = Some resourceSelector,
      ps_ServiceMonitorNamespaceSelector = Some namespaceSelector,
      ps_PodMonitorSelector = Some resourceSelector,
      ps_PodMonitorNamespaceSelector = Some namespaceSelector,
      ps_Resources = atInit (utils_GetResourceRequirements ''prometheus''),
      ps_ListenLocal = True,
      ps_EnableAdminAPI = False,
      ps_Containers = [kubeRBACProxyContainer],
      ps_Volumes = [(''serving-cert'', VolSecret PrometheusServingCertSecretName),
                    (''kube-rbac-config'', VolConfigMap PrometheusKubeRBACPoxyConfigMapName)],
      ps_RemoteWrite =
        [\<lparr>rw_URL = ''https://ingest.us-south.monitoring.cloud.ibm.com/prometheus/remote/write'',
          rw_BearerToken = '''',
          rw_WriteRelabelConfigs =
            [\<lparr>rc_SourceLabels = [''__name__'', ''alertname''], rc_TargetLabel = '''',
              rc_Regex = getRelableRegex alerts metrics, rc_Replacement = '''', rc_Action = ''keep''\<rparr>]\<rparr>],
      ps_RuleSelector = Some resourceSelector,
      ps_RuleNamespaceSelector = Some namespaceSelector,
      ps_Alerting = Some [\<lparr>ame_Namespace = '''', ame_Name = ''alertmanager-operated'',
                           ame_Port = FromString ''web''\<rparr>],
      ps_AdditionalAlertRelabelConfigs = None\<rparr>"

section \<open>The kube-rbac-proxy configuration\<close>

definition staticEntry :: "string \<Rightarrow> string \<Rightarrow> json" where
  "staticEntry path verb =
     JObj [(''path'', JStr path), (''resourceRequest'', JBool False), (''verb'', JStr verb)]"

definition KubeRBACProxyConfigMap :: "smap option" where
  "KubeRBACProxyConfigMap =
     Some (fmupd ''config-file.json''
             (Marshal (JObj [(''authorization'',
                JObj [(''static'', JArr [staticEntry ''/metrics'' ''get'',
                                         staticEntry ''/federate'' ''get''])])]))
             fmempty)"

section \<open>Alertmanager\<close>

definition AlertmanagerTemplate :: AlertmanagerSpec where
  "AlertmanagerTemplate =
     \<lparr>as_Replicas = Some 1,
      as_Resources = atInit (utils_GetResourceRequirements ''alertmanager''),
      as_AlertmanagerConfigSelector = None\<rparr>"

definition pagerdutyAlerts :: "string list" where
  "pagerdutyAlerts =
     [''CephMdsMissingReplicas'', ''CephMgrIsAbsent'', ''CephMgrIsMissingReplicas'',
      ''CephNodeDown'', ''CephClusterErrorState'', ''CephClusterWarningState'',
      ''CephOSDVersionMismatch'', ''CephMonVersionMismatch'', ''CephOSDFlapping'',
      ''CephOSDDiskNotResponding'', ''CephOSDDiskUnavailable'',
      ''CephDataRecoveryTakingTooLong'', ''CephPGRepairTakingTooLong'', ''CephMonQuorumAtRisk'',
      ''CephMonQuorumLost'']"

definition smtpAlerts :: "string list" where
  "smtpAlerts =
     [''CephClusterNearFull'', ''CephClusterCriticallyFull'', ''CephClusterReadOnly'',
      ''PersistentVolumeUsageNearFull'', ''PersistentVolumeUsageCritical'']"

definition getRegexMatcher :: "string list \<Rightarrow> string" where
  "getRegexMatcher alertNames = ''^'' @ Join alertNames ''$|^'' @ ''$''"

definition MatchRegexp :: string where
  [const_defs]: "MatchRegexp = ''=~''"

definition matcherJson :: "Matcher \<Rightarrow> json" where
  "matcherJson m =
     JObj ([(''name'', JStr (mt_Name m)), (''value'', JStr (mt_Value m))] @
           fieldOpt ''matchType'' (mt_MatchType m \<noteq> '''') (JStr (mt_MatchType m)))"

text \<open>
  \<open>json.Marshal\<close> of a \<open>promv1a1.Route\<close>, by its field tags. \<open>continue\<close> and
  \<open>muteTimeIntervals\<close> are never set by the repository and are empty.
\<close>

definition routeJson :: "AMRoute \<Rightarrow> json" where
  "routeJson rt =
     JObj ([(''receiver'', JStr (rt_Receiver rt))] @
           fieldOpt ''groupBy'' (rt_GroupBy rt \<noteq> []) (JArr (map JStr (rt_GroupBy rt))) @
           fieldOpt ''groupWait'' (rt_GroupWait rt \<noteq> '''') (JStr (rt_GroupWait rt)) @
           fieldOpt ''groupInterval'' (rt_GroupInterval rt \<noteq> '''') (JStr (rt_GroupInterval rt)) @
           fieldOpt ''repeatInterval'' (rt_RepeatInterval rt \<noteq> '''') (JStr (rt_RepeatInterval rt)) @
           fieldOpt ''matchers'' (rt_Matchers rt \<noteq> []) (JArr (map matcherJson (rt_Matchers rt))) @
           fieldOpt ''routes'' (rt_Routes rt \<noteq> []) (JArr (map JRaw (rt_Routes rt))))"

text \<open>The raw field of the result; strings, slices and booleans always encode.\<close>

definition convertToApiExtV1JSON :: "AMRoute \<Rightarrow> string" where
  "convertToApiExtV1JSON val = Marshal (routeJson val)"

definition alertRoute :: "string list \<Rightarrow> string \<Rightarrow> AMRoute" where
  "alertRoute alertNames receiver =
     \<lparr>rt_Receiver = receiver, rt_GroupBy = [''alertname''], rt_GroupWait = ''30s'',
      rt_GroupInterval = ''5m'', rt_RepeatInterval = ''12h'',
      rt_Matchers = [\<lparr>mt_Name = ''alertname'', mt_Value = getRegexMatcher alertNames,
                      mt_MatchType = MatchRegexp\<rparr>],
      rt_Routes = []\<rparr>"

definition emptyKeySelector :: SecretKeySelector where
  "emptyKeySelector = \<lparr>sks_Name = '''', sks_Key = ''''\<rparr>"

definition pagerdutyReceiver :: Receiver where
  "pagerdutyReceiver =
     \<lparr>rcv_Name = ''pagerduty'',
      rcv_PagerDutyConfigs = [\<lparr>pdc_ServiceKey = Some emptyKeySelector, pdc_Details = [('''', '''')]\<rparr>],
      rcv_EmailConfigs = []\<rparr>"

definition sendGridReceiver :: Receiver where
  "sendGridReceiver =
     \<lparr>rcv_Name = ''SendGrid'',
      rcv_PagerDutyConfigs = [],
      rcv_EmailConfigs =
        [\<lparr>ec_SendResolved = Some False, ec_Smarthost = '''', ec_From = '''', ec_To = '''',
          ec_AuthUsername = '''', ec_AuthPassword = Some emptyKeySelector,
          ec_Headers =
            [(''subject'', ''OpenShift Data Foundation Managed Service notification, Action required on your managed OpenShift cluster!'')],
          ec_HTML = ''''\<rparr>]\<rparr>"

definition AlertmanagerConfigTemplate :: AlertmanagerConfigSpec where
  "AlertmanagerConfigTemplate =
     \<lparr>acs_Route =
        Some \<lparr>rt_Receiver = ''null'', rt_GroupBy = [], rt_GroupWait = '''', rt_GroupInterval = '''',
              rt_RepeatInterval = '''', rt_Matchers = [],
              rt_Routes = [convertToApiExtV1JSON (alertRoute smtpAlerts ''SendGrid''),
                           convertToApiExtV1JSON (alertRoute pagerdutyAlerts ''pagerduty'')]\<rparr>,
      acs_Receivers =
        [\<lparr>rcv_Name = ''null'', rcv_PagerDutyConfigs = [], rcv_EmailConfigs = []\<rparr>,
         pagerdutyReceiver, sendGridReceiver]\<rparr>"

section \<open>The metrics service monitor\<close>

definition params :: "(string, string list) fmap" where
  "params = fmupd ''match[]'' [] fmempty"

definition K8sMetricsServiceMonitorTemplate :: ServiceMonitorSpec where
  "K8sMetricsServiceMonitorTemplate =
     \<lparr>sm_Endpoints =
        [\<lparr>ep_Port = ''web'', ep_Path = ''/federate'', ep_Scheme = ''https'', ep_ScrapeTimeout = ''1m'',
          ep_Interval = ''2m'', ep_HonorLabels = True,
          ep_MetricRelabelConfigs =
            [\<lparr>rc_SourceLabels = [], rc_TargetLabel = '''', rc_Regex = ''prometheus_replica'',
              rc_Replacement = '''', rc_Action = ''labeldrop''\<rparr>],
          ep_RelabelConfigs =
            [\<lparr>rc_SourceLabels = [''pod''], rc_TargetLabel = ''pod'', rc_Regex = ''prometheus-k8s-.*'',
              rc_Replacement = '''', rc_Action = ''replace''\<rparr>],
          ep_InsecureSkipVerify = Some True,
          ep_Params = params,
          ep_BearerTokenFile = ''/var/run/secrets/kubernetes.io/serviceaccount/token''\<rparr>],
      sm_NamespaceMatchNames = [''openshift-monitoring''],
      sm_Selector = \<lparr>ls_MatchLabels = fmupd ''app.kubernetes.io/component'' ''prometheus'' fmempty,
                     ls_MatchExpressions = []\<rparr>\<rparr>"

section \<open>Network policies\<close>

definition NetworkPolicyTemplate :: NetworkPolicySpec where
  "NetworkPolicyTemplate =
     \<lparr>np_Ingress = [\<lparr>npi_Ports = [],
                     npi_From = [\<lparr>npp_PodSelector = Some emptySelector, npp_NamespaceSelector = None\<rparr>]\<rparr>],
      np_PolicyTypes = [''Ingress''],
      np_PodSelector = emptySelector\<rparr>"

definition PrometheusProxyNetworkPolicyTemplate :: NetworkPolicySpec where
  "PrometheusProxyNetworkPolicyTemplate =
     \<lparr>np_Ingress = [\<lparr>npi_Ports = [(Some (FromInt (int KubeRBACProxyPortNumber)), Some ''TCP'')],
                     npi_From = []\<rparr>],
      np_PolicyTypes = [''Ingress''],
      np_PodSelector =
        \<lparr>ls_MatchLabels = fmempty,
         ls_MatchExpressions = [\<lparr>lsr_Key = ''prometheus'', lsr_Operator = ''In'',
                                lsr_Values = [''managed-ocs-prometheus'']\<rparr>]\<rparr>\<rparr>"

section \<open>Egress\<close>

definition EgressFirewallRuleAllow :: string where
  [const_defs]: "EgressFirewallRuleAllow = ''Allow''"

definition EgressFirewallRuleDeny :: string where
  [const_defs]: "EgressFirewallRuleDeny = ''Deny''"

definition toDNS :: "string \<Rightarrow> EgressFirewallDestination" where
  "toDNS name = \<lparr>ed_CIDRSelector = '''', ed_DNSName = name\<rparr>"

definition toCIDR :: "string \<Rightarrow> EgressFirewallDestination" where
  "toCIDR cidr = \<lparr>ed_CIDRSelector = cidr, ed_DNSName = ''''\<rparr>"

definition allowRule :: "EgressFirewallDestination \<Rightarrow> EgressFirewallRule" where
  "allowRule dst = \<lparr>ef_Type = EgressFirewallRuleAllow, ef_Ports = [], ef_To = dst\<rparr>"

definition denyRule :: "EgressFirewallDestination \<Rightarrow> EgressFirewallRule" where
  "denyRule dst = \<lparr>ef_Type = EgressFirewallRuleDeny, ef_Ports = [], ef_To = dst\<rparr>"

definition EgressFirewallTemplate :: "EgressFirewallRule list" where
  "EgressFirewallTemplate =
     [allowRule (toDNS ''events.pagerduty.com''),
      allowRule (toDNS RemoteWriteDNSName),
      allowRule (toCIDR ''100.64.0.0/16''),
      denyRule (toCIDR ''0.0.0.0/0'')]"

definition EgressNetworkPolicyTemplate :: "EgressNetworkPolicyRule list" where
  "EgressNetworkPolicyTemplate =
     [\<lparr>en_Type = ''Allow'', en_CIDRSelector = '''', en_DNSName = ''events.pagerduty.com''\<rparr>,
      \<lparr>en_Type = ''Allow'', en_CIDRSelector = ''100.64.0.0/16'', en_DNSName = ''''\<rparr>,
      \<lparr>en_Type = ''Deny'', en_CIDRSelector = ''0.0.0.0/0'', en_DNSName = ''''\<rparr>]"

end
