(* ===== verification/Egress.thy ===== *)
theory Egress
  imports Templates
begin

text \<open>
  The egress rules of \<open>controllers/managedfusion_controller.go\<close>: sorting the template's
  rules, adding the VPC ranges and the mail host, converting the firewall rules to network
  policy rules; and what an ordered rule list means (the first matching rule decides).
\<close>

section \<open>Building the rules\<close>

text \<open>The \<open>switch\<close> over the rule type; a rule of another type is dropped.\<close>

fun classifyRules ::
  "EgressFirewallRule list \<Rightarrow> EgressFirewallRule list \<Rightarrow> EgressFirewallRule list \<Rightarrow>
   EgressFirewallRule list \<times> EgressFirewallRule list" where
  "classifyRules allow deny [] = (allow, deny)"
| "classifyRules allow deny (r # rs) =
     (if ef_Type r = EgressFirewallRuleAllow then classifyRules (allow @ [r]) deny rs
      else if ef_Type r = EgressFirewallRuleDeny then classifyRules allow (deny @ [r]) rs
      else classifyRules allow deny rs)"

text \<open>The loop over the ranges of the VPC; empty pieces are skipped.\<close>

fun appendCIDRs :: "EgressFirewallRule list \<Rightarrow> string list \<Rightarrow> EgressFirewallRule list" where
  "appendCIDRs allow [] = allow"
| "appendCIDRs allow (cidr # rest) =
     (if cidr = '''' then appendCIDRs allow rest
      else appendCIDRs (allow @ [allowRule (toCIDR cidr)]) rest)"

text \<open>
  \<open>desiredEgress cidrs host\<close>: the rules \<open>getEgressFirewallDesiredState\<close> returns once the
  ranges and the mail host are known.
\<close>

definition desiredEgress :: "string \<Rightarrow> string \<Rightarrow> EgressFirewallRule list" where
  "desiredEgress vpcCIDR hostname =
     (case classifyRules [] [] EgressFirewallTemplate of
        (allowEgressRules, denyEgressRules) \<Rightarrow>
          (appendCIDRs allowEgressRules (Split vpcCIDR (CHR 0x3B)) @ [allowRule (toDNS hostname)])
          @ denyEgressRules)"

section \<open>Conversion to network policy rules\<close>

definition convertType :: "string \<Rightarrow> string" where
  "convertType ty =
     (if ty = EgressFirewallRuleAllow then ''Allow''
      else if ty = EgressFirewallRuleDeny then ''Deny''
      else '''')"

fun convertRules ::
  "EgressNetworkPolicyRule list \<Rightarrow> EgressFirewallRule list \<Rightarrow> EgressNetworkPolicyRule list" where
  "convertRules acc [] = acc"
| "convertRules acc (r # rs) =
     convertRules
       (acc @ [\<lparr>en_Type = convertType (ef_Type r),
                en_CIDRSelector = ed_CIDRSelector (ef_To r),
                en_DNSName = ed_DNSName (ef_To r)\<rparr>]) rs"

definition egressFirewallSpecToEgressNetworkPolicySpec ::
  "EgressFirewallRule list \<Rightarrow> EgressNetworkPolicyRule list" where
  "egressFirewallSpecToEgressNetworkPolicySpec rules = convertRules [] rules"

section \<open>What a rule list means\<close>

text \<open>
  Both resources are evaluated in order and the first rule whose peer matches the
  destination decides; traffic no rule matches is allowed. \<open>hit cidr dns\<close> says whether a
  destination is covered by a peer.
\<close>

type_synonym peer_match = "string \<Rightarrow> string \<Rightarrow> bool"

definition hitsF :: "peer_match \<Rightarrow> EgressFirewallRule \<Rightarrow> bool" where
  "hitsF hit r = hit (ed_CIDRSelector (ef_To r)) (ed_DNSName (ef_To r))"

definition allowedF :: "peer_match \<Rightarrow> EgressFirewallRule list \<Rightarrow> bool" where
  "allowedF hit rules =
     (case find (hitsF hit) rules of None \<Rightarrow> True | Some r \<Rightarrow> ef_Type r = ''Allow'')"

definition hitsN :: "peer_match \<Rightarrow> EgressNetworkPolicyRule \<Rightarrow> bool" where
  "hitsN hit r = hit (en_CIDRSelector r) (en_DNSName r)"

definition allowedN :: "peer_match \<Rightarrow> EgressNetworkPolicyRule list \<Rightarrow> bool" where
  "allowedN hit rules =
     (case find (hitsN hit) rules of None \<Rightarrow> True | Some r \<Rightarrow> en_Type r = ''Allow'')"

section \<open>Lemmas\<close>

lemma classifyRules_filter:
  "classifyRules a d rs =
     (a @ filter (\<lambda>r. ef_Type r = EgressFirewallRuleAllow) rs,
      d @ filter (\<lambda>r. ef_Type r = EgressFirewallRuleDeny) rs)"
  by (induction a d rs rule: classifyRules.induct)
    (auto simp: EgressFirewallRuleAllow_def EgressFirewallRuleDeny_def)

lemma appendCIDRs_map:
  "appendCIDRs a cs = a @ map (\<lambda>c. allowRule (toCIDR c)) (filter (\<lambda>c. c \<noteq> '''') cs)"
  by (induction a cs rule: appendCIDRs.induct) auto

lemma convertRules_map:
  "convertRules acc rs =
     acc @ map (\<lambda>r. \<lparr>en_Type = convertType (ef_Type r), en_CIDRSelector = ed_CIDRSelector (ef_To r),
                      en_DNSName = ed_DNSName (ef_To r)\<rparr>) rs"
  by (induction acc rs rule: convertRules.induct) auto

text \<open>The allow rules of the desired state, before its deny rule.\<close>

definition desiredAllows :: "string \<Rightarrow> string \<Rightarrow> EgressFirewallRule list" where
  "desiredAllows vpcCIDR hostname =
     [allowRule (toDNS ''events.pagerduty.com''), allowRule (toDNS RemoteWriteDNSName),
      allowRule (toCIDR ''100.64.0.0/16'')] @
     map (\<lambda>c. allowRule (toCIDR c)) (filter (\<lambda>c. c \<noteq> '''') (Split vpcCIDR (CHR 0x3B))) @
     [allowRule (toDNS hostname)]"

lemma desiredEgress_eq:
  "desiredEgress vpcCIDR hostname = desiredAllows vpcCIDR hostname @ [denyRule (toCIDR ''0.0.0.0/0'')]"
  by (simp add: desiredEgress_def classifyRules_filter appendCIDRs_map desiredAllows_def
      EgressFirewallTemplate_def allowRule_def denyRule_def EgressFirewallRuleAllow_def
      EgressFirewallRuleDeny_def)

lemma desiredAllows_type: "r \<in> set (desiredAllows v h) \<Longrightarrow> ef_Type r = ''Allow''"
  by (auto simp: desiredAllows_def allowRule_def EgressFirewallRuleAllow_def)

lemma desiredEgress_types: "r \<in> set (desiredEgress v h) \<Longrightarrow> ef_Type r \<in> {''Allow'', ''Deny''}"
  by (auto simp: desiredEgress_eq denyRule_def EgressFirewallRuleDeny_def dest: desiredAllows_type)

lemma find_append:
  "find P (xs @ ys) = (case find P xs of None \<Rightarrow> find P ys | Some x \<Rightarrow> Some x)"
  by (induction xs) auto

lemma find_Some_mem: "find P xs = Some x \<Longrightarrow> x \<in> set xs \<and> P x"
  by (auto simp: find_Some_iff)

lemma allowedF_desired:
  "allowedF hit (desiredEgress v h) \<longleftrightarrow>
     list_ex (hitsF hit) (desiredAllows v h) \<or> \<not> hit ''0.0.0.0/0'' ''''"
proof (cases "find (hitsF hit) (desiredAllows v h)")
  case None
  then have "\<not> list_ex (hitsF hit) (desiredAllows v h)"
    by (auto simp: find_None_iff list_ex_iff)
  with None show ?thesis
    by (simp add: allowedF_def desiredEgress_eq find_append hitsF_def denyRule_def toCIDR_def
        EgressFirewallRuleDeny_def)
next
  case (Some r)
  then have "r \<in> set (desiredAllows v h)" "hitsF hit r" by (auto dest: find_Some_mem)
  with Some show ?thesis
    by (auto simp: allowedF_def desiredEgress_eq find_append list_ex_iff desiredAllows_type)
qed

lemma allowedN_converted:
  assumes "\<And>r. r \<in> set rules \<Longrightarrow> ef_Type r \<in> {''Allow'', ''Deny''}"
  shows "allowedN hit (egressFirewallSpecToEgressNetworkPolicySpec rules) = allowedF hit rules"
  using assms
  by (induction rules)
    (auto simp: egressFirewallSpecToEgressNetworkPolicySpec_def convertRules_map allowedN_def
      allowedF_def hitsN_def hitsF_def convertType_def EgressFirewallRuleAllow_def EgressFirewallRuleDeny_def)

lemma convert_desired:
  "allowedN hit (egressFirewallSpecToEgressNetworkPolicySpec (desiredEgress v h)) =
   allowedF hit (desiredEgress v h)"
  by (rule allowedN_converted) (rule desiredEgress_types)

end
