(* ===== verification/Go_Url.thy ===== *)
theory Go_Url
  imports Go_Strings
begin

text \<open>
  \<open>url.ParseRequestURI\<close> and \<open>URL.Hostname\<close> of Go's \<open>net/url\<close> (Go 1.19, the module's
  version), as far as the repository reads the result: the scheme, the opaque part and
  the host. The user information and the path are parsed for their errors only.
\<close>

section \<open>Character classes\<close>

definition code :: "char \<Rightarrow> nat" where
  "code c = of_char c"

definition isLower :: "char \<Rightarrow> bool" where
  "isLower c \<longleftrightarrow> 97 \<le> code c \<and> code c \<le> 122"

definition isUpper :: "char \<Rightarrow> bool" where
  "isUpper c \<longleftrightarrow> 65 \<le> code c \<and> code c \<le> 90"

definition isDigit :: "char \<Rightarrow> bool" where
  "isDigit c \<longleftrightarrow> 48 \<le> code c \<and> code c \<le> 57"

definition isAlnum :: "char \<Rightarrow> bool" where
  "isAlnum c \<longleftrightarrow> isLower c \<or> isUpper c \<or> isDigit c"

definition toLower :: "string \<Rightarrow> string" where
  "toLower = map (\<lambda>c. if isUpper c then char_of (code c + 32) else c)"

definition isHex :: "char \<Rightarrow> bool" where
  "isHex c \<longleftrightarrow> isDigit c \<or> (97 \<le> code c \<and> code c \<le> 102) \<or> (65 \<le> code c \<and> code c \<le> 70)"

definition unHex :: "char \<Rightarrow> nat" where
  "unHex c = (if isDigit c then code c - 48
              else if 97 \<le> code c \<and> code c \<le> 102 then code c - 87
              else if 65 \<le> code c \<and> code c \<le> 70 then code c - 55 else 0)"

section \<open>Percent decoding\<close>

datatype encoding = encodePath | encodeHost | encodeZone | encodeUserPassword

text \<open>\<open>shouldEscape\<close> in the host and zone modes (the only ones \<open>unescape\<close> asks about)\<close>

definition shouldEscapeHost :: "char \<Rightarrow> bool" where
  "shouldEscapeHost c \<longleftrightarrow>
     \<not> isAlnum c \<and>
     c \<notin> set ''!$&'' \<and> c \<noteq> CHR 0x27 \<and> c \<notin> set ''()*+,;=:[]<>'' \<and> c \<noteq> CHR 0x22 \<and>
     c \<notin> set ''-_.~''"

fun unescape :: "string \<Rightarrow> encoding \<Rightarrow> gerror + string" where
  "unescape [] mode = Inr []"
| "unescape (c # cs) mode =
     (if c = CHR ''%'' then
        (case cs of
           h1 # h2 # rest \<Rightarrow>
             if \<not> isHex h1 \<or> \<not> isHex h2 then Inl (ErrorNew ''invalid URL escape'')
             else
               (let v = char_of (unHex h1 * 16 + unHex h2); is25 = (h1 = CHR ''2'' \<and> h2 = CHR ''5'') in
                if mode = encodeHost \<and> unHex h1 < 8 \<and> \<not> is25
                then Inl (ErrorNew ''invalid URL escape'')
                else if mode = encodeZone \<and> \<not> is25 \<and> v \<noteq> CHR 0x20 \<and> shouldEscapeHost v
                then Inl (ErrorNew ''invalid URL escape'')
                else map_sum id (\<lambda>t. v # t) (unescape rest mode))
         | _ \<Rightarrow> Inl (ErrorNew ''invalid URL escape''))
      else if (mode = encodeHost \<or> mode = encodeZone) \<and> code c < 128 \<and> shouldEscapeHost c
      then Inl (ErrorNew ''invalid character in host name'')
      else map_sum id (\<lambda>t. c # t) (unescape cs mode))"

section \<open>Scheme, authority, host\<close>

text \<open>\<open>acc\<close> is the part already read, so \<open>acc = []\<close> is the test \<open>i == 0\<close>.\<close>

fun getSchemeFrom :: "string \<Rightarrow> string \<Rightarrow> string \<Rightarrow> gerror + (string \<times> string)" where
  "getSchemeFrom rawURL acc [] = Inr ('''', rawURL)"
| "getSchemeFrom rawURL acc (c # cs) =
     (if isLower c \<or> isUpper c then getSchemeFrom rawURL (acc @ [c]) cs
      else if isDigit c \<or> c \<in> set ''+-.'' then
        (if acc = [] then Inr ('''', rawURL) else getSchemeFrom rawURL (acc @ [c]) cs)
      else if c = CHR '':'' then
        (if acc = [] then Inl (ErrorNew ''missing protocol scheme'') else Inr (acc, cs))
      else Inr ('''', rawURL))"

definition getScheme :: "string \<Rightarrow> gerror + (string \<times> string)" where
  "getScheme rawURL = getSchemeFrom rawURL [] rawURL"

definition validOptionalPort :: "string \<Rightarrow> bool" where
  "validOptionalPort port =
     (case port of [] \<Rightarrow> True | c # cs \<Rightarrow> c = CHR '':'' \<and> list_all isDigit cs)"

definition isCtl :: "char \<Rightarrow> bool" where
  "isCtl c \<longleftrightarrow> code c < 32 \<or> code c = 127"

definition validUserinfo :: "string \<Rightarrow> bool" where
  "validUserinfo s = list_all (\<lambda>c. isAlnum c \<or> c \<in> set ''-._:~!$&()*+,;=%@'' \<or> c = CHR 0x27) s"

text \<open>\<open>strings.Index(s, "%25")\<close>\<close>

fun indexZone :: "string \<Rightarrow> nat option" where
  "indexZone [] = None"
| "indexZone (c # cs) =
     (if prefix ''%25'' (c # cs) then Some 0 else map_option Suc (indexZone cs))"

definition parseHost :: "string \<Rightarrow> gerror + string" where
  "parseHost host =
     (if HasPrefix host ''['' then
        (case LastIndex host (CHR '']'') of
           None \<Rightarrow> Inl (ErrorNew ''missing ']' in host'')
         | Some i \<Rightarrow>
             if \<not> validOptionalPort (drop (i + 1) host)
             then Inl (ErrorNew ''invalid port after host'')
             else
               (case indexZone (take i host) of
                  None \<Rightarrow> unescape host encodeHost
                | Some zone \<Rightarrow>
                    (case unescape (take zone host) encodeHost of Inl e \<Rightarrow> Inl e | Inr host1 \<Rightarrow>
                     case unescape (drop zone (take i host)) encodeZone of Inl e \<Rightarrow> Inl e | Inr host2 \<Rightarrow>
                     case unescape (drop i host) encodeHost of Inl e \<Rightarrow> Inl e | Inr host3 \<Rightarrow>
                     Inr (host1 @ host2 @ host3))))
      else
        (case LastIndex host (CHR '':'') of
           Some i \<Rightarrow>
             if \<not> validOptionalPort (drop i host)
             then Inl (ErrorNew ''invalid port after host'')
             else unescape host encodeHost
         | None \<Rightarrow> unescape host encodeHost))"

definition parseAuthority :: "string \<Rightarrow> gerror + string" where
  "parseAuthority authority =
     (case LastIndex authority (CHR ''@'') of
        None \<Rightarrow> parseHost authority
      | Some i \<Rightarrow>
          (case parseHost (drop (i + 1) authority) of
             Inl e \<Rightarrow> Inl e
           | Inr host \<Rightarrow>
               (let userinfo = take i authority in
                if \<not> validUserinfo userinfo then Inl (ErrorNew ''net/url: invalid userinfo'')
                else case unescape userinfo encodeUserPassword of Inl e \<Rightarrow> Inl e | Inr _ \<Rightarrow> Inr host)))"

section \<open>ParseRequestURI\<close>

record URL =
  url_Scheme :: string
  url_Opaque :: string
  url_Host :: string

text \<open>A trailing single \<open>?\<close> is dropped, otherwise the text before the first \<open>?\<close> is kept.\<close>

definition cutQuery :: "string \<Rightarrow> string" where
  "cutQuery rest = takeWhile (\<lambda>c. c \<noteq> CHR ''?'') rest"

definition ParseRequestURI :: "string \<Rightarrow> gerror + URL" where
  "ParseRequestURI rawURL =
     (if list_ex isCtl rawURL then Inl (ErrorNew ''net/url: invalid control character in URL'')
      else if rawURL = '''' then Inl (ErrorNew ''empty url'')
      else if rawURL = ''*'' then Inr \<lparr>url_Scheme = '''', url_Opaque = '''', url_Host = ''''\<rparr>
      else case getScheme rawURL of Inl e \<Rightarrow> Inl e | Inr (sch, after) \<Rightarrow>
        (let scheme = toLower sch; rest = cutQuery after in
         if \<not> HasPrefix rest ''/'' then
           (if scheme \<noteq> '''' then Inr \<lparr>url_Scheme = scheme, url_Opaque = rest, url_Host = ''''\<rparr>
            else Inl (ErrorNew ''invalid URI for request''))
         else if scheme \<noteq> '''' \<and> HasPrefix rest ''//'' then
           (let authority = takeWhile (\<lambda>c. c \<noteq> CHR ''/'') (drop 2 rest);
                path = dropWhile (\<lambda>c. c \<noteq> CHR ''/'') (drop 2 rest) in
            case parseAuthority authority of Inl e \<Rightarrow> Inl e | Inr host \<Rightarrow>
            case unescape path encodePath of Inl e \<Rightarrow> Inl e | Inr _ \<Rightarrow>
            Inr \<lparr>url_Scheme = scheme, url_Opaque = '''', url_Host = host\<rparr>)
         else
           (case unescape rest encodePath of Inl e \<Rightarrow> Inl e | Inr _ \<Rightarrow>
            Inr \<lparr>url_Scheme = scheme, url_Opaque = '''', url_Host = ''''\<rparr>)))"

definition Hostname :: "URL \<Rightarrow> string" where
  "Hostname u =
     (let hostPort = url_Host u;
          host = (case LastIndex hostPort (CHR '':'') of
                    Some colon \<Rightarrow> if validOptionalPort (drop colon hostPort) then take colon hostPort else hostPort
                  | None \<Rightarrow> hostPort)
      in if HasPrefix host ''['' \<and> suffix '']'' host then butlast (tl host) else host)"

section \<open>Facts\<close>

text \<open>
  A plain host name: letters, digits, hyphens and dots. (A user name and a password
  with a colon between them are decoded separately in Go; a percent escape cannot
  contain the colon, so decoding them together fails in the same cases.)
\<close>

definition plainHost :: "string \<Rightarrow> bool" where
  "plainHost h \<longleftrightarrow> h \<noteq> [] \<and> list_all (\<lambda>c. isAlnum c \<or> c \<in> set ''-.'') h"

definition plainScheme :: "string \<Rightarrow> bool" where
  "plainScheme s \<longleftrightarrow> s \<noteq> [] \<and> list_all (\<lambda>c. isLower c \<or> isUpper c) s"

lemmas char_class_defs =
  isAlnum_def isLower_def isUpper_def isDigit_def isCtl_def code_def shouldEscapeHost_def

lemma plain_char:
  assumes "isAlnum c \<or> c \<in> set ''-.''"
  shows "\<not> isCtl c" "\<not> shouldEscapeHost c" "c \<noteq> CHR ''/''" "c \<noteq> CHR ''?''" "c \<noteq> CHR ''@''"
    "c \<noteq> CHR '':''" "c \<noteq> CHR ''%''" "c \<noteq> CHR ''[''" "c \<noteq> CHR '']''"
  using assms by (auto simp: char_class_defs)

lemma digit_plain: "isDigit c \<Longrightarrow> isAlnum c \<or> c \<in> set ''-.''"
  by (simp add: isAlnum_def)

lemma letter_plain: "isLower c \<or> isUpper c \<Longrightarrow> isAlnum c \<or> c \<in> set ''-.''"
  by (auto simp: isAlnum_def)

lemma getSchemeFrom_letters:
  "list_all (\<lambda>c. isLower c \<or> isUpper c) s \<Longrightarrow> acc @ s \<noteq> [] \<Longrightarrow>
   getSchemeFrom raw acc (s @ CHR '':'' # rest) = Inr (acc @ s, rest)"
proof (induction s arbitrary: acc)
  case Nil
  then show ?case by (simp add: char_class_defs)
qed simp

lemma unescape_plain:
  "list_all (\<lambda>c. c \<noteq> CHR ''%'' \<and> \<not> shouldEscapeHost c) s \<Longrightarrow> unescape s encodeHost = Inr s"
  by (induction s) auto

lemma unescape_userpath_plain:
  "list_all (\<lambda>c. c \<noteq> CHR ''%'') s \<Longrightarrow> unescape s encodePath = Inr s"
  by (induction s) auto

lemma parseHost_plain:
  assumes "plainHost h" and "list_all isDigit port"
  shows "parseHost (h @ CHR '':'' # port) = Inr (h @ CHR '':'' # port)"
proof -
  have colon: "LastIndex (h @ CHR '':'' # port) (CHR '':'') = Some (length h)"
    using assms(2) by (intro LastIndex_append) (auto simp: list_all_iff char_class_defs)
  have "\<not> HasPrefix (h @ CHR '':'' # port) ''[''"
    using assms(1) plain_char(8) by (cases h) (auto simp: plainHost_def HasPrefix_def)
  moreover have "unescape (h @ CHR '':'' # port) encodeHost = Inr (h @ CHR '':'' # port)"
  proof (rule unescape_plain)
    have "list_all (\<lambda>c. c \<noteq> CHR ''%'' \<and> \<not> shouldEscapeHost c) h"
      using assms(1) plain_char(2,7) unfolding plainHost_def list_all_iff by blast
    moreover have "list_all (\<lambda>c. c \<noteq> CHR ''%'' \<and> \<not> shouldEscapeHost c) port"
      using assms(2) plain_char(2,7) digit_plain unfolding list_all_iff by blast
    moreover have "\<not> shouldEscapeHost (CHR '':'')" by (simp add: char_class_defs)
    ultimately show "list_all (\<lambda>c. c \<noteq> CHR ''%'' \<and> \<not> shouldEscapeHost c) (h @ CHR '':'' # port)"
      by simp
  qed
  ultimately show ?thesis using assms(2) by (simp add: parseHost_def colon validOptionalPort_def)
qed

definition plainPart :: "string \<Rightarrow> bool" where
  "plainPart s \<longleftrightarrow> CHR ''/'' \<notin> set s \<and> CHR ''?'' \<notin> set s \<and> CHR ''@'' \<notin> set s \<and> (\<forall>c\<in>set s. \<not> isCtl c)"

lemma plainPartI:
  assumes "\<And>c. c \<in> set s \<Longrightarrow> isAlnum c \<or> c \<in> set ''-.''"
  shows "plainPart s"
  using assms plain_char(1,3,4,5) unfolding plainPart_def by metis

lemma plainPart_append: "plainPart (s @ t) \<longleftrightarrow> plainPart s \<and> plainPart t"
  unfolding plainPart_def set_append by blast

lemma plainPart_Cons:
  "plainPart (c # s) \<longleftrightarrow>
     c \<noteq> CHR ''/'' \<and> c \<noteq> CHR ''?'' \<and> c \<noteq> CHR ''@'' \<and> \<not> isCtl c \<and> plainPart s"
  unfolding plainPart_def list.set by blast

lemma plainPart_auth:
  assumes "plainHost h" and "list_all isDigit port"
  shows "plainPart (h @ CHR '':'' # port)"
proof -
  have "plainPart h"
    using assms(1) by (intro plainPartI) (simp add: plainHost_def list_all_iff)
  moreover have "plainPart port"
    using assms(2) digit_plain by (intro plainPartI) (simp add: list_all_iff)
  moreover have "\<not> isCtl (CHR '':'')" by (simp add: isCtl_def code_def)
  ultimately show ?thesis by (simp add: plainPart_append plainPart_Cons)
qed

lemma plainPart_scheme: "plainScheme s \<Longrightarrow> plainPart s"
  using letter_plain by (intro plainPartI) (simp add: plainScheme_def list_all_iff)

lemma parse_authority_url:
  assumes sch: "plainScheme sch" and part: "plainPart auth"
    and pa: "parseAuthority auth = Inr host"
  shows "ParseRequestURI (sch @ ''://'' @ auth) =
    Inr \<lparr>url_Scheme = toLower sch, url_Opaque = '''', url_Host = host\<rparr>"
proof -
  have "\<not> list_ex isCtl sch" "\<not> list_ex isCtl auth"
    using part plainPart_scheme [OF sch] unfolding plainPart_def list_ex_iff by blast+
  then have noctl: "\<not> list_ex isCtl (sch @ ''://'' @ auth)"
    by (simp add: isCtl_def code_def)
  have scheme: "getScheme (sch @ ''://'' @ auth) = Inr (sch, ''//'' @ auth)"
    using sch getSchemeFrom_letters [of sch "[]" _ "''//'' @ auth"]
    by (simp add: getScheme_def plainScheme_def)
  have "takeWhile (\<lambda>c. c \<noteq> CHR ''?'') auth = auth"
    using part unfolding takeWhile_eq_all_conv plainPart_def by blast
  then have rest: "cutQuery (''//'' @ auth) = ''//'' @ auth"
    by (simp add: cutQuery_def)
  have tw: "takeWhile (\<lambda>c. c \<noteq> CHR ''/'') auth = auth" "dropWhile (\<lambda>c. c \<noteq> CHR ''/'') auth = []"
    using part unfolding takeWhile_eq_all_conv dropWhile_eq_Nil_conv plainPart_def by blast+
  have ne: "sch @ ''://'' @ auth \<noteq> ''*''" "sch @ ''://'' @ auth \<noteq> []"
    by (cases sch; simp)+
  have "toLower sch \<noteq> []" using sch by (simp add: plainScheme_def toLower_def)
  moreover have "HasPrefix (''//'' @ auth) ''/''" "drop 2 (''//'' @ auth) = auth"
    by (simp_all add: HasPrefix_def)
  ultimately show ?thesis
    using noctl ne unfolding ParseRequestURI_def Let_def
    by (simp only: scheme sum.case prod.case rest tw pa HasPrefix_append unescape.simps if_False if_True
        simp_thms)
qed

lemma parse_plain_endpoint:
  assumes sch: "plainScheme sch" and h: "plainHost h" and port: "list_all isDigit port"
  shows "ParseRequestURI (sch @ ''://'' @ h @ CHR '':'' # port) =
    Inr \<lparr>url_Scheme = toLower sch, url_Opaque = '''', url_Host = h @ CHR '':'' # port\<rparr>"
proof (rule parse_authority_url [OF sch plainPart_auth [OF h port]])
  have "LastIndex (h @ CHR '':'' # port) (CHR ''@'') = None"
    using plainPart_auth [OF h port] by (simp only: LastIndex_None plainPart_def simp_thms)
  then show "parseAuthority (h @ CHR '':'' # port) = Inr (h @ CHR '':'' # port)"
    by (simp only: parseAuthority_def option.case parseHost_plain [OF h port])
qed

lemma Hostname_plain:
  assumes h: "plainHost h" and port: "list_all isDigit port"
  shows "Hostname \<lparr>url_Scheme = s, url_Opaque = q, url_Host = h @ CHR '':'' # port\<rparr> = h"
proof -
  have colon: "LastIndex (h @ CHR '':'' # port) (CHR '':'') = Some (length h)"
    using port by (intro LastIndex_append) (auto simp: list_all_iff char_class_defs)
  have "\<not> HasPrefix h ''[''"
    using h plain_char(8) by (cases h) (auto simp: plainHost_def HasPrefix_def)
  then show ?thesis by (simp add: Hostname_def colon validOptionalPort_def port)
qed

text \<open>Without a scheme, an address \<open>host:port\<close> parses as an opaque URL with no host.\<close>

lemma parse_no_scheme:
  assumes h: "list_all (\<lambda>c. isLower c \<or> isUpper c) h" "h \<noteq> []"
    and port: "port \<noteq> []" "list_all isDigit port"
  shows "ParseRequestURI (h @ CHR '':'' # port) =
    Inr \<lparr>url_Scheme = toLower h, url_Opaque = port, url_Host = ''''\<rparr>"
proof -
  have "\<not> list_ex isCtl h" "\<not> list_ex isCtl port"
    using h port plain_char(1) letter_plain digit_plain unfolding list_ex_iff list_all_iff by blast+
  then have "\<not> list_ex isCtl (h @ CHR '':'' # port)"
    by (simp add: isCtl_def code_def)
  moreover have "getScheme (h @ CHR '':'' # port) = Inr (h, port)"
    using h getSchemeFrom_letters [of h "[]"] by (simp add: getScheme_def)
  moreover have "cutQuery port = port" "\<not> HasPrefix port ''/''"
    using port by (auto simp: cutQuery_def takeWhile_eq_all_conv list_all_iff HasPrefix_def
        char_class_defs neq_Nil_conv prefix_def)
  ultimately show ?thesis using h by (cases h) (auto simp: ParseRequestURI_def toLower_def Let_def)
qed

end
