(* ===== verification/Agent.thy ===== *)
theory Agent
  imports Controllers Egress Go_Url
begin

text \<open>
  The agent's reconciler, \<open>controllers/managedfusion_controller.go\<close>: its state and the
  operations that reconcile one resource each. The order in which \<open>Reconcile\<close> runs them is
  in \<open>Agent_Reconcile\<close>.
\<close>

section \<open>Constants\<close>

definition EgressFirewallCRD :: string where
  [const_defs]: "EgressFirewallCRD = ''egressfirewalls.k8s.ovn.org''"

definition EgressNetworkPolicyCRD :: string where
  [const_defs]: "EgressNetworkPolicyCRD = ''egressnetworkpolicies.network.openshift.io''"

definition managedFusionSecretName :: string where
  [const_defs]: "managedFusionSecretName = ''managed-fusion-agent-config''"

definition prometheusName :: string where
  [const_defs]: "prometheusName = ''managed-fusion-prometheus''"

definition prometheusServiceName :: string where
  [const_defs]: "prometheusServiceName = ''prometheus''"

definition prometheusProxyNetworkPolicyName :: string where
  [const_defs]: "prometheusProxyNetworkPolicyName = ''prometheus-proxy-rule''"

definition k8sMetricsServiceMonitorName :: string where
  [const_defs]: "k8sMetricsServiceMonitorName = ''k8s-metrics-service-monitor''"

definition alertmanagerName :: string where
  [const_defs]: "alertmanagerName = ''managed-fusion-alertmanager''"

definition alertmanagerConfigName :: string where
  [const_defs]: "alertmanagerConfigName = ''managed-fusion-alertmanager-config''"

definition alertmanagerSecretName :: string where
  [const_defs]: "alertmanagerSecretName = ''managed-fusion-alertmanager-secret''"

definition alertRelabelConfigSecretName :: string where
  [const_defs]: "alertRelabelConfigSecretName = ''managed-fusion-alert-relabel-config-secret''"

definition alertRelabelConfigSecretKey :: string where
  [const_defs]: "alertRelabelConfigSecretKey = ''alertrelabelconfig.yaml''"

definition agentCSVPrefix :: string where
  [const_defs]: "agentCSVPrefix = ''managed-fusion-agent''"

definition amSecretPagerDutyServiceKeyKey :: string where
  [const_defs]: "amSecretPagerDutyServiceKeyKey = ''pagerDutyServiceKey''"

definition amSecretSMTPAuthPasswordKey :: string where
  [const_defs]: "amSecretSMTPAuthPasswordKey = ''smtpAuthPassword''"

definition egressNetworkPolicyName :: string where
  [const_defs]: "egressNetworkPolicyName = ''egress-rule''"

definition egressFirewallName :: string where
  [const_defs]: "egressFirewallName = ''default''"

section \<open>State\<close>

record smtpConfig =
  smtp_Endpoint :: string
  smtp_Username :: string
  smtp_Password :: string
  smtp_FromAddress :: string
  smtp_NotificationEmails :: "string list"

record pagerDutyConfig =
  pd_SOPEndpoint :: string
  pd_ServiceKey :: string

record remoteWriteConfig =
  rwc_BearerToken :: string

definition emptySmtpConfig :: smtpConfig where
  "emptySmtpConfig = \<lparr>smtp_Endpoint = '''', smtp_Username = '''', smtp_Password = '''',
     smtp_FromAddress = '''', smtp_NotificationEmails = []\<rparr>"

definition emptyPagerDutyConfig :: pagerDutyConfig where
  "emptyPagerDutyConfig = \<lparr>pd_SOPEndpoint = '''', pd_ServiceKey = ''''\<rparr>"

text \<open>
  YAML is the host's too (\<open>gopkg.in/yaml.v2\<close>). \<open>yaml.Unmarshal\<close> decodes into a fresh
  struct: it returns what it filled in and possibly an error.
\<close>

record alertRelabelRule =
  ar_SourceLabels :: "string list"
  ar_TargetLabel :: string
  ar_Replacement :: string

record 'w agent_host = "'w host" +
  yaml_pagerDuty :: "string \<Rightarrow> pagerDutyConfig \<times> gerror option"
  yaml_smtp :: "string \<Rightarrow> smtpConfig \<times> gerror option"
  yaml_remoteWrite :: "string \<Rightarrow> remoteWriteConfig \<times> gerror option"
  yaml_Marshal :: "alertRelabelRule list \<Rightarrow> gerror + string"

text \<open>
  \<open>ManagedFusionReconciler\<close>. The scheme is \<open>agentScheme\<close>; the unrestricted client is never
  used. The objects behind the struct's pointers are held by value: no two fields share one.
\<close>

record 'w agent = "('w, call) env" +
  agentNamespace :: string
  AvailableCRDs :: "(string, bool) fmap"
  CustomerNotificationHTMLPath :: string
  prometheus :: obj
  prometheusKubeRBACConfigMap :: obj
  prometheusService :: obj
  prometheusProxyNetworkPolicy :: obj
  alertmanager :: obj
  alertmanagerConfig :: obj
  alertmanagerSecret :: obj
  alertRelabelConfigSecret :: obj
  k8sMetricsServiceMonitor :: obj
  managedFusionSecret :: obj
  smtpConfigData :: smtpConfig
  pagerDutyConfigData :: pagerDutyConfig
  egressNetworkPolicy :: obj
  egressFirewall :: obj
  remoteWriteConfigData :: "remoteWriteConfig option"

type_synonym ('w, 'a) agent_prog = "('w agent, 'a) prog"

text \<open>\<open>initReconciler\<close>; \<open>remoteWriteConfigData\<close> is not among the fields it resets.\<close>

definition initReconciler :: "('w, unit) agent_prog" where
  [prog_unfold]: "initReconciler = modify (\<lambda>r.
     let ns = agentNamespace r in
     r\<lparr>managedFusionSecret := named KSecret managedFusionSecretName ns,
       prometheus := named KPrometheus prometheusName ns,
       prometheusKubeRBACConfigMap := named KConfigMap PrometheusKubeRBACPoxyConfigMapName ns,
       prometheusService := named KService prometheusServiceName ns,
       k8sMetricsServiceMonitor := named KServiceMonitor k8sMetricsServiceMonitorName ns,
       prometheusProxyNetworkPolicy := named KNetworkPolicy prometheusProxyNetworkPolicyName ns,
       alertmanager := named KAlertmanager alertmanagerName ns,
       alertmanagerSecret := named KSecret alertmanagerSecretName ns,
       alertmanagerConfig := named KAlertmanagerConfig alertmanagerConfigName ns,
       alertRelabelConfigSecret := named KSecret alertRelabelConfigSecretName ns,
       egressNetworkPolicy := named KEgressNetworkPolicy egressNetworkPolicyName ns,
       egressFirewall := named KEgressFirewall egressFirewallName ns,
       smtpConfigData := emptySmtpConfig,
       pagerDutyConfigData := emptyPagerDutyConfig\<rparr>)"

text \<open>\<open>own\<close>: the configuration secret becomes the controller of a resource.\<close>

definition own :: "('w, 'z) agent_scheme \<Rightarrow> obj \<Rightarrow> gerror + obj" where
  [prog_unfold]: "own r = SetControllerReference agentScheme (managedFusionSecret r)"

text \<open>\<open>createOrUpdate\<close> of an owned object with a closure that has no effects beside its object.\<close>

definition createOrUpdatePure ::
  "('w, 'y) client_scheme \<Rightarrow> ('w agent \<Rightarrow> obj) \<Rightarrow> ((obj \<Rightarrow> obj) \<Rightarrow> 'w agent \<Rightarrow> 'w agent) \<Rightarrow>
   ('w agent \<Rightarrow> obj \<Rightarrow> obj outcome) \<Rightarrow> ('w, unit) agent_prog" where
  [prog_unfold]: "createOrUpdatePure x field field_update h =
     createOrUpdate x field field_update (\<lambda>r ob. liftOutcome (withOwner (own r) (h r) ob))"

definition getCSVByPrefix ::
  "('w, 'y) client_scheme \<Rightarrow> string \<Rightarrow> ('w, obj) agent_prog" where
  [prog_unfold]: "getCSVByPrefix x name =
     bindM (gets agentNamespace) (\<lambda>ns. csvInNamespace x ns name)"

section \<open>Prometheus\<close>

text \<open>
  The image of the \<open>kube-rbac-proxy\<close> container of the controller manager's deployment; a
  missing deployment is a nil dereference.
\<close>

definition kubeRbacImage :: "obj \<Rightarrow> string outcome" where
  [prog_unfold]: "kubeRbacImage agentCSV =
     (case lastMatch (\<lambda>d. sd_Name d = ''managed-fusion-controller-manager'') None
             (csvDeployments agentCSV) of
        None \<Rightarrow> Crash ''nil pointer dereference''
      | Some deployment \<Rightarrow>
          (case lastMatch (\<lambda>c. ct_Name c = ''kube-rbac-proxy'') None (sd_Containers deployment) of
             None \<Rightarrow> Ok ''''
           | Some container \<Rightarrow> Ok (ct_Image container)))"

definition withKubeRbacImage :: "string \<Rightarrow> Container list \<Rightarrow> Container list" where
  "withKubeRbacImage img cs =
     map (\<lambda>c. if ct_Name c = ''kube-rbac-proxy'' then c\<lparr>ct_Image := img\<rparr> else c) cs"

definition emptyRemoteWriteSpec :: RemoteWriteSpec where
  "emptyRemoteWriteSpec = \<lparr>rw_URL = '''', rw_BearerToken = '''', rw_WriteRelabelConfigs = []\<rparr>"

definition remoteWrites ::
  "remoteWriteConfig option \<Rightarrow> RemoteWriteSpec list \<Rightarrow> RemoteWriteSpec list outcome" where
  "remoteWrites cfg writes =
     (case cfg of
        Some c \<Rightarrow>
          if rwc_BearerToken c = ''''
          then Err (ErrorNew ''invalid remote write bearer token, empty string'')
          else atFirst (\<lambda>rw. Ok (rw\<lparr>rw_BearerToken := rwc_BearerToken c\<rparr>)) writes
      | None \<Rightarrow> atFirst (\<lambda>_. Ok emptyRemoteWriteSpec) writes)"

definition prometheusSpec ::
  "('w, 'z) agent_scheme \<Rightarrow> string \<Rightarrow> string \<Rightarrow> PrometheusSpec outcome" where
  "prometheusSpec r img clusterId =
     bindO (goMapSet (ps_ExternalLabels PrometheusTemplate) ''clusterId'' clusterId) (\<lambda>labels.
     bindO (remoteWrites (remoteWriteConfigData r) (ps_RemoteWrite PrometheusTemplate)) (\<lambda>writes.
     bindO (atPointer (atFirst (\<lambda>am. Ok (am\<lparr>ame_Namespace := agentNamespace r\<rparr>)))
              (ps_Alerting PrometheusTemplate)) (\<lambda>alerting.
     Ok (PrometheusTemplate\<lparr>
           ps_Containers := withKubeRbacImage img (ps_Containers PrometheusTemplate),
           ps_ExternalLabels := labels,
           ps_RemoteWrite := writes,
           ps_Alerting := alerting,
           ps_AdditionalAlertRelabelConfigs :=
             Some \<lparr>sks_Name = alertRelabelConfigSecretName, sks_Key = alertRelabelConfigSecretKey\<rparr>\<rparr>))))"

definition reconcilePrometheus :: "('w, 'y) client_scheme \<Rightarrow> ('w, unit) agent_prog" where
  [prog_unfold]: "reconcilePrometheus x =
     wrapErr ''failed to update Prometheus'' (createOrUpdate x prometheus prometheus_update (\<lambda>r ob.
       bindM (liftSum (own r ob)) (\<lambda>ob.
       let ob = AddLabel ob monLabelKey monLabelValue in
       bindM (wrapErr ''unable to set image for kube-rbac-proxy container''
                (getCSVByPrefix x agentCSVPrefix)) (\<lambda>agentCSV.
       bindM (liftOutcome (kubeRbacImage agentCSV)) (\<lambda>img.
       bindM (client_get x KClusterVersion (''version'', '''')) (\<lambda>clusterVersion.
       bindM (liftOutcome (prometheusSpec r img (clusterID clusterVersion))) (\<lambda>spec.
       ret (setBody (Prometheus spec) ob))))))))"

section \<open>Alertmanager\<close>

definition alertmanagerSpec :: AlertmanagerSpec where
  "alertmanagerSpec = AlertmanagerTemplate\<lparr>as_AlertmanagerConfigSelector :=
     Some \<lparr>ls_MatchLabels = fmupd monLabelKey monLabelValue fmempty, ls_MatchExpressions = []\<rparr>\<rparr>"

definition reconcileAlertmanager :: "('w, 'y) client_scheme \<Rightarrow> ('w, unit) agent_prog" where
  [prog_unfold]: "reconcileAlertmanager x =
     createOrUpdatePure x alertmanager alertmanager_update
       (\<lambda>r. fillLabelled (Alertmanager alertmanagerSpec))"

definition alertmanagerSecretData :: "('w, 'z) agent_scheme \<Rightarrow> smap option" where
  "alertmanagerSecretData r =
     Some (fmupd amSecretPagerDutyServiceKeyKey (pd_ServiceKey (pagerDutyConfigData r))
          (fmupd amSecretSMTPAuthPasswordKey (smtp_Password (smtpConfigData r)) fmempty))"

definition fillAlertmanagerSecret :: "('w, 'z) agent_scheme \<Rightarrow> obj \<Rightarrow> obj outcome" where
  [prog_unfold]: "fillAlertmanagerSecret r ob =
     (if pd_ServiceKey (pagerDutyConfigData r) = ''''
      then Err (ErrorNew ''agent PagerDuty configuration does not contain serviceKey entry'')
      else if smtp_Password (smtpConfigData r) = ''''
      then Err (ErrorNew ''agent SMTP configuration does not contain password entry'')
      else Ok (setBody (Secret (alertmanagerSecretData r)) ob))"

definition reconcileAlertmanagerSecret :: "('w, 'y) client_scheme \<Rightarrow> ('w, unit) agent_prog" where
  [prog_unfold]: "reconcileAlertmanagerSecret x =
     createOrUpdatePure x alertmanagerSecret alertmanagerSecret_update fillAlertmanagerSecret"

text \<open>One round of the loop over the receivers of the template.\<close>

definition setPagerDuty :: "string \<Rightarrow> string \<Rightarrow> PagerDutyConfig \<Rightarrow> PagerDutyConfig outcome" where
  "setPagerDuty secretName sopEndpoint pd =
     bindO (atPointer (\<lambda>_. Ok \<lparr>sks_Name = secretName, sks_Key = amSecretPagerDutyServiceKeyKey\<rparr>)
              (pdc_ServiceKey pd)) (\<lambda>key.
     bindO (atFirst (\<lambda>_. Ok (''SOP'', sopEndpoint)) (pdc_Details pd)) (\<lambda>details.
     Ok (pd\<lparr>pdc_ServiceKey := key, pdc_Details := details\<rparr>)))"

definition setEmail ::
  "string \<Rightarrow> string \<Rightarrow> string \<Rightarrow> smtpConfig \<Rightarrow> EmailConfig \<Rightarrow> EmailConfig outcome" where
  "setEmail secretName host html cfg em =
     bindO (atPointer (\<lambda>_. Ok \<lparr>sks_Name = secretName, sks_Key = amSecretSMTPAuthPasswordKey\<rparr>)
              (ec_AuthPassword em)) (\<lambda>password.
     Ok (em\<lparr>ec_Smarthost := host, ec_AuthUsername := smtp_Username cfg, ec_AuthPassword := password,
            ec_From := smtp_FromAddress cfg, ec_To := Join (smtp_NotificationEmails cfg) '', '',
            ec_HTML := html\<rparr>))"

definition setReceiver ::
  "('w, 'z) agent_scheme \<Rightarrow> string \<Rightarrow> string \<Rightarrow> Receiver \<Rightarrow> Receiver outcome" where
  "setReceiver r host html receiver =
     (let secretName = Name (meta (alertmanagerSecret r)) in
      if rcv_Name receiver = ''pagerduty'' then
        bindO (atFirst (setPagerDuty secretName (pd_SOPEndpoint (pagerDutyConfigData r)))
                 (rcv_PagerDutyConfigs receiver)) (\<lambda>pds.
        Ok (receiver\<lparr>rcv_PagerDutyConfigs := pds\<rparr>))
      else if rcv_Name receiver = ''SendGrid'' then
        (if length (smtp_NotificationEmails (smtpConfigData r)) > 0 then
           bindO (atFirst (setEmail secretName host html (smtpConfigData r))
                    (rcv_EmailConfigs receiver)) (\<lambda>ems.
           Ok (receiver\<lparr>rcv_EmailConfigs := ems\<rparr>))
         else Ok (receiver\<lparr>rcv_EmailConfigs := []\<rparr>))
      else Ok receiver)"

definition alertmanagerConfigSpec ::
  "('w, 'z) agent_scheme \<Rightarrow> string \<Rightarrow> string \<Rightarrow> AlertmanagerConfigSpec outcome" where
  "alertmanagerConfigSpec r host html =
     bindO (mapO (setReceiver r host html) (acs_Receivers AlertmanagerConfigTemplate)) (\<lambda>receivers.
     Ok (AlertmanagerConfigTemplate\<lparr>acs_Receivers := receivers\<rparr>))"

definition reconcileAlertmanagerConfig :: "('w, 'y) host_scheme \<Rightarrow> ('w, unit) agent_prog" where
  [prog_unfold]: "reconcileAlertmanagerConfig x =
     createOrUpdate x alertmanagerConfig alertmanagerConfig_update (\<lambda>r ob.
       bindM (liftSum (own r ob)) (\<lambda>ob.
       if pd_SOPEndpoint (pagerDutyConfigData r) = ''''
       then fail (ErrorNew ''agent PagerDuty configuration does not contain sopEndpoint entry'')
       else if smtp_Username (smtpConfigData r) = ''''
       then fail (ErrorNew ''agent SMTP configuration does not contain username entry'')
       else if smtp_Endpoint (smtpConfigData r) = ''''
       then fail (ErrorNew ''agent SMTP configuration does not contain endpoint entry'')
       else if smtp_FromAddress (smtpConfigData r) = ''''
       then fail (ErrorNew ''agent SMTP configuration does not contain fromAddress entry'')
       else
         bindM (wrapErr ''unable to read customernotification.html file''
                  (host_readFile x (CustomerNotificationHTMLPath r))) (\<lambda>smtpHTML.
         bindM (wrapErr ''unable to parse SMTP Endpoint url''
                  (liftSum (ParseRequestURI (smtp_Endpoint (smtpConfigData r))))) (\<lambda>smtpURL.
         if url_Host smtpURL = ''''
         then fail (ErrorNew ''cannot retrieve host, might be a malformed or partial URL'')
         else
           bindM (liftOutcome (alertmanagerConfigSpec r (url_Host smtpURL) smtpHTML)) (\<lambda>spec.
           ret (AddLabel (setBody (AlertmanagerConfig spec) ob) monLabelKey monLabelValue))))))"

section \<open>Alert relabelling, proxy configuration, service, monitor, network policy\<close>

definition alertRelabelConfig :: "string \<Rightarrow> alertRelabelRule list" where
  "alertRelabelConfig ns =
     [\<lparr>ar_SourceLabels = [''namespace''], ar_TargetLabel = ''alertnamespace'', ar_Replacement = ''''\<rparr>,
      \<lparr>ar_SourceLabels = [], ar_TargetLabel = ''namespace'', ar_Replacement = ns\<rparr>]"

definition fillAlertRelabelConfigSecret ::
  "('w, 'y) agent_host_scheme \<Rightarrow> ('w, 'z) agent_scheme \<Rightarrow> obj \<Rightarrow> obj outcome" where
  [prog_unfold]: "fillAlertRelabelConfigSecret x r ob =
     (case yaml_Marshal x (alertRelabelConfig (agentNamespace r)) of
        Inl err \<Rightarrow> Err (Errorf ''unable to encode alert relabel conifg'' err)
      | Inr config \<Rightarrow>
          Ok (setBody (Secret (Some (fmupd alertRelabelConfigSecretKey config fmempty))) ob))"

definition reconcileAlertRelabelConfigSecret ::
  "('w, 'y) agent_host_scheme \<Rightarrow> ('w, unit) agent_prog" where
  [prog_unfold]: "reconcileAlertRelabelConfigSecret x =
     wrapErr ''unable to create/update AlertRelabelConfigSecret''
       (createOrUpdatePure x alertRelabelConfigSecret alertRelabelConfigSecret_update
          (fillAlertRelabelConfigSecret x))"

definition reconcilePrometheusKubeRBACConfigMap ::
  "('w, 'y) client_scheme \<Rightarrow> ('w, unit) agent_prog" where
  [prog_unfold]: "reconcilePrometheusKubeRBACConfigMap x =
     wrapErr ''unable to create kubeRBACConfig config map''
       (createOrUpdatePure x prometheusKubeRBACConfigMap prometheusKubeRBACConfigMap_update
          (\<lambda>r. fillBody (ConfigMap KubeRBACProxyConfigMap)))"

text \<open>The service keeps the fields of its spec the code does not set (its cluster address).\<close>

definition prometheusServicePorts :: "ServicePort list" where
  "prometheusServicePorts =
     [\<lparr>sp_Name = ''https'', sp_Protocol = ''TCP'', sp_Port = int KubeRBACProxyPortNumber,
       sp_TargetPort = FromString ''https''\<rparr>]"

definition setServiceSpec :: "obj \<Rightarrow> obj" where
  "setServiceSpec ob =
     (case body ob of
        Service spec \<Rightarrow>
          setBody (Service (spec\<lparr>sv_Ports := prometheusServicePorts,
            sv_Selector := fmupd ''app.kubernetes.io/name'' (Name (meta ob)) fmempty\<rparr>)) ob
      | _ \<Rightarrow> ob)"

definition fillPrometheusService :: "obj \<Rightarrow> obj outcome" where
  [prog_unfold]: "fillPrometheusService ob =
     Ok (AddLabel
          (AddAnnotation
            (AddAnnotation (setServiceSpec ob)
               ''service.beta.openshift.io/serving-cert-secret-name'' PrometheusServingCertSecretName)
            ''service.alpha.openshift.io/serving-cert-secret-name'' PrometheusServingCertSecretName)
          monLabelKey monLabelValue)"

definition reconcilePrometheusService :: "('w, 'y) client_scheme \<Rightarrow> ('w, unit) agent_prog" where
  [prog_unfold]: "reconcilePrometheusService x =
     createOrUpdatePure x prometheusService prometheusService_update (\<lambda>r. fillPrometheusService)"

definition reconcileK8SMetricsServiceMonitor ::
  "('w, 'y) client_scheme \<Rightarrow> ('w, unit) agent_prog" where
  [prog_unfold]: "reconcileK8SMetricsServiceMonitor x =
     wrapErr ''failed to update k8sMetricsServiceMonitor''
       (createOrUpdatePure x k8sMetricsServiceMonitor k8sMetricsServiceMonitor_update
          (\<lambda>r. fillLabelled (ServiceMonitor K8sMetricsServiceMonitorTemplate)))"

definition reconcilePrometheusProxyNetworkPolicy ::
  "('w, 'y) client_scheme \<Rightarrow> ('w, unit) agent_prog" where
  [prog_unfold]: "reconcilePrometheusProxyNetworkPolicy x =
     wrapErr ''failed to update prometheus proxy NetworkPolicy''
       (createOrUpdatePure x prometheusProxyNetworkPolicy prometheusProxyNetworkPolicy_update
          (\<lambda>r. fillBody (NetworkPolicy PrometheusProxyNetworkPolicyTemplate)))"

section \<open>Egress\<close>

definition getEgressFirewallDesiredState ::
  "('w, 'y) client_scheme \<Rightarrow> ('w, EgressFirewallRule list) agent_prog" where
  [prog_unfold]: "getEgressFirewallDesiredState x =
     bindM (gets (\<lambda>r. r)) (\<lambda>r.
     bindM (wrapErr ''unable to get AWS IMDS ConfigMap''
              (client_get x KConfigMap (IMDSConfigMapName, agentNamespace r))) (\<lambda>imdsConfigMap.
     case goMapGet (configMapData imdsConfigMap) CIDRKey of
       None \<Rightarrow> fail (ErrorNew ''unable to determine machine CIDR from AWS IMDS ConfigMap'')
     | Some vpcCIDR \<Rightarrow>
         bindM (wrapErr ''unable to parse SMTP Endpoint url''
                  (liftSum (ParseRequestURI (smtp_Endpoint (smtpConfigData r))))) (\<lambda>smtpURL.
         if Hostname smtpURL = ''''
         then fail (ErrorNew ''cannot retrieve hostname, might be a malformed or partial URL'')
         else ret (desiredEgress vpcCIDR (Hostname smtpURL)))))"

definition reconcileEgressFirewall :: "('w, 'y) client_scheme \<Rightarrow> ('w, unit) agent_prog" where
  [prog_unfold]: "reconcileEgressFirewall x =
     bindM (gets (\<lambda>r. crdAvailable (AvailableCRDs r) EgressFirewallCRD)) (\<lambda>available.
       if \<not> available then ret ()
       else wrapErr ''failed to update egressFirewall''
         (createOrUpdate x egressFirewall egressFirewall_update (\<lambda>r ob.
            bindM (liftSum (own r ob)) (\<lambda>ob.
            bindM (getEgressFirewallDesiredState x) (\<lambda>rules.
            ret (setBody (EgressFirewall rules) ob))))))"

definition reconcileEgressNetworkPolicy :: "('w, 'y) client_scheme \<Rightarrow> ('w, unit) agent_prog" where
  [prog_unfold]: "reconcileEgressNetworkPolicy x =
     bindM (gets (\<lambda>r. crdAvailable (AvailableCRDs r) EgressNetworkPolicyCRD)) (\<lambda>available.
       if \<not> available then ret ()
       else wrapErr ''failed to update egressNetworkPolicy''
         (createOrUpdate x egressNetworkPolicy egressNetworkPolicy_update (\<lambda>r ob.
            bindM (liftSum (own r ob)) (\<lambda>ob.
            bindM (getEgressFirewallDesiredState x) (\<lambda>rules.
            ret (setBody
                  (EgressNetworkPolicy (egressFirewallSpecToEgressNetworkPolicySpec rules)) ob))))))"

section \<open>Uninstallation\<close>

definition initiateAgentUninstallation :: "('w, 'y) client_scheme \<Rightarrow> ('w, unit) agent_prog" where
  [prog_unfold]: "initiateAgentUninstallation x =
     bindM (gets agentNamespace) (\<lambda>ns.
       wrapErr ''failed to delete namespace'' (deleteObj x KNamespace (ns, '''')))"

end
