(* ===== verification/Agent_Reconcile.thy ===== *)
theory Agent_Reconcile
  imports Agent
begin

text \<open>
  The phases of the agent's reconciler and its entry point: uninstallation, the finalizer,
  the order of the resources, and the validation of the configuration secret.
\<close>

section \<open>Uninstallation of the offerings\<close>

text \<open>
  The loop over the offerings: each one not yet terminating is deleted; errors are
  collected and the loop goes on.
\<close>

fun deleteOfferings ::
  "('w, 'y) client_scheme \<Rightarrow> obj list \<Rightarrow> bool \<Rightarrow> gerror list \<Rightarrow> ('w, bool \<times> gerror list) agent_prog" where
  "deleteOfferings x [] found errs = ret (found, errs)"
| "deleteOfferings x (offering # rest) found errs =
     (if IsZero (DeletionTimestamp (meta offering)) then
        bindM (tryM (deleteObj x KManagedFusionOffering (ObjectKeyFromObject offering))) (\<lambda>res.
          case res of
            Inl err \<Rightarrow>
              deleteOfferings x rest True
                (errs @ [Errorf ''failed to delete ManagedFusionOffering CR'' err])
          | Inr _ \<Rightarrow> deleteOfferings x rest True errs)
      else deleteOfferings x rest found errs)"

text \<open>The literal 10 of the source is a \<open>time.Duration\<close>: ten nanoseconds.\<close>

definition uninstallPhase :: "('w, 'y) client_scheme \<Rightarrow> ('w, ctrl_Result) agent_prog" where
  [prog_unfold]: "uninstallPhase x =
     bindM (wrapErr ''failed to list ManagedFusionOffering CRs''
              (client_list x KManagedFusionOffering None None)) (\<lambda>items.
       if length items > 0 then
         bindM (deleteOfferings x items False []) (\<lambda>(found, errs).
           if length errs > 0
           then fail (ErrorfList ''failed to issue delete for one or more ManagedFusionOffering CRs'' errs)
           else if found then ret (noRequeue\<lparr>RequeueAfter := 10\<rparr>)
           else ret noRequeue)
       else
         bindM (gets (\<lambda>r. RemoveFinalizer (managedFusionSecret r) managedFusionFinalizer)) (\<lambda>(removed, sec).
         thenM (if removed then
                  bindM (wrapErr ''failed to remove finalizer from secret'' (client_update x sec))
                    (\<lambda>sec'. modify (managedFusionSecret_update (\<lambda>_. sec')))
                else ret ())
         (thenM (wrapErr ''failed to initiate agent uninstallation'' (initiateAgentUninstallation x))
         (ret noRequeue))))"

section \<open>Installation\<close>

definition finalizerPhase :: "('w, 'y) client_scheme \<Rightarrow> ('w, unit) agent_prog" where
  [prog_unfold]: "finalizerPhase x =
     bindM (gets (\<lambda>r. AddFinalizer (managedFusionSecret r) managedFusionFinalizer)) (\<lambda>(added, sec).
       if added then
         bindM (wrapErr ''failed to update secret with finalizer'' (client_update x sec))
           (\<lambda>sec'. modify (managedFusionSecret_update (\<lambda>_. sec')))
       else ret ())"

definition resourcePhases :: "('w, 'y) agent_host_scheme \<Rightarrow> ('w, unit) agent_prog" where
  "resourcePhases x =
     thenM (reconcileAlertRelabelConfigSecret x)
     (thenM (reconcilePrometheusKubeRBACConfigMap x)
     (thenM (reconcilePrometheusService x)
     (thenM (reconcilePrometheus x)
     (thenM (reconcileAlertmanager x)
     (thenM (reconcileAlertmanagerSecret x)
     (thenM (reconcileAlertmanagerConfig x)
     (thenM (reconcileK8SMetricsServiceMonitor x)
     (thenM (reconcilePrometheusProxyNetworkPolicy x)
     (thenM (reconcileEgressFirewall x)
     (reconcileEgressNetworkPolicy x))))))))))"

definition reconcilePhases :: "('w, 'y) agent_host_scheme \<Rightarrow> ('w, ctrl_Result) agent_prog" where
  "reconcilePhases x =
     bindM (gets managedFusionSecret) (\<lambda>sec.
       if \<not> IsZero (DeletionTimestamp (meta sec)) then uninstallPhase x
       else if UID (meta sec) \<noteq> '''' then
         thenM (finalizerPhase x) (thenM (resourcePhases x) (ret noRequeue))
       else ret noRequeue)"

section \<open>Reconcile\<close>

text \<open>
  The entries of the secret: the first two are required, the third is optional and replaces
  \<open>remoteWriteConfigData\<close> only when it is there.
\<close>

definition loadPagerDuty :: "('w, 'y) agent_host_scheme \<Rightarrow> ('w, unit) agent_prog" where
  [prog_unfold]: "loadPagerDuty x =
     bindM (gets (\<lambda>r. goMapGet (secretData (managedFusionSecret r)) ''pager_duty_config'')) (\<lambda>config.
       case config of
         None \<Rightarrow> fail (ErrorNew ''secret does not contain pager_duty_config entry'')
       | Some c \<Rightarrow>
           (case yaml_pagerDuty x c of (data, err) \<Rightarrow>
             thenM (modify (pagerDutyConfigData_update (\<lambda>_. data)))
               (case err of None \<Rightarrow> ret ()
                | Some e \<Rightarrow> fail (Errorf ''failed to unmarshal agent pager_duty_config'' e))))"

definition loadSmtp :: "('w, 'y) agent_host_scheme \<Rightarrow> ('w, unit) agent_prog" where
  [prog_unfold]: "loadSmtp x =
     bindM (gets (\<lambda>r. goMapGet (secretData (managedFusionSecret r)) ''smtp_config'')) (\<lambda>config.
       case config of
         None \<Rightarrow> fail (ErrorNew ''secret does not contain smtp_config entry'')
       | Some c \<Rightarrow>
           (case yaml_smtp x c of (data, err) \<Rightarrow>
             thenM (modify (smtpConfigData_update (\<lambda>_. data)))
               (case err of None \<Rightarrow> ret ()
                | Some e \<Rightarrow> fail (Errorf ''failed to unmarshal agent smpt_config'' e))))"

definition loadRemoteWrite :: "('w, 'y) agent_host_scheme \<Rightarrow> ('w, unit) agent_prog" where
  [prog_unfold]: "loadRemoteWrite x =
     bindM (gets (\<lambda>r. goMapGet (secretData (managedFusionSecret r)) ''remote_write_config'')) (\<lambda>config.
       case config of
         None \<Rightarrow> ret ()
       | Some c \<Rightarrow>
           (case yaml_remoteWrite x c of (data, err) \<Rightarrow>
             thenM (modify (remoteWriteConfigData_update (\<lambda>_. Some data)))
               (case err of None \<Rightarrow> ret ()
                | Some e \<Rightarrow> fail (Errorf ''failed to unmarshal agent remote_write_config'' e))))"

definition loadSecret :: "('w, 'y) client_scheme \<Rightarrow> ('w, bool) agent_prog" where
  [prog_unfold]: "loadSecret x =
     bindM (gets (\<lambda>r. ObjectKeyFromObject (managedFusionSecret r))) (\<lambda>key.
     bindM (tryM (client_get x KSecret key)) (\<lambda>got.
       case got of
         Inl err \<Rightarrow> if IsNotFound err then ret False
                    else fail (Errorf ''failed to get secret'' err)
       | Inr sec \<Rightarrow> thenM (modify (managedFusionSecret_update (\<lambda>_. sec))) (ret True)))"

definition Reconcile :: "('w, 'y) agent_host_scheme \<Rightarrow> ('w, ctrl_Result) agent_prog" where
  "Reconcile x =
     thenM initReconciler
     (bindM (loadSecret x) (\<lambda>found.
       if \<not> found then ret noRequeue
       else
         thenM (loadPagerDuty x)
         (thenM (loadSmtp x)
         (thenM (loadRemoteWrite x)
         (reconcilePhases x)))))"

end
