(* ===== verification/Agent_Calls.thy ===== *)
theory Agent_Calls
  imports Agent_Reconcile
begin

text \<open>
  Which calls the agent's reconciler issues: the contracts of the closures it hands to
  \<open>CreateOrUpdate\<close>, the phases that never delete, and the keys it writes at.
\<close>

section \<open>The closures meet the contracts\<close>

interpretation agent_owner: owner_setter "own r" for r :: "('w, 'z) agent_scheme"
  unfolding own_def by (rule controller_owner.owner_setter_axioms)

interpretation alertmanager_fill:
  owned_setter "own r" KAlertmanager "fillLabelled (Alertmanager alertmanagerSpec)"
  for r :: "('w, 'z) agent_scheme"
  by (intro owned_setter.intro agent_owner.owner_setter_axioms fillLabelled_content) simp

interpretation rbac_config_fill:
  owned_setter "own r" KConfigMap "fillBody (ConfigMap KubeRBACProxyConfigMap)"
  for r :: "('w, 'z) agent_scheme"
  by (intro owned_setter.intro agent_owner.owner_setter_axioms fillBody_content) simp

interpretation metrics_monitor_fill:
  owned_setter "own r" KServiceMonitor "fillLabelled (ServiceMonitor K8sMetricsServiceMonitorTemplate)"
  for r :: "('w, 'z) agent_scheme"
  by (intro owned_setter.intro agent_owner.owner_setter_axioms fillLabelled_content) simp

interpretation proxy_policy_fill:
  owned_setter "own r" KNetworkPolicy "fillBody (NetworkPolicy PrometheusProxyNetworkPolicyTemplate)"
  for r :: "('w, 'z) agent_scheme"
  by (intro owned_setter.intro agent_owner.owner_setter_axioms fillBody_content) simp

interpretation relabel_secret_fill:
  owned_setter "own r" KSecret "fillAlertRelabelConfigSecret x r"
  for r :: "('w, 'z) agent_scheme" and x :: "('w, 'y) agent_host_scheme"
  by unfold_locales (auto simp: fillAlertRelabelConfigSecret_def split: sum.splits)

interpretation alertmanager_secret_fill:
  owned_setter "own r" KSecret "fillAlertmanagerSecret r"
  for r :: "('w, 'z) agent_scheme"
  by unfold_locales (auto simp: fillAlertmanagerSecret_def split: if_splits)

lemma setServiceSpec_frame [simp]:
  "meta (setServiceSpec ob) = meta ob" "kind_of (setServiceSpec ob) = kind_of ob"
  "ObjectKeyFromObject (setServiceSpec ob) = ObjectKeyFromObject ob"
  by (auto simp: setServiceSpec_def kind_of_def split: obody.splits)

lemma setServiceSpec_settled:
  "body ob' = body (setServiceSpec ob) \<Longrightarrow> Name (meta ob') = Name (meta ob) \<Longrightarrow> setServiceSpec ob' = ob'"
  by (cases "body ob") (auto simp: setServiceSpec_def setBody_def)

interpretation prometheus_service_fill:
  owned_setter "own r" KService fillPrometheusService
  for r :: "('w, 'z) agent_scheme"
proof (unfold_locales, goal_cases)
  case (4 ob ob' u v)
  let ?a1 = "''service.beta.openshift.io/serving-cert-secret-name''"
  let ?a2 = "''service.alpha.openshift.io/serving-cert-secret-name''"
  have ob': "ob' = AddLabel (AddAnnotation (AddAnnotation (setServiceSpec ob) ?a1
      PrometheusServingCertSecretName) ?a2 PrometheusServingCertSecretName) monLabelKey monLabelValue"
    using 4 by (simp add: fillPrometheusService_def)
  have an: "goMapGet (Annotations (meta (stamp u v ob'))) a = Some PrometheusServingCertSecretName"
    if "a = ?a1 \<or> a = ?a2" for a
    using that by (auto simp: ob' AddLabel_def setLabels_def annotations.get_add)
  have lb: "goMapGet (Labels (meta (stamp u v ob'))) monLabelKey = Some monLabelValue"
    by (simp add: ob' labels.get_add)
  have sp: "setServiceSpec (stamp u v ob') = stamp u v ob'"
    by (rule setServiceSpec_settled [of _ ob])
      (simp_all add: ob' AddLabel_def AddAnnotation_def setLabels_def setAnnotations_def)
  show ?case
    unfolding fillPrometheusService_def sp
    by (simp only: annotations.add_settled [OF an [OF disjI1 [OF refl]]]
        annotations.add_settled [OF an [OF disjI2 [OF refl]]] labels.add_settled [OF lb])
qed (auto simp: fillPrometheusService_def)

section \<open>Phases that delete nothing\<close>

text \<open>
  A property of the reconciler that its resource phases keep: it does not look at the
  environment or at the objects the phases store.
\<close>

definition agent_frame :: "('w agent \<Rightarrow> bool) \<Rightarrow> bool" where
  "agent_frame I \<longleftrightarrow> env_stable I \<and>
     (\<forall>r ob. I r \<longrightarrow>
        I (r\<lparr>prometheus := ob\<rparr>) \<and> I (r\<lparr>prometheusKubeRBACConfigMap := ob\<rparr>) \<and>
        I (r\<lparr>prometheusService := ob\<rparr>) \<and> I (r\<lparr>prometheusProxyNetworkPolicy := ob\<rparr>) \<and>
        I (r\<lparr>alertmanager := ob\<rparr>) \<and> I (r\<lparr>alertmanagerConfig := ob\<rparr>) \<and>
        I (r\<lparr>alertmanagerSecret := ob\<rparr>) \<and> I (r\<lparr>alertRelabelConfigSecret := ob\<rparr>) \<and>
        I (r\<lparr>k8sMetricsServiceMonitor := ob\<rparr>) \<and> I (r\<lparr>managedFusionSecret := ob\<rparr>) \<and>
        I (r\<lparr>egressNetworkPolicy := ob\<rparr>) \<and> I (r\<lparr>egressFirewall := ob\<rparr>))"

lemma agent_frame_True [simp]: "agent_frame (\<lambda>_. True)"
  by (simp add: agent_frame_def)

abbreviation harmless :: "('w agent \<Rightarrow> bool) \<Rightarrow> ('w, 'a) agent_prog \<Rightarrow> bool" where
  "harmless I m \<equiv> emits I (\<lambda>c. \<not> is_delete c) m"

lemma harmless_createOrUpdate:
  assumes I: "env_stable I" and f: "\<And>r ob. harmless I (f r ob)"
    and upd: "\<And>r ob. calls (upd (\<lambda>_. ob) r) = calls r" "\<And>r ob. I r \<Longrightarrow> I (upd (\<lambda>_. ob) r)"
  shows "harmless I (createOrUpdate x field upd f)"
  unfolding createOrUpdate_def CreateOrUpdate_def mutate_def
  by (intro emits_rules emits_client_get emits_client_create emits_client_update emits_modify I f)
    (simp_all add: upd)

lemma harmless_createOrUpdatePure:
  assumes "env_stable I" and "\<And>r ob. calls (upd (\<lambda>_. ob) r) = calls r" "\<And>r ob. I r \<Longrightarrow> I (upd (\<lambda>_. ob) r)"
  shows "harmless I (createOrUpdatePure x field upd h)"
  unfolding createOrUpdatePure_def
  by (intro harmless_createOrUpdate emits_liftOutcome assms)

lemma harmless_calls:
  assumes "env_stable I"
  shows "harmless I (client_get x k key)" "harmless I (client_list x k n lim)"
    "harmless I (client_update x ob)" "harmless I (csvInNamespace x nsp name)"
    "harmless I (host_readFile h path)"
  by (intro emits_client_get emits_client_list emits_client_update emits_csvInNamespace
      emits_host_readFile assms; simp)+

lemma harmless_egress: "env_stable I \<Longrightarrow> harmless I (getEgressFirewallDesiredState x)"
  unfolding getEgressFirewallDesiredState_def by (intro emits_rules harmless_calls)

lemma frame_stable: "agent_frame I \<Longrightarrow> env_stable I"
  by (simp add: agent_frame_def)

lemma harmless_resources:
  assumes I: "agent_frame I"
  shows
    "harmless I (reconcileAlertRelabelConfigSecret x)"
    "harmless I (reconcilePrometheusKubeRBACConfigMap x)"
    "harmless I (reconcilePrometheusService x)"
    "harmless I (reconcilePrometheus x)"
    "harmless I (reconcileAlertmanager x)"
    "harmless I (reconcileAlertmanagerSecret x)"
    "harmless I (reconcileAlertmanagerConfig x)"
    "harmless I (reconcileK8SMetricsServiceMonitor x)"
    "harmless I (reconcilePrometheusProxyNetworkPolicy x)"
    "harmless I (reconcileEgressFirewall x)"
    "harmless I (reconcileEgressNetworkPolicy x)"
  unfolding reconcileAlertRelabelConfigSecret_def reconcilePrometheusKubeRBACConfigMap_def
    reconcilePrometheusService_def reconcilePrometheus_def reconcileAlertmanager_def
    reconcileAlertmanagerSecret_def reconcileAlertmanagerConfig_def
    reconcileK8SMetricsServiceMonitor_def reconcilePrometheusProxyNetworkPolicy_def
    reconcileEgressFirewall_def reconcileEgressNetworkPolicy_def getCSVByPrefix_def Let_def
  by (intro emits_rules harmless_createOrUpdate harmless_createOrUpdatePure harmless_egress
      harmless_calls frame_stable [OF I]; (insert I)?; simp add: agent_frame_def)+

lemma harmless_resourcePhases: "agent_frame I \<Longrightarrow> harmless I (resourcePhases x)"
  unfolding resourcePhases_def by (intro emits_thenM harmless_resources)

lemma harmless_finalizerPhase: "agent_frame I \<Longrightarrow> harmless I (finalizerPhase x)"
  unfolding finalizerPhase_def
  by (intro emits_rules harmless_calls emits_modify; (erule frame_stable)?; simp add: agent_frame_def)

lemmas nodelete_resources = harmless_resources [OF agent_frame_True]
lemmas nodelete_resourcePhases = harmless_resourcePhases [OF agent_frame_True]
lemmas nodelete_finalizerPhase = harmless_finalizerPhase [OF agent_frame_True]

lemma nodelete_modify:
  assumes "\<And>s. calls (f s) = calls s"
  shows "nodelete (modify f)"
  using assms by (intro emits_modify) auto

lemma nodelete_load:
  "nodelete initReconciler" "nodelete (loadSecret x)" "nodelete (loadPagerDuty x)" "nodelete (loadSmtp x)"
  "nodelete (loadRemoteWrite x)"
  unfolding initReconciler_def loadSecret_def loadPagerDuty_def loadSmtp_def loadRemoteWrite_def
  by (intro emits_rules nodelete_client nodelete_modify; simp add: Let_def)+

section \<open>The keys the reconciler writes at\<close>

definition keyOf :: "obj \<Rightarrow> kind \<times> nname" where
  "keyOf ob = (kind_of ob, ObjectKeyFromObject ob)"

definition agentKeys :: "string \<Rightarrow> (kind \<times> nname) set" where
  "agentKeys ns =
     {(KSecret, managedFusionSecretName, ns), (KPrometheus, prometheusName, ns),
      (KConfigMap, PrometheusKubeRBACPoxyConfigMapName, ns), (KService, prometheusServiceName, ns),
      (KServiceMonitor, k8sMetricsServiceMonitorName, ns),
      (KNetworkPolicy, prometheusProxyNetworkPolicyName, ns), (KAlertmanager, alertmanagerName, ns),
      (KSecret, alertmanagerSecretName, ns), (KAlertmanagerConfig, alertmanagerConfigName, ns),
      (KSecret, alertRelabelConfigSecretName, ns), (KEgressNetworkPolicy, egressNetworkPolicyName, ns),
      (KEgressFirewall, egressFirewallName, ns)}"

text \<open>The objects the reconciler holds have the names and kinds \<open>initReconciler\<close> gave them.\<close>

definition agentKeyed :: "string \<Rightarrow> 'w agent \<Rightarrow> bool" where
  "agentKeyed ns r \<longleftrightarrow>
     keyOf (managedFusionSecret r) = (KSecret, managedFusionSecretName, ns) \<and>
     keyOf (prometheus r) = (KPrometheus, prometheusName, ns) \<and>
     keyOf (prometheusKubeRBACConfigMap r) = (KConfigMap, PrometheusKubeRBACPoxyConfigMapName, ns) \<and>
     keyOf (prometheusService r) = (KService, prometheusServiceName, ns) \<and>
     keyOf (k8sMetricsServiceMonitor r) = (KServiceMonitor, k8sMetricsServiceMonitorName, ns) \<and>
     keyOf (prometheusProxyNetworkPolicy r) = (KNetworkPolicy, prometheusProxyNetworkPolicyName, ns) \<and>
     keyOf (alertmanager r) = (KAlertmanager, alertmanagerName, ns) \<and>
     keyOf (alertmanagerSecret r) = (KSecret, alertmanagerSecretName, ns) \<and>
     keyOf (alertmanagerConfig r) = (KAlertmanagerConfig, alertmanagerConfigName, ns) \<and>
     keyOf (alertRelabelConfigSecret r) = (KSecret, alertRelabelConfigSecretName, ns) \<and>
     keyOf (egressNetworkPolicy r) = (KEgressNetworkPolicy, egressNetworkPolicyName, ns) \<and>
     keyOf (egressFirewall r) = (KEgressFirewall, egressFirewallName, ns)"

lemma agentKeyed_stable [simp]: "env_stable (agentKeyed ns)"
  by (simp add: env_stable_def agentKeyed_def)

lemma agentKeyed_init: "agentKeyed (agentNamespace r) (snd (initReconciler r))"
  by (simp add: initReconciler_def modify_def agentKeyed_def keyOf_def Let_def)

definition agentCall :: "string \<Rightarrow> call \<Rightarrow> bool" where
  "agentCall ns c \<longleftrightarrow> is_delete c \<or> reads_or_puts (agentKeys ns) c"

abbreviation keyed :: "string \<Rightarrow> ('w, 'a) agent_prog \<Rightarrow> bool" where
  "keyed ns m \<equiv> emits (agentKeyed ns) (agentCall ns) m"

lemma agentCall_read: "is_read c \<Longrightarrow> agentCall ns c"
  by (simp add: agentCall_def)

lemma agentCall_puts: "puts_at k key c \<Longrightarrow> (k, key) \<in> agentKeys ns \<Longrightarrow> agentCall ns c"
  by (auto simp: agentCall_def reads_or_puts_def)

lemma keyed_client:
  "keyed ns (client_get x k key)" "keyed ns (client_list x k n lim)"
  by (auto intro!: emits_client_get emits_client_list agentCall_read)

lemma keyed_createOrUpdate:
  assumes x: "answers_keyed x"
    and field: "\<And>r. agentKeyed ns r \<Longrightarrow> keyOf (field r) = (k, key)" and mem: "(k, key) \<in> agentKeys ns"
    and f: "\<And>r ob. agentKeyed ns r \<Longrightarrow> keyed ns (f r ob)"
    and kind: "\<And>r o1. agentKeyed ns r \<Longrightarrow> kind_of o1 = k \<Longrightarrow> yields (\<lambda>o2. kind_of o2 = k) (f r o1)"
    and upd: "\<And>r ob. agentKeyed ns r \<Longrightarrow> keyOf ob = (k, key) \<Longrightarrow> agentKeyed ns (upd (\<lambda>_. ob) r)"
    and calls: "\<And>r ob. calls (upd (\<lambda>_. ob) r) = calls r"
  shows "keyed ns (createOrUpdate x field upd f :: ('w, unit) agent_prog)"
  unfolding createOrUpdate_def
proof (rule emits_bindM_post [where P = "agentKeyed ns"])
  fix r :: "'w agent" assume r: "agentKeyed ns r"
  have k: "kind_of (field r) = k" and key: "ObjectKeyFromObject (field r) = key"
    using field [OF r] by (simp_all add: keyOf_def)
  have yk: "yields (\<lambda>o2. kind_of o2 = kind_of (field r)) (f r o1)" if "kind_of o1 = kind_of (field r)" for o1
    using kind [OF r] that k by simp
  show "keyed ns (bindM (CreateOrUpdate x (field r) (f r)) (\<lambda>(_, ob). modify (upd (\<lambda>_. ob))))"
  proof (rule emits_bindM_yields)
    show "keyed ns (CreateOrUpdate x (field r) (f r))"
      by (rule emits_CreateOrUpdate [OF agentKeyed_stable _ _ f [OF r] yk])
        (simp_all add: k key agentCall_read agentCall_puts [OF _ mem])
    show "yields (\<lambda>(_, ob'). ObjectKeyFromObject ob' = ObjectKeyFromObject (field r) \<and> kind_of ob' = kind_of (field r))
      (CreateOrUpdate x (field r) (f r))"
      by (rule CreateOrUpdate_key [OF x yk])
  next
    fix p :: "OperationResult \<times> obj"
    assume "case p of (_, ob') \<Rightarrow> ObjectKeyFromObject ob' = ObjectKeyFromObject (field r) \<and> kind_of ob' = kind_of (field r)"
    then show "keyed ns (case p of (_, ob) \<Rightarrow> modify (upd (\<lambda>_. ob)))"
      by (cases p) (auto simp: k key keyOf_def intro!: emits_modify upd calls)
  qed
qed (rule emits_gets, simp add: gets_def)

lemma keyed_createOrUpdatePure:
  assumes "answers_keyed x"
    and "\<And>r. agentKeyed ns r \<Longrightarrow> keyOf (field r) = (k, key)" and "(k, key) \<in> agentKeys ns"
    and h: "\<And>r :: 'w agent. pure_mutator k (withOwner (own r) (h r))"
    and "\<And>r ob. agentKeyed ns r \<Longrightarrow> keyOf ob = (k, key) \<Longrightarrow> agentKeyed ns (upd (\<lambda>_. ob) r)"
    and "\<And>r ob. calls (upd (\<lambda>_. ob) r) = calls r"
  shows "keyed ns (createOrUpdatePure x field upd h :: ('w, unit) agent_prog)"
  unfolding createOrUpdatePure_def
proof (rule keyed_createOrUpdate [where k = k and key = key])
  show "yields (\<lambda>o2. kind_of o2 = k) (liftOutcome (withOwner (own r) (h r) o1))"
    if "kind_of o1 = k" for r :: "'w agent" and o1
    by (intro yields_liftOutcome) (rule pure_mutator.same_kind [OF h that])
qed (use assms in \<open>auto intro: emits_liftOutcome\<close>)

text \<open>How the fields are kept: each update lemma is one line over \<open>agentKeyed_def\<close>.\<close>

lemma agentKeys_mem [simp]:
  "(KSecret, managedFusionSecretName, ns) \<in> agentKeys ns"
  "(KSecret, alertmanagerSecretName, ns) \<in> agentKeys ns"
  "(KSecret, alertRelabelConfigSecretName, ns) \<in> agentKeys ns"
  "(KConfigMap, PrometheusKubeRBACPoxyConfigMapName, ns) \<in> agentKeys ns"
  "(KService, prometheusServiceName, ns) \<in> agentKeys ns"
  "(KPrometheus, prometheusName, ns) \<in> agentKeys ns"
  "(KAlertmanager, alertmanagerName, ns) \<in> agentKeys ns"
  "(KAlertmanagerConfig, alertmanagerConfigName, ns) \<in> agentKeys ns"
  "(KServiceMonitor, k8sMetricsServiceMonitorName, ns) \<in> agentKeys ns"
  "(KNetworkPolicy, prometheusProxyNetworkPolicyName, ns) \<in> agentKeys ns"
  "(KEgressFirewall, egressFirewallName, ns) \<in> agentKeys ns"
  "(KEgressNetworkPolicy, egressNetworkPolicyName, ns) \<in> agentKeys ns"
  by (simp_all add: agentKeys_def)

lemma keyed_csv: "keyed ns (csvInNamespace x n name)"
  by (intro emits_csvInNamespace agentKeyed_stable) (simp add: agentCall_read)

lemma keyed_readFile: "keyed ns (host_readFile x path)"
  by (intro emits_host_readFile agentKeyed_stable) (simp add: agentCall_read)

lemma keyed_egress: "keyed ns (getEgressFirewallDesiredState x)"
  unfolding getEgressFirewallDesiredState_def by (intro emits_rules keyed_client)

lemma keyed_delete: "keyed ns (deleteObj x k key)"
  by (intro emits_deleteObj agentKeyed_stable) (simp add: agentCall_def)

lemma own_kind: "own r ob = Inr ob' \<Longrightarrow> kind_of ob' = kind_of ob"
  by (subst agent_owner.own_shape) auto

lemmas keyed_pure =
  keyed_createOrUpdatePure [OF _ _ _ relabel_secret_fill.owned.pure_mutator_axioms]
  keyed_createOrUpdatePure [OF _ _ _ rbac_config_fill.owned.pure_mutator_axioms]
  keyed_createOrUpdatePure [OF _ _ _ prometheus_service_fill.owned.pure_mutator_axioms]
  keyed_createOrUpdatePure [OF _ _ _ alertmanager_fill.owned.pure_mutator_axioms]
  keyed_createOrUpdatePure [OF _ _ _ alertmanager_secret_fill.owned.pure_mutator_axioms]
  keyed_createOrUpdatePure [OF _ _ _ metrics_monitor_fill.owned.pure_mutator_axioms]
  keyed_createOrUpdatePure [OF _ _ _ proxy_policy_fill.owned.pure_mutator_axioms]

lemma keyed_pure_resources:
  assumes x: "answers_keyed x"
  shows "keyed ns (reconcileAlertRelabelConfigSecret x)"
    "keyed ns (reconcilePrometheusKubeRBACConfigMap x)"
    "keyed ns (reconcilePrometheusService x)"
    "keyed ns (reconcileAlertmanager x)"
    "keyed ns (reconcileAlertmanagerSecret x)"
    "keyed ns (reconcileK8SMetricsServiceMonitor x)"
    "keyed ns (reconcilePrometheusProxyNetworkPolicy x)"
  unfolding reconcileAlertRelabelConfigSecret_def reconcilePrometheusKubeRBACConfigMap_def
    reconcilePrometheusService_def reconcileAlertmanager_def reconcileAlertmanagerSecret_def
    reconcileK8SMetricsServiceMonitor_def reconcilePrometheusProxyNetworkPolicy_def
        apply (intro emits_wrapErr)
        apply (rule keyed_pure(1) [OF x]; simp add: agentKeyed_def)
       apply (intro emits_wrapErr)
       apply (rule keyed_pure(2) [OF x]; simp add: agentKeyed_def)
      apply (rule keyed_pure(3) [OF x]; simp add: agentKeyed_def)
     apply (rule keyed_pure(4) [OF x]; simp add: agentKeyed_def)
    apply (rule keyed_pure(5) [OF x]; simp add: agentKeyed_def)
   apply (intro emits_wrapErr)
   apply (rule keyed_pure(6) [OF x]; simp add: agentKeyed_def)
  apply (intro emits_wrapErr)
  apply (rule keyed_pure(7) [OF x]; simp add: agentKeyed_def)
  done

lemmas keyed_rules =
  emits_rules keyed_client keyed_csv keyed_readFile keyed_egress keyed_delete

lemmas yields_last =
  yields_wrapErr yields_if yields_fail yields_case_option yields_ret yields_bindM [OF yields_any]

lemma keyed_effect_resources:
  assumes x: "answers_keyed x"
  shows "keyed ns (reconcilePrometheus x)" "keyed ns (reconcileEgressFirewall x)"
    "keyed ns (reconcileEgressNetworkPolicy x)"
  unfolding reconcilePrometheus_def reconcileEgressFirewall_def reconcileEgressNetworkPolicy_def
    getCSVByPrefix_def Let_def
  by (intro emits_rules keyed_createOrUpdate [OF x, where k = KPrometheus and key = "(prometheusName, ns)"]
      keyed_createOrUpdate [OF x, where k = KEgressFirewall and key = "(egressFirewallName, ns)"]
      keyed_createOrUpdate [OF x, where k = KEgressNetworkPolicy and key = "(egressNetworkPolicyName, ns)"]
      keyed_rules yields_last; simp add: agentKeyed_def)+

lemma keyed_alertmanagerConfig:
  assumes x: "answers_keyed x"
  shows "keyed ns (reconcileAlertmanagerConfig x)"
  unfolding reconcileAlertmanagerConfig_def
  by (rule keyed_createOrUpdate [OF x, where k = KAlertmanagerConfig and key = "(alertmanagerConfigName, ns)"];
      (intro keyed_rules yields_last)?; simp add: agentKeyed_def)

lemma keyed_resourcePhases:
  assumes x: "answers_keyed x"
  shows "keyed ns (resourcePhases x)"
  unfolding resourcePhases_def
  by (intro emits_thenM keyed_pure_resources keyed_effect_resources keyed_alertmanagerConfig x)

text \<open>Outside the resource phases the only object written is the secret.\<close>

definition secretCall :: "string \<Rightarrow> call \<Rightarrow> bool" where
  "secretCall ns c \<longleftrightarrow> is_read c \<or> is_delete c \<or> puts_at KSecret (managedFusionSecretName, ns) c"

abbreviation secretOnly :: "string \<Rightarrow> ('w, 'a) agent_prog \<Rightarrow> bool" where
  "secretOnly ns m \<equiv> emits (agentKeyed ns) (secretCall ns) m"

lemma secretCall_agentCall: "secretCall ns c \<Longrightarrow> agentCall ns c"
  by (auto simp: secretCall_def agentCall_def reads_or_puts_def agentKeys_def)

lemma secretOnly_rules:
  "secretOnly ns (client_get x k key)" "secretOnly ns (client_list x k n lim)" "secretOnly ns (deleteObj x k key)"
  by (intro emits_client_get emits_client_list emits_deleteObj agentKeyed_stable; simp add: secretCall_def)+

text \<open>Storing the server's answer to an update of the secret keeps the names.\<close>

lemma secretOnly_update:
  assumes x: "answers_keyed x" and sec: "keyOf sec = (KSecret, managedFusionSecretName, ns)"
  shows "secretOnly ns (bindM (wrapErr msg (client_update x sec)) (\<lambda>sec'. modify (managedFusionSecret_update (\<lambda>_. sec'))))"
proof (rule emits_bindM_yields)
  show "secretOnly ns (wrapErr msg (client_update x sec))"
    using sec by (intro emits_wrapErr emits_client_update agentKeyed_stable) (simp add: keyOf_def secretCall_def)
  show "yields (\<lambda>sec'. keyOf sec' = (KSecret, managedFusionSecretName, ns)) (wrapErr msg (client_update x sec))"
    using sec by (intro yields_wrapErr) (auto simp: yields_def keyOf_def dest: client_update_key [OF x])
  show "secretOnly ns (modify (managedFusionSecret_update (\<lambda>_. sec')))"
    if "keyOf sec' = (KSecret, managedFusionSecretName, ns)" for sec'
    using that by (intro emits_modify) (auto simp: agentKeyed_def)
qed

text \<open>A step that starts from the secret with its finalizers changed.\<close>

lemma secretOnly_finalizers:
  assumes "\<And>changed sec. keyOf sec = (KSecret, managedFusionSecretName, ns) \<Longrightarrow> secretOnly ns (k (changed, sec))"
    and "\<And>ob. keyOf (snd (f ob)) = keyOf ob"
  shows "secretOnly ns (bindM (gets (\<lambda>r. f (managedFusionSecret r))) k)"
proof (rule emits_bindM_post [where P = "\<lambda>(_, sec). keyOf sec = (KSecret, managedFusionSecretName, ns)"])
  show "secretOnly ns (k p)" if "case p of (_, sec) \<Rightarrow> keyOf sec = (KSecret, managedFusionSecretName, ns)" for p
    using that assms(1) by (cases p) simp
  show "case p of (_, sec) \<Rightarrow> keyOf sec = (KSecret, managedFusionSecretName, ns)"
    if "agentKeyed ns r" and "fst (gets (\<lambda>r. f (managedFusionSecret r)) r) = Ok p" for r p
    using that assms(2) [of "managedFusionSecret r"] by (cases p) (simp add: gets_def agentKeyed_def)
qed (rule emits_gets)

lemma finalizers_keyOf:
  "keyOf (snd (AddFinalizer ob fin)) = keyOf ob" "keyOf (snd (RemoveFinalizer ob fin)) = keyOf ob"
  by (simp_all add: AddFinalizer_def RemoveFinalizer_def keyOf_def)

lemma secretOnly_finalizerPhase:
  assumes x: "answers_keyed x"
  shows "secretOnly ns (finalizerPhase x)"
  unfolding finalizerPhase_def
  by (rule secretOnly_finalizers [OF _ finalizers_keyOf(1)])
    (auto intro: secretOnly_update [OF x] emits_ret)

lemma secretOnly_deleteOfferings: "secretOnly ns (deleteOfferings x items found errs)"
  by (induction x items found errs rule: deleteOfferings.induct) (auto intro!: emits_rules secretOnly_rules)

lemma secretOnly_uninstallPhase:
  assumes x: "answers_keyed x"
  shows "secretOnly ns (uninstallPhase x)"
proof -
  have remove: "secretOnly ns (bindM (gets (\<lambda>r. RemoveFinalizer (managedFusionSecret r) managedFusionFinalizer))
      (\<lambda>(removed, sec). thenM (if removed then
                  bindM (wrapErr ''failed to remove finalizer from secret'' (client_update x sec))
                    (\<lambda>sec'. modify (managedFusionSecret_update (\<lambda>_. sec')))
                else ret ())
         (thenM (wrapErr ''failed to initiate agent uninstallation'' (initiateAgentUninstallation x))
         (ret noRequeue))))"
    unfolding initiateAgentUninstallation_def
    by (rule secretOnly_finalizers [OF _ finalizers_keyOf(2)])
      (auto intro!: emits_rules secretOnly_rules secretOnly_update [OF x])
  show ?thesis
    unfolding uninstallPhase_def by (intro emits_rules secretOnly_rules secretOnly_deleteOfferings remove)
qed

lemmas keyed_finalizerPhase = emits_weaken [OF secretOnly_finalizerPhase secretCall_agentCall]
lemmas keyed_uninstallPhase = emits_weaken [OF secretOnly_uninstallPhase secretCall_agentCall]

end
