(* ===== verification/Agent_Runs.thy ===== *)
theory Agent_Runs
  imports Agent_Calls
begin

text \<open>
  The shape of a run of the agent's reconciler: what it stops at, what the phases start
  from, and the calls of an uninstallation run.
\<close>

section \<open>The shape of a run\<close>

definition secretKey :: "'w agent \<Rightarrow> nname" where
  "secretKey r = (managedFusionSecretName, agentNamespace r)"

text \<open>What the server answers to the first call of a run.\<close>

definition secretAnswer :: "('w, 'y) client_scheme \<Rightarrow> 'w agent \<Rightarrow> gerror + obj" where
  "secretAnswer x r = map_sum id (decodeAs KSecret) (fst (api_Get x KSecret (secretKey r) (world r)))"

lemma initReconciler_run:
  "\<exists>r1. initReconciler r = (Ok (), r1) \<and> calls r1 = calls r \<and> world r1 = world r \<and>
     agentNamespace r1 = agentNamespace r \<and>
     ObjectKeyFromObject (managedFusionSecret r1) = secretKey r \<and> agentKeyed (agentNamespace r) r1 \<and>
     AvailableCRDs r1 = AvailableCRDs r \<and> remoteWriteConfigData r1 = remoteWriteConfigData r"
  using agentKeyed_init [of r]
  by (simp add: initReconciler_def modify_def Let_def secretKey_def)

lemma loadSecret_run:
  assumes "ObjectKeyFromObject (managedFusionSecret r1) = key"
  shows "\<exists>s1 res. res = map_sum id (decodeAs KSecret) (fst (api_Get x KSecret key (world r1))) \<and>
     calls s1 = calls r1 @ [CGet KSecret key res] \<and> agentNamespace s1 = agentNamespace r1 \<and>
     AvailableCRDs s1 = AvailableCRDs r1 \<and> remoteWriteConfigData s1 = remoteWriteConfigData r1 \<and>
     loadSecret x r1 =
       (case res of
          Inl err \<Rightarrow> (if IsNotFound err then Ok False else Err (Errorf ''failed to get secret'' err), s1)
        | Inr sec \<Rightarrow> (Ok True, s1\<lparr>managedFusionSecret := sec\<rparr>))"
proof -
  obtain q w' where q: "api_Get x KSecret key (world r1) = (q, w')" by (cases "api_Get x KSecret key (world r1)")
  show ?thesis
    using assms q
    by (intro exI [of _ "r1\<lparr>world := w', calls := calls r1 @ [CGet KSecret key (map_sum id (decodeAs KSecret) q)]\<rparr>"])
      (cases q; simp add: prog_unfold)
qed

lemma load_keeps:
  "calls (snd (loadPagerDuty x s)) = calls s" "calls (snd (loadSmtp x s)) = calls s"
  "calls (snd (loadRemoteWrite x s)) = calls s"
  "managedFusionSecret (snd (loadPagerDuty x s)) = managedFusionSecret s"
  "managedFusionSecret (snd (loadSmtp x s)) = managedFusionSecret s"
  "managedFusionSecret (snd (loadRemoteWrite x s)) = managedFusionSecret s"
  "agentNamespace (snd (loadPagerDuty x s)) = agentNamespace s"
  "agentNamespace (snd (loadSmtp x s)) = agentNamespace s"
  "agentNamespace (snd (loadRemoteWrite x s)) = agentNamespace s"
  by (auto simp: prog_unfold split: option.splits prod.splits)

definition loadConfig :: "('w, 'y) agent_host_scheme \<Rightarrow> ('w, unit) agent_prog" where
  "loadConfig x = thenM (loadPagerDuty x) (thenM (loadSmtp x) (loadRemoteWrite x))"

lemma thenM_assoc: "thenM (thenM a b) c = thenM a (thenM b c)"
  by (simp add: thenM_def bindM_assoc)

lemma Reconcile_loadConfig:
  "Reconcile x = thenM initReconciler (bindM (loadSecret x) (\<lambda>found.
     if \<not> found then ret noRequeue else thenM (loadConfig x) (reconcilePhases x)))"
  unfolding Reconcile_def loadConfig_def thenM_assoc ..

lemma snd_thenM:
  "snd (thenM m k s) = snd (m s) \<or> (\<exists>a. fst (m s) = Ok a \<and> thenM m k s = k (snd (m s)))"
  by (auto simp: prog_unfold split: prod.splits outcome.splits)

lemma loadConfig_keeps:
  "calls (snd (loadConfig x s)) = calls s"
  "managedFusionSecret (snd (loadConfig x s)) = managedFusionSecret s"
  "agentNamespace (snd (loadConfig x s)) = agentNamespace s"
  unfolding loadConfig_def
  by (metis snd_thenM load_keeps)+

text \<open>A run stops after reading the secret, or the phases run from a state that holds it.\<close>

lemma Reconcile_cases:
  obtains (stop) "issued (Reconcile x) r = [CGet KSecret (secretKey r) (secretAnswer x r)]"
  | (phases) s sec where "secretAnswer x r = Inr sec" and "managedFusionSecret s = sec"
      and "Reconcile x r = reconcilePhases x s" and "agentNamespace s = agentNamespace r"
      and "calls s = calls r @ [CGet KSecret (secretKey r) (Inr sec)]"
proof -
  obtain r1 where r1: "initReconciler r = (Ok (), r1)" "calls r1 = calls r" "world r1 = world r"
      "agentNamespace r1 = agentNamespace r" "ObjectKeyFromObject (managedFusionSecret r1) = secretKey r"
    using initReconciler_run [of r] by blast
  obtain s1 where s1: "calls s1 = calls r @ [CGet KSecret (secretKey r) (secretAnswer x r)]"
      "agentNamespace s1 = agentNamespace r"
      "loadSecret x r1 = (case secretAnswer x r of
          Inl err \<Rightarrow> (if IsNotFound err then Ok False else Err (Errorf ''failed to get secret'' err), s1)
        | Inr sec \<Rightarrow> (Ok True, s1\<lparr>managedFusionSecret := sec\<rparr>))"
    using loadSecret_run [OF r1(5), of x] r1 by (auto simp: secretAnswer_def)
  have run: "Reconcile x r = bindM (loadSecret x) (\<lambda>found. if \<not> found then ret noRequeue
      else thenM (loadConfig x) (reconcilePhases x)) r1"
    using r1(1) by (simp add: Reconcile_loadConfig thenM_def [of initReconciler] bindM_def [of initReconciler])
  show thesis
  proof (cases "secretAnswer x r")
    case (Inl err)
    then have "issued (Reconcile x) r = [CGet KSecret (secretKey r) (secretAnswer x r)]"
      unfolding issued_def run using s1 by (auto simp: bindM_def [of "loadSecret x"] ret_def)
    then show thesis by (rule stop)
  next
    case (Inr sec)
    define t where "t = s1\<lparr>managedFusionSecret := sec\<rparr>"
    have t: "Reconcile x r = thenM (loadConfig x) (reconcilePhases x) t"
      unfolding run t_def using s1 Inr by (simp add: bindM_def [of "loadSecret x"])
    have t_calls: "calls t = calls r @ [CGet KSecret (secretKey r) (Inr sec)]"
      and t_ns: "agentNamespace t = agentNamespace r" and t_sec: "managedFusionSecret t = sec"
      using s1 Inr by (simp_all add: t_def)
    consider "snd (Reconcile x r) = snd (loadConfig x t)"
      | "Reconcile x r = reconcilePhases x (snd (loadConfig x t))"
      using snd_thenM [of "loadConfig x" "reconcilePhases x" t] t by auto
    then show thesis
    proof cases
      case 1
      then have "issued (Reconcile x) r = [CGet KSecret (secretKey r) (secretAnswer x r)]"
        using t_calls Inr by (simp add: issued_def loadConfig_keeps)
      then show thesis by (rule stop)
    next
      case 2
      show thesis
        by (rule phases [OF Inr _ 2]) (simp_all add: loadConfig_keeps t_sec t_ns t_calls)
    qed
  qed
qed

lemma extends_deleteOfferings: "extends (deleteOfferings x items found errs)"
  by (induction x items found errs rule: deleteOfferings.induct)
    (auto intro!: emits_rules emits_deleteObj)

lemma Reconcile_issued:
  obtains (stop) "issued (Reconcile x) r = [CGet KSecret (secretKey r) (secretAnswer x r)]"
  | (phases) s sec where "secretAnswer x r = Inr sec" and "managedFusionSecret s = sec"
      and "Reconcile x r = reconcilePhases x s" and "agentNamespace s = agentNamespace r"
      and "issued (Reconcile x) r = CGet KSecret (secretKey r) (Inr sec) # issued (reconcilePhases x) s"
proof (cases rule: Reconcile_cases [of x r])
  case run: (phases s sec)
  have "calls (snd (reconcilePhases x s)) = calls s @ issued (reconcilePhases x) s"
    if "extends (reconcilePhases x)" using calls_issued [OF that] by simp
  moreover have "extends (reconcilePhases x)"
    unfolding reconcilePhases_def uninstallPhase_def initiateAgentUninstallation_def
    by (intro emits_rules emits_extends [OF nodelete_finalizerPhase] emits_extends [OF nodelete_resourcePhases]
        emits_client_list emits_client_update emits_modify emits_deleteObj extends_deleteOfferings; simp)
  ultimately have "issued (Reconcile x) r = CGet KSecret (secretKey r) (Inr sec) # issued (reconcilePhases x) s"
    using run(3,5) by (simp add: issued_def [of "Reconcile x"])
  with run show thesis by (intro phases)
qed (rule stop)

section \<open>The uninstallation run\<close>

definition offeringDelete :: "obj list \<Rightarrow> call \<Rightarrow> bool" where
  "offeringDelete items c \<longleftrightarrow>
     (\<exists>ob\<in>set items. IsZero (DeletionTimestamp (meta ob)) \<and>
        (\<exists>res. c = CDelete KManagedFusionOffering (ObjectKeyFromObject ob) res))"

lemma deleteOfferings_calls:
  "set items \<subseteq> set all \<Longrightarrow>
   emits (\<lambda>_. True) (offeringDelete all) (deleteOfferings x items found errs)"
  by (induction x items found errs rule: deleteOfferings.induct)
    (auto intro!: emits_rules emits_deleteObj simp: offeringDelete_def)

text \<open>What the server answers to the list of the offerings.\<close>

definition offeringsAnswer :: "('w, 'y) client_scheme \<Rightarrow> 'w agent \<Rightarrow> gerror + obj list" where
  "offeringsAnswer x s =
     map_sum id (map (decodeAs KManagedFusionOffering)) (fst (api_List x KManagedFusionOffering None None (world s)))"

lemma client_list_run:
  "\<exists>s1. client_list x k n lim s = ((case map_sum id (map (decodeAs k)) (fst (api_List x k n lim (world s))) of
        Inl e \<Rightarrow> Err e | Inr items \<Rightarrow> Ok items), s1) \<and>
     s1 = s\<lparr>world := snd (api_List x k n lim (world s)),
            calls := calls s @ [CList k n lim (map_sum id (map (decodeAs k)) (fst (api_List x k n lim (world s))))]\<rparr>"
  by (cases "api_List x k n lim (world s)"; cases "fst (api_List x k n lim (world s))") (auto simp: prog_unfold)

definition finalRemoval :: "('w, 'y) client_scheme \<Rightarrow> ('w, ctrl_Result) agent_prog" where
  "finalRemoval x =
     bindM (gets (\<lambda>r. RemoveFinalizer (managedFusionSecret r) managedFusionFinalizer)) (\<lambda>(removed, sec).
       thenM (if removed then
                bindM (wrapErr ''failed to remove finalizer from secret'' (client_update x sec))
                  (\<lambda>sec'. modify (managedFusionSecret_update (\<lambda>_. sec')))
              else ret ())
       (thenM (wrapErr ''failed to initiate agent uninstallation'' (initiateAgentUninstallation x))
       (ret noRequeue)))"

definition removeOfferings :: "('w, 'y) client_scheme \<Rightarrow> obj list \<Rightarrow> ('w, ctrl_Result) agent_prog" where
  "removeOfferings x items =
     bindM (deleteOfferings x items False []) (\<lambda>(found, errs).
       if length errs > 0
       then fail (ErrorfList ''failed to issue delete for one or more ManagedFusionOffering CRs'' errs)
       else if found then ret (noRequeue\<lparr>RequeueAfter := 10\<rparr>)
       else ret noRequeue)"

lemma uninstallPhase_run:
  obtains s1 where "agentNamespace s1 = agentNamespace s"
    and "managedFusionSecret s1 = managedFusionSecret s"
    and "calls s1 = calls s @ [CList KManagedFusionOffering None None (offeringsAnswer x s)]"
    and "uninstallPhase x s =
      (case offeringsAnswer x s of
         Inl e \<Rightarrow> (Err (Errorf ''failed to list ManagedFusionOffering CRs'' e), s1)
       | Inr items \<Rightarrow> if items = [] then finalRemoval x s1 else removeOfferings x items s1)"
proof -
  obtain s1 where run: "client_list x KManagedFusionOffering None None s =
      ((case offeringsAnswer x s of Inl e \<Rightarrow> Err e | Inr items \<Rightarrow> Ok items), s1)"
    and s1: "s1 = s\<lparr>world := snd (api_List x KManagedFusionOffering None None (world s)),
            calls := calls s @ [CList KManagedFusionOffering None None (offeringsAnswer x s)]\<rparr>"
    using client_list_run [of x KManagedFusionOffering None None s] by (auto simp: offeringsAnswer_def)
  show thesis
  proof (rule that [of s1])
    show "uninstallPhase x s =
      (case offeringsAnswer x s of
         Inl e \<Rightarrow> (Err (Errorf ''failed to list ManagedFusionOffering CRs'' e), s1)
       | Inr items \<Rightarrow> if items = [] then finalRemoval x s1 else removeOfferings x items s1)"
    proof (cases "offeringsAnswer x s")
      case (Inl e)
      with run have "client_list x KManagedFusionOffering None None s = (Err e, s1)" by simp
      note wrapErr_Err [where m = "client_list x KManagedFusionOffering None None", OF this]
      note run1 = bindM_Err [where m = "wrapErr msg (client_list x KManagedFusionOffering None None)" for msg, OF this]
      with Inl show ?thesis by (simp add: uninstallPhase_def run1)
    next
      case (Inr items)
      with run have "client_list x KManagedFusionOffering None None s = (Ok items, s1)" by simp
      note wrapErr_Ok [where m = "client_list x KManagedFusionOffering None None", OF this]
      note run1 = bindM_Ok [where m = "wrapErr msg (client_list x KManagedFusionOffering None None)" for msg, OF this]
      with Inr show ?thesis
        unfolding uninstallPhase_def finalRemoval_def [symmetric] removeOfferings_def [symmetric]
        by (simp add: run1)
    qed
  qed (simp_all add: s1)
qed

definition finalCall :: "string \<Rightarrow> call \<Rightarrow> bool" where
  "finalCall ns c \<longleftrightarrow>
     (\<exists>sec res. c = CUpdate sec res) \<or> (\<exists>res. c = CDelete KNamespace (ns, '''') res)"

lemma finalRemoval_calls: "emits (\<lambda>s. agentNamespace s = ns) (finalCall ns) (finalRemoval x)"
proof -
  have "emits (\<lambda>s. agentNamespace s = ns) (finalCall ns) (initiateAgentUninstallation x)"
    unfolding initiateAgentUninstallation_def
    by (rule emits_bindM_post [where P = "\<lambda>n. n = ns", OF emits_gets])
      (auto intro!: emits_wrapErr emits_deleteObj simp: env_stable_def gets_def finalCall_def)
  then show ?thesis
    unfolding finalRemoval_def
    by (intro emits_rules emits_client_update emits_modify) (auto simp: env_stable_def finalCall_def)
qed

lemma removeOfferings_calls:
  "emits (\<lambda>_. True) (offeringDelete items) (removeOfferings x items)"
  unfolding removeOfferings_def by (intro emits_rules deleteOfferings_calls) auto

text \<open>The calls after the list: offering deletes, or the removal of the finalizer and namespace.\<close>

definition afterList :: "string \<Rightarrow> gerror + obj list \<Rightarrow> call \<Rightarrow> bool" where
  "afterList ns answer c =
     (case answer of
        Inl _ \<Rightarrow> False
      | Inr items \<Rightarrow>
          if items = [] then finalCall ns c
          else offeringDelete items c)"

lemma uninstallPhase_issued:
  obtains rest where
    "issued (uninstallPhase x) s = CList KManagedFusionOffering None None (offeringsAnswer x s) # rest"
    and "list_all (afterList (agentNamespace s) (offeringsAnswer x s)) rest"
proof -
  obtain s1 where ns: "agentNamespace s1 = agentNamespace s"
    and log: "calls s1 = calls s @ [CList KManagedFusionOffering None None (offeringsAnswer x s)]"
    and run: "uninstallPhase x s =
      (case offeringsAnswer x s of
         Inl e \<Rightarrow> (Err (Errorf ''failed to list ManagedFusionOffering CRs'' e), s1)
       | Inr items \<Rightarrow> if items = [] then finalRemoval x s1 else removeOfferings x items s1)"
    by (rule uninstallPhase_run)
  have "\<exists>rest. calls (snd (uninstallPhase x s)) = calls s1 @ rest \<and>
      list_all (afterList (agentNamespace s) (offeringsAnswer x s)) rest"
  proof (cases "offeringsAnswer x s")
    case (Inr items)
    show ?thesis
    proof (cases "items = []")
      case True
      obtain es where "calls (snd (finalRemoval x s1)) = calls s1 @ es"
        and "list_all (finalCall (agentNamespace s)) es"
        by (rule emits_log [OF finalRemoval_calls ns])
      with True Inr run show ?thesis by (simp add: afterList_def [abs_def])
    next
      case False
      obtain es where "calls (snd (removeOfferings x items s1)) = calls s1 @ es"
        and "list_all (offeringDelete items) es"
        by (rule emits_log [OF removeOfferings_calls]) simp_all
      with False Inr run show ?thesis by (simp add: afterList_def [abs_def])
    qed
  qed (use run in simp)
  then show thesis using log that by (auto simp: issued_def)
qed

lemma reconcilePhases_deletes:
  assumes "IsZero (DeletionTimestamp (meta (managedFusionSecret s)))"
  shows "list_all (\<lambda>c. \<not> is_delete c) (issued (reconcilePhases x) s)"
proof -
  define m where "m = (if UID (meta (managedFusionSecret s)) \<noteq> ''''
    then thenM (finalizerPhase x) (thenM (resourcePhases x) (ret noRequeue)) else ret noRequeue)"
  have "reconcilePhases x s = m s"
    using assms by (simp add: reconcilePhases_def gets_def bindM_def m_def)
  then have "issued (reconcilePhases x) s = issued m s" by (simp add: issued_def)
  moreover have "nodelete m"
    unfolding m_def by (intro emits_rules nodelete_finalizerPhase nodelete_resourcePhases)
  ultimately show ?thesis
    using emits_issued [of "\<lambda>_. True" "\<lambda>c. \<not> is_delete c" m s] by (simp add: list_all_iff)
qed

lemma reconcilePhases_uninstall:
  "\<not> IsZero (DeletionTimestamp (meta (managedFusionSecret s))) \<Longrightarrow>
   reconcilePhases x s = uninstallPhase x s"
  by (simp add: reconcilePhases_def gets_def bindM_def)

text \<open>A run whose secret was found.\<close>

lemma Reconcile_after_get:
  assumes get: "fst (api_Get x KSecret (managedFusionSecretName, agentNamespace r) (world r)) = Inr sec"
    and sec: "kind_of sec = KSecret"
  shows "\<exists>s. managedFusionSecret s = sec \<and> agentNamespace s = agentNamespace r \<and>
    calls s = calls r @ [CGet KSecret (managedFusionSecretName, agentNamespace r) (Inr sec)] \<and>
    remoteWriteConfigData s = remoteWriteConfigData r \<and>
    Reconcile x r = thenM (loadConfig x) (reconcilePhases x) s"
proof -
  obtain r1 where r1: "initReconciler r = (Ok (), r1)" "calls r1 = calls r" "world r1 = world r"
      "agentNamespace r1 = agentNamespace r" "ObjectKeyFromObject (managedFusionSecret r1) = secretKey r"
      "remoteWriteConfigData r1 = remoteWriteConfigData r"
    using initReconciler_run [of r] by blast
  obtain s1 where s1: "calls s1 = calls r @ [CGet KSecret (secretKey r) (Inr sec)]"
      "agentNamespace s1 = agentNamespace r" "remoteWriteConfigData s1 = remoteWriteConfigData r"
      "loadSecret x r1 = (Ok True, s1\<lparr>managedFusionSecret := sec\<rparr>)"
    using loadSecret_run [OF r1(5), of x] r1 get sec by (auto simp: secretKey_def)
  have "Reconcile x r = thenM (loadConfig x) (reconcilePhases x) (s1\<lparr>managedFusionSecret := sec\<rparr>)"
    using r1(1) s1(4)
    by (simp add: Reconcile_loadConfig thenM_def [of initReconciler] bindM_def [of initReconciler]
        bindM_def [of "loadSecret x"])
  then show ?thesis using s1 by (intro exI [of _ "s1\<lparr>managedFusionSecret := sec\<rparr>"]) (simp add: secretKey_def)
qed

text \<open>What a part of the configuration becomes depends on the secret's entries only.\<close>

lemma load_runs:
  "loadPagerDuty x s = (case goMapGet (secretData (managedFusionSecret s)) ''pager_duty_config'' of
      None \<Rightarrow> (Err (ErrorNew ''secret does not contain pager_duty_config entry''), s)
    | Some c \<Rightarrow> (case snd (yaml_pagerDuty x c) of None \<Rightarrow> Ok () | Some e \<Rightarrow> Err (Errorf ''failed to unmarshal agent pager_duty_config'' e),
        s\<lparr>pagerDutyConfigData := fst (yaml_pagerDuty x c)\<rparr>))"
  "loadSmtp x s = (case goMapGet (secretData (managedFusionSecret s)) ''smtp_config'' of
      None \<Rightarrow> (Err (ErrorNew ''secret does not contain smtp_config entry''), s)
    | Some c \<Rightarrow> (case snd (yaml_smtp x c) of None \<Rightarrow> Ok () | Some e \<Rightarrow> Err (Errorf ''failed to unmarshal agent smpt_config'' e),
        s\<lparr>smtpConfigData := fst (yaml_smtp x c)\<rparr>))"
  "loadRemoteWrite x s = (case goMapGet (secretData (managedFusionSecret s)) ''remote_write_config'' of
      None \<Rightarrow> (Ok (), s)
    | Some c \<Rightarrow> (case snd (yaml_remoteWrite x c) of None \<Rightarrow> Ok () | Some e \<Rightarrow> Err (Errorf ''failed to unmarshal agent remote_write_config'' e),
        s\<lparr>remoteWriteConfigData := Some (fst (yaml_remoteWrite x c))\<rparr>))"
  by (simp_all add: prog_unfold del: secretData.simps split: option.split prod.split)

lemma load_missing:
  "goMapGet (secretData (managedFusionSecret s)) ''pager_duty_config'' = None \<Longrightarrow>
     \<exists>e. loadPagerDuty x s = (Err e, s)"
  "goMapGet (secretData (managedFusionSecret s)) ''smtp_config'' = None \<Longrightarrow> \<exists>e. loadSmtp x s = (Err e, s)"
  by (simp_all add: loadPagerDuty_def loadSmtp_def bindM_def gets_def fail_def)

lemma loadPagerDuty_no_crash: "fst (loadPagerDuty x s) \<noteq> Crash msg"
  by (auto simp: prog_unfold split: option.splits prod.splits)

lemma loadConfig_missing:
  assumes "goMapGet (secretData (managedFusionSecret s)) ''pager_duty_config'' = None \<or>
    goMapGet (secretData (managedFusionSecret s)) ''smtp_config'' = None"
  shows "\<exists>e. fst (loadConfig x s) = Err e"
proof (cases "goMapGet (secretData (managedFusionSecret s)) ''pager_duty_config'' = None")
  case True
  then show ?thesis
    using load_missing(1) [of s x] by (auto simp: loadConfig_def thenM_def bindM_def [of "loadPagerDuty x"])
next
  case False
  obtain r t where pd: "loadPagerDuty x s = (r, t)" by (cases "loadPagerDuty x s")
  then have "managedFusionSecret t = managedFusionSecret s" using load_keeps(4) [of x s] by simp
  then obtain e where "loadSmtp x t = (Err e, t)" using load_missing(2) [of t x] False assms by auto
  with pd loadPagerDuty_no_crash [of x s] show ?thesis
    by (cases r) (auto simp: loadConfig_def thenM_def bindM_def [of "loadPagerDuty x"] bindM_def [of "loadSmtp x"])
qed

lemma loadConfig_remoteWrite:
  assumes "goMapGet (secretData (managedFusionSecret s)) ''remote_write_config'' = None"
  shows "remoteWriteConfigData (snd (loadConfig x s)) = remoteWriteConfigData s"
proof -
  have keep: "remoteWriteConfigData (snd (loadPagerDuty x t)) = remoteWriteConfigData t"
    "remoteWriteConfigData (snd (loadSmtp x t)) = remoteWriteConfigData t" for t
    by (auto simp: prog_unfold split: option.splits prod.splits)
  have "remoteWriteConfigData (snd (loadRemoteWrite x t)) = remoteWriteConfigData t"
    if "managedFusionSecret t = managedFusionSecret s" for t
    using assms that by (simp add: prog_unfold)
  then show ?thesis
    unfolding loadConfig_def
    by (metis keep load_keeps(4,5) snd_thenM)
qed

lemma frame_deleteOfferings:
  "agent_frame I \<Longrightarrow> emits I (\<lambda>_. True) (deleteOfferings x items found errs)"
  by (induction x items found errs rule: deleteOfferings.induct)
    (auto intro!: emits_rules emits_deleteObj frame_stable)

lemma frame_reconcilePhases:
  assumes I: "agent_frame I"
  shows "emits I (\<lambda>_. True) (reconcilePhases x)"
  unfolding reconcilePhases_def uninstallPhase_def initiateAgentUninstallation_def
  by (intro emits_rules emits_weaken [OF harmless_finalizerPhase [OF I]]
      emits_weaken [OF harmless_resourcePhases [OF I]] frame_deleteOfferings emits_client_list
      emits_client_update emits_modify emits_deleteObj frame_stable [OF I] I TrueI;
      (insert I)?; simp add: agent_frame_def)


section \<open>All calls of a run\<close>

lemma keyed_reconcilePhases:
  assumes x: "answers_keyed x"
  shows "keyed ns (reconcilePhases x)"
  unfolding reconcilePhases_def
  by (intro keyed_rules keyed_uninstallPhase [OF x] keyed_finalizerPhase [OF x] keyed_resourcePhases [OF x])

lemma keyed_loadConfig: "keyed ns (loadConfig x)"
  unfolding loadConfig_def loadPagerDuty_def loadSmtp_def loadRemoteWrite_def
  by (intro keyed_rules emits_modify; simp add: agentKeyed_def)

lemma keyed_loadSecret:
  assumes x: "answers_keyed x"
  shows "keyed ns (loadSecret x)"
  unfolding loadSecret_def
proof (rule emits_bindM_post [where P = "\<lambda>key. key = (managedFusionSecretName, ns)"])
  fix key assume key: "key = (managedFusionSecretName, ns)"
  have "yields (\<lambda>sec. keyOf sec = (KSecret, key)) (client_get x KSecret key)"
    by (auto simp: yields_def keyOf_def dest: client_get_key [OF x] client_get_kind)
  note got = yields_tryM [OF this]
  show "keyed ns (bindM (tryM (client_get x KSecret key)) (\<lambda>got. case got of
         Inl err \<Rightarrow> if IsNotFound err then ret False else fail (Errorf ''failed to get secret'' err)
       | Inr sec \<Rightarrow> thenM (modify (managedFusionSecret_update (\<lambda>_. sec))) (ret True)))"
    by (rule emits_bindM_yields [OF _ got])
      (auto intro!: keyed_rules emits_modify simp: key agentKeyed_def split: sum.split)
qed (auto simp: gets_def agentKeyed_def keyOf_def intro: emits_gets [unfolded gets_def])

lemma Reconcile_keyed:
  assumes x: "answers_keyed x" and c: "c \<in> set (issued (Reconcile x) r)"
  shows "agentCall (agentNamespace r) c"
proof -
  define m where "m = bindM (loadSecret x) (\<lambda>found.
     if \<not> found then ret noRequeue else thenM (loadConfig x) (reconcilePhases x))"
  obtain r1 where r1: "initReconciler r = (Ok (), r1)" "calls r1 = calls r" "agentKeyed (agentNamespace r) r1"
    using initReconciler_run [of r] by blast
  have "issued (Reconcile x) r = issued m r1"
    using r1 by (simp add: issued_def Reconcile_loadConfig m_def thenM_def [of initReconciler] bindM_def [of initReconciler])
  moreover have "keyed (agentNamespace r) m"
    unfolding m_def
    by (intro keyed_rules keyed_loadSecret [OF x] keyed_loadConfig keyed_reconcilePhases [OF x])
  ultimately show ?thesis 
    using emits_issued [of "agentKeyed (agentNamespace r)" "agentCall (agentNamespace r)" m r1 c] c r1(3)
    by simp
qed

text \<open>The finalizer phase and what it leaves to the others.\<close>

lemma finalizerPhase_run:
  assumes sec: "managedFusionSecret s = sec"
  obtains (present) "managedFusionFinalizer \<in> set (Finalizers (meta sec))" "finalizerPhase x s = (Ok (), s)"
  | (refused) sec' e e' s1 where "finalizerPhase x s = (Err e, s1)"
      and "calls s1 = calls s @ [CUpdate sec' (Inl e')]"
  | (added) sec' ans s1 where "finalizerPhase x s = (Ok (), s1)"
      and "calls s1 = calls s @ [CUpdate sec' (Inr ans)]"
      and "managedFusionFinalizer \<in> set (Finalizers (meta sec'))"
proof (cases "managedFusionFinalizer \<in> set (Finalizers (meta sec))")
  case True
  then show thesis
    using sec by (intro present) (simp_all add: finalizerPhase_def gets_def bindM_def AddFinalizer_def ret_def)
next
  case False
  define sec' where "sec' = setFinalizers (Finalizers (meta sec) @ [managedFusionFinalizer]) sec"
  have fin: "managedFusionFinalizer \<in> set (Finalizers (meta sec'))" by (simp add: sec'_def)
  have phase: "finalizerPhase x s =
      bindM (wrapErr ''failed to update secret with finalizer'' (client_update x sec'))
        (\<lambda>sec'. modify (managedFusionSecret_update (\<lambda>_. sec'))) s"
    using False sec by (simp add: finalizerPhase_def gets_def bindM_def [of "\<lambda>s. (f s, s)" for f] AddFinalizer_def sec'_def)
  obtain q w' where q: "api_Update x sec' (world s) = (q, w')" by (cases "api_Update x sec' (world s)")
  show thesis
  proof (cases q)
    case (Inl e)
    have "finalizerPhase x s = (Err (Errorf ''failed to update secret with finalizer'' e),
        s\<lparr>world := w', calls := calls s @ [CUpdate sec' (Inl e)]\<rparr>)"
      unfolding phase using q Inl by (simp add: prog_unfold)
    then show thesis by (rule refused) simp
  next
    case (Inr ans)
    let ?ans = "decodeAs (kind_of sec') ans"
    have "finalizerPhase x s = (Ok (), s\<lparr>world := w', calls := calls s @ [CUpdate sec' (Inr ?ans)],
        managedFusionSecret := ?ans\<rparr>)"
      unfolding phase using q Inr by (simp add: prog_unfold)
    then show thesis by (rule added [OF _ _ fin]) simp
  qed
qed

lemma no_create_on_uninstall:
  assumes c: "CCreate ob res \<in> set (issued (reconcilePhases x) s)"
  shows "IsZero (DeletionTimestamp (meta (managedFusionSecret s)))"
proof (rule ccontr)
  assume "\<not> IsZero (DeletionTimestamp (meta (managedFusionSecret s)))"
  then have "issued (reconcilePhases x) s = issued (uninstallPhase x) s"
    using reconcilePhases_uninstall [of s x] by (simp add: issued_def)
  moreover obtain rest where "issued (uninstallPhase x) s =
      CList KManagedFusionOffering None None (offeringsAnswer x s) # rest"
    "list_all (afterList (agentNamespace s) (offeringsAnswer x s)) rest"
    by (rule uninstallPhase_issued)
  ultimately have "afterList (agentNamespace s) (offeringsAnswer x s) (CCreate ob res)"
    using c by (auto simp: list_all_iff)
  then show False
    by (auto simp: afterList_def finalCall_def offeringDelete_def split: sum.splits if_splits)
qed

end
