(* ===== verification/Agent_Outcomes.thy ===== *)
theory Agent_Outcomes
  imports Agent_Runs
begin

text \<open>
  How runs of the agent end: the results of an uninstallation run, what one resource's
  operation writes and when it succeeds, and which answers of the server make a run crash.
\<close>


section \<open>Outcomes of the uninstallation\<close>

lemma deleteOfferings_result:
  "\<exists>errs'. fst (deleteOfferings x items found errs s) =
     Ok (found \<or> list_ex (\<lambda>ob. IsZero (DeletionTimestamp (meta ob))) items, errs')"
proof (induction items arbitrary: found errs s)
  case (Cons ob items)
  show ?case
  proof (cases "IsZero (DeletionTimestamp (meta ob))")
    case True
    obtain q s1 where q: "deleteObj x KManagedFusionOffering (ObjectKeyFromObject ob) s = (q, s1)"
      by (cases "deleteObj x KManagedFusionOffering (ObjectKeyFromObject ob) s")
    have "\<exists>errs'. fst (deleteOfferings x items True es s1) = Ok (True, errs')" for es
      using Cons [of True es s1] by simp
    with True q deleteObj_no_crash [of x KManagedFusionOffering "ObjectKeyFromObject ob" s]
    show ?thesis by (cases q) (auto simp: bindM_step tryM_def)
  qed (use Cons in simp)
qed (simp add: ret_def)

lemma deleteOfferings_none:
  "\<not> list_ex (\<lambda>ob. IsZero (DeletionTimestamp (meta ob))) items \<Longrightarrow>
   deleteOfferings x items found errs = ret (found, errs)"
  by (induction items) auto

lemma removeOfferings_result:
  "if list_ex (\<lambda>ob. IsZero (DeletionTimestamp (meta ob))) items
   then fst (removeOfferings x items s) = Ok (noRequeue\<lparr>RequeueAfter := 10\<rparr>) \<or>
     (\<exists>e. fst (removeOfferings x items s) = Err e)
   else removeOfferings x items s = (Ok noRequeue, s)"
proof (cases "list_ex (\<lambda>ob. IsZero (DeletionTimestamp (meta ob))) items")
  case True
  obtain errs' s1 where "deleteOfferings x items False [] s = (Ok (True, errs'), s1)"
    using deleteOfferings_result [of x items False "[]" s] True
    by (metis prod.collapse)
  with True show ?thesis
    by (auto simp: removeOfferings_def bindM_step ret_def fail_def)
qed (simp add: removeOfferings_def deleteOfferings_none ret_def bindM_step)

section \<open>Writes of one resource\<close>

lemma createOrUpdatePure_writes:
  assumes h: "\<And>o1 ob'. h r o1 = Ok ob' \<Longrightarrow> P ob'"
    and upd: "\<And>r ob. calls (upd (\<lambda>_. ob) r) = calls r"
  shows "list_all (writes_only P) (issued (createOrUpdatePure x field upd h) r)"
  unfolding createOrUpdatePure_def
  by (rule createOrUpdate_writes [where I = "\<lambda>_. True"])
    (auto intro!: emits_liftOutcome yields_liftOutcome h upd simp: withOwner_def split: sum.splits)

section \<open>When a run can crash\<close>

text \<open>A list of the cluster service versions in which the agent's one lacks the deployment.\<close>

definition missingDeployment :: "call \<Rightarrow> bool" where
  "missingDeployment c \<longleftrightarrow>
     (\<exists>n items csv. c = CList KClusterServiceVersion n None (Inr items) \<and>
        csvWithPrefix agentCSVPrefix items = Some csv \<and>
        (\<forall>d\<in>set (csvDeployments csv). sd_Name d \<noteq> ''managed-fusion-controller-manager''))"

lemma csvInNamespace_Ok:
  assumes "fst (csvInNamespace x ns name s) = Ok csv"
  obtains items where "issued (csvInNamespace x ns name) s = [CList KClusterServiceVersion (Some ns) None (Inr items)]"
    and "csvWithPrefix name items = Some csv"
proof -
  obtain s1 where run: "client_list x KClusterServiceVersion (Some ns) None s =
      ((case map_sum id (map (decodeAs KClusterServiceVersion))
               (fst (api_List x KClusterServiceVersion (Some ns) None (world s))) of
          Inl e \<Rightarrow> Err e | Inr items \<Rightarrow> Ok items), s1)"
    and s1: "calls s1 = calls s @ [CList KClusterServiceVersion (Some ns) None
        (map_sum id (map (decodeAs KClusterServiceVersion)) (fst (api_List x KClusterServiceVersion (Some ns) None (world s))))]"
    using client_list_run [of x KClusterServiceVersion "Some ns" None s] by auto
  let ?ans = "map_sum id (map (decodeAs KClusterServiceVersion))
    (fst (api_List x KClusterServiceVersion (Some ns) None (world s)))"
  obtain items where items: "?ans = Inr items"
  proof (cases ?ans)
    case (Inl e)
    with assms run show thesis by (auto simp: csvInNamespace_def bindM_step wrapErr_def)
  qed
  have all: "csvInNamespace x ns name s =
      (case csvWithPrefix name items of
         Some candidate \<Rightarrow> ret candidate
       | None \<Rightarrow> fail (StatusError ReasonNotFound ''unable to find a csv with the prefix'')) s1"
    unfolding csvInNamespace_def using run items by (simp add: bindM_step wrapErr_def)
  then have "csvWithPrefix name items = Some csv"
    using assms by (auto simp: ret_def fail_def split: option.splits)
  moreover from this all have "issued (csvInNamespace x ns name) s =
      [CList KClusterServiceVersion (Some ns) None (Inr items)]"
    using s1 items by (simp add: issued_def ret_def)
  ultimately show thesis by (rule that [rotated])
qed

lemma prometheusSpec_no_crash: "prometheusSpec r img cid \<noteq> Crash msg"
  by (simp add: prometheusSpec_def PrometheusTemplate_def goMapSet_def remoteWrites_def atFirst_def
      atPointer_def split: option.split)

lemma kubeRbacImage_crash:
  "kubeRbacImage csv = Crash msg \<Longrightarrow>
   \<forall>d\<in>set (csvDeployments csv). sd_Name d \<noteq> ''managed-fusion-controller-manager''"
  by (auto simp: kubeRbacImage_def lastMatch_None split: option.splits)

lemma crashes_prometheus: "crashes_if missingDeployment (reconcilePrometheus x)"
  unfolding reconcilePrometheus_def Let_def
proof (intro crashes_if_wrapErr crashes_if_createOrUpdate)
  let ?k = "\<lambda>r ob img. bindM (client_get x KClusterVersion (''version'', '''')) (\<lambda>clusterVersion.
       bindM (liftOutcome (prometheusSpec r img (clusterID clusterVersion))) (\<lambda>spec.
       ret (setBody (Prometheus spec) (AddLabel ob monLabelKey monLabelValue))))"
  let ?csv = "\<lambda>ob. wrapErr ''unable to set image for kube-rbac-proxy container'' (getCSVByPrefix x agentCSVPrefix)"
  have ext_k: "extends (?k r ob img)" for r ob img
    by (intro emits_rules emits_client_get; simp)
  have crash_k: "crashes_if missingDeployment (?k r ob img)" for r ob img
    by (intro crashes_if_rules crashes_if_client crashes_if_liftOutcome prometheusSpec_no_crash
        emits_rules emits_client_get; simp)
  have ext_csv: "extends (?csv ob)" for ob
    unfolding getCSVByPrefix_def by (intro emits_rules emits_csvInNamespace; simp)
  have csv: "crashes_if missingDeployment (bindM (?csv ob) (\<lambda>agentCSV.
      bindM (liftOutcome (kubeRbacImage agentCSV)) (?k r ob)))" for r ob
  proof (rule crashes_if_bindM_log [OF _ ext_csv])
    show "crashes_if missingDeployment (?csv ob)"
      unfolding getCSVByPrefix_def csvInNamespace_def
      by (intro crashes_if_rules crashes_if_client emits_rules emits_client_list; simp)
  next
    fix s :: "'a agent" and agentCSV
    assume "fst (?csv ob s) = Ok agentCSV"
    then have "fst (csvInNamespace x (agentNamespace s) agentCSVPrefix s) = Ok agentCSV"
      by (auto simp: wrapErr_def getCSVByPrefix_def gets_def bindM_step split: prod.splits outcome.splits)
    then obtain items where items: "csvWithPrefix agentCSVPrefix items = Some agentCSV"
      "issued (csvInNamespace x (agentNamespace s) agentCSVPrefix) s =
         [CList KClusterServiceVersion (Some (agentNamespace s)) None (Inr items)]"
      using csvInNamespace_Ok by blast
    have log: "issued (?csv ob) s = [CList KClusterServiceVersion (Some (agentNamespace s)) None (Inr items)]"
      using items(2) unfolding issued_wrapErr by (simp add: issued_def getCSVByPrefix_def gets_def bindM_step)
    show "(\<exists>c\<in>set (issued (?csv ob) s). missingDeployment c) \<or>
      crashes_if missingDeployment (bindM (liftOutcome (kubeRbacImage agentCSV)) (?k r ob))"
    proof (cases "\<exists>msg. kubeRbacImage agentCSV = Crash msg")
      case True
      then have "\<forall>d\<in>set (csvDeployments agentCSV). sd_Name d \<noteq> ''managed-fusion-controller-manager''"
        using kubeRbacImage_crash by blast
      then have "missingDeployment (CList KClusterServiceVersion (Some (agentNamespace s)) None (Inr items))"
        using items(1) unfolding missingDeployment_def by blast
      then show ?thesis unfolding log by simp
    next
      case False
      then show ?thesis by (intro disjI2 crashes_if_rules crashes_if_liftOutcome crash_k emits_rules ext_k) auto
    qed
  qed (intro emits_rules ext_k)
  show "crashes_if missingDeployment (bindM (liftSum (own r o1)) (\<lambda>ob. bindM (?csv ob) (\<lambda>agentCSV.
      bindM (liftOutcome (kubeRbacImage agentCSV)) (?k r ob))))" for r o1
    by (intro crashes_if_rules csv emits_rules ext_k ext_csv)
  show "extends (bindM (liftSum (own r o1)) (\<lambda>ob. bindM (?csv ob) (\<lambda>agentCSV.
      bindM (liftOutcome (kubeRbacImage agentCSV)) (?k r ob))))" for r o1
    by (intro emits_rules ext_k ext_csv)
qed simp

lemma setPagerDuty_no_crash: "pdc_ServiceKey pd \<noteq> None \<Longrightarrow> pdc_Details pd \<noteq> [] \<Longrightarrow> setPagerDuty sn sop pd \<noteq> Crash msg"
  by (auto simp: setPagerDuty_def atPointer_def atFirst_def split: list.split)

lemma alertmanagerConfigSpec_no_crash: "alertmanagerConfigSpec r host html \<noteq> Crash msg"
  by (simp add: alertmanagerConfigSpec_def AlertmanagerConfigTemplate_def pagerdutyReceiver_def
      sendGridReceiver_def setReceiver_def setPagerDuty_def setEmail_def atFirst_def atPointer_def Let_def)

lemma withOwner_no_crash: "(\<And>ob. h ob \<noteq> Crash msg) \<Longrightarrow> withOwner o1 h ob \<noteq> Crash msg"
  by (simp add: withOwner_def split: sum.split)

lemma crashes_if_createOrUpdatePure:
  assumes "\<And>r ob msg. h r ob \<noteq> Crash msg" and "\<And>r ob. calls (upd (\<lambda>_. ob) r) = calls r"
  shows "crashes_if B (createOrUpdatePure x field upd h)"
  unfolding createOrUpdatePure_def
  by (intro crashes_if_createOrUpdate crashes_if_liftOutcome withOwner_no_crash emits_liftOutcome assms)

lemma crashes_egress: "crashes_if B (getEgressFirewallDesiredState x)" "extends (getEgressFirewallDesiredState x)"
  unfolding getEgressFirewallDesiredState_def
  by (intro crashes_if_rules crashes_if_client emits_rules emits_client_get; simp)+

lemma fill_no_crash:
  "fillBody b ob \<noteq> Crash msg" "fillLabelled b ob \<noteq> Crash msg" "fillPrometheusService ob \<noteq> Crash msg"
  "fillAlertmanagerSecret r ob \<noteq> Crash msg" "fillAlertRelabelConfigSecret h r ob \<noteq> Crash msg"
  by (simp_all add: fillBody_def fillLabelled_def fillPrometheusService_def fillAlertmanagerSecret_def
      fillAlertRelabelConfigSecret_def split: sum.split)

lemma crashes_resources:
  "crashes_if B (reconcileAlertRelabelConfigSecret h)" "crashes_if B (reconcilePrometheusKubeRBACConfigMap x)"
  "crashes_if B (reconcilePrometheusService x)" "crashes_if B (reconcileAlertmanager x)"
  "crashes_if B (reconcileAlertmanagerSecret x)" "crashes_if B (reconcileK8SMetricsServiceMonitor x)"
  "crashes_if B (reconcilePrometheusProxyNetworkPolicy x)" "crashes_if B (reconcileEgressFirewall x)"
  "crashes_if B (reconcileEgressNetworkPolicy x)" "crashes_if B (reconcileAlertmanagerConfig hs)"
  unfolding reconcileAlertRelabelConfigSecret_def reconcilePrometheusKubeRBACConfigMap_def
    reconcilePrometheusService_def reconcileAlertmanager_def reconcileAlertmanagerSecret_def
    reconcileK8SMetricsServiceMonitor_def reconcilePrometheusProxyNetworkPolicy_def
    reconcileEgressFirewall_def reconcileEgressNetworkPolicy_def reconcileAlertmanagerConfig_def
  by ((intro crashes_if_rules crashes_if_createOrUpdatePure crashes_if_createOrUpdate fill_no_crash
      crashes_egress crashes_if_client crashes_if_liftOutcome alertmanagerConfigSpec_no_crash
      emits_rules extends_createOrUpdate emits_host_readFile; simp)+)

lemma extends_resources:
  "extends (reconcileAlertRelabelConfigSecret x)" "extends (reconcilePrometheusKubeRBACConfigMap x)"
  "extends (reconcilePrometheusService x)" "extends (reconcilePrometheus x)" "extends (reconcileAlertmanager x)"
  "extends (reconcileAlertmanagerSecret x)" "extends (reconcileAlertmanagerConfig x)"
  "extends (reconcileK8SMetricsServiceMonitor x)" "extends (reconcilePrometheusProxyNetworkPolicy x)"
  "extends (reconcileEgressFirewall x)" "extends (reconcileEgressNetworkPolicy x)"
  by (rule emits_extends, rule nodelete_resources)+

lemma crashes_resourcePhases: "crashes_if missingDeployment (resourcePhases x)"
  unfolding resourcePhases_def
  by (intro crashes_if_thenM crashes_resources crashes_prometheus emits_thenM extends_resources)

lemma crashes_deleteOfferings: "crashes_if B (deleteOfferings x items found errs)"
  using deleteOfferings_result [of x items found errs] by (metis crashes_if_def outcome.distinct(3))

lemma crashes_reconcilePhases: "crashes_if missingDeployment (reconcilePhases x)"
proof -
  have "crashes_if missingDeployment (uninstallPhase x)"
    unfolding uninstallPhase_def initiateAgentUninstallation_def deleteObj_def
    by (intro crashes_if_rules crashes_if_client crashes_deleteOfferings emits_rules extends_deleteOfferings
        emits_client_list emits_client_update emits_client_delete emits_modify; simp)
  moreover have "extends (uninstallPhase x)"
    unfolding uninstallPhase_def initiateAgentUninstallation_def
    by (intro emits_rules extends_deleteOfferings emits_client_list emits_client_update emits_deleteObj
        emits_modify; simp)
  moreover have "crashes_if missingDeployment (finalizerPhase x)"
    unfolding finalizerPhase_def
    by (intro crashes_if_rules crashes_if_client emits_rules emits_client_update emits_modify; simp)
  ultimately show ?thesis
    unfolding reconcilePhases_def
    by (intro crashes_if_rules crashes_resourcePhases emits_rules emits_extends [OF nodelete_finalizerPhase]
        emits_extends [OF nodelete_resourcePhases])
qed

lemma loadConfig_no_crash: "fst (loadConfig x s) \<noteq> Crash msg"
proof -
  have "crashes_if (\<lambda>_. False) (loadConfig x)"
    unfolding loadConfig_def loadPagerDuty_def loadSmtp_def loadRemoteWrite_def
    by (intro crashes_if_rules emits_rules emits_modify; simp)
  then show ?thesis by (auto simp: crashes_if_def)
qed

lemma loadConfig_crashes: "crashes_if B (loadConfig x)"
  by (simp add: crashes_if_def loadConfig_no_crash)

lemma extends_loadConfig: "extends (loadConfig x)"
  unfolding loadConfig_def loadPagerDuty_def loadSmtp_def loadRemoteWrite_def
  by (intro emits_rules emits_modify; simp)

lemma extends_reconcilePhases: "extends (reconcilePhases x)"
  by (rule frame_reconcilePhases) simp

lemma createOrUpdatePure_Ok:
  fixes r :: "'w agent"
  assumes "isOk (fst (createOrUpdatePure x field upd h r))"
  shows "\<exists>ob ob'. h r ob = Ok ob'"
proof -
  define f where "f ob = (liftOutcome (withOwner (own r) (h r) ob) :: ('w, obj) agent_prog)" for ob :: obj
  let ?m = "CreateOrUpdate x (field r) f" and ?Q = "\<exists>ob ob'. h r ob = Ok ob'"
  have "isOk (fst (?m r))"
    using assms unfolding f_def
    by (auto simp: createOrUpdatePure_def createOrUpdate_def gets_def bindM_def split: prod.splits outcome.splits)
  then obtain p where p: "fst (?m r) = Ok p" by (auto simp: isOk_iff)
  have mut: "yields (\<lambda>_. ?Q) (mutate f key ob)" for key ob
    by (auto simp: yields_def f_def liftOutcome_def withOwner_def dest!: mutate_Ok split: sum.splits) blast
  have step: "yields (\<lambda>_. ?Q) (bindM (mutate f key ob) k)" for key ob and k :: "obj \<Rightarrow> ('w agent, OperationResult \<times> obj) prog"
    by (rule yields_bindM [OF mut]) (simp only: yields_def, blast)
  have "yields (\<lambda>_. ?Q) ?m"
    unfolding CreateOrUpdate_def
    by (rule yields_bindM [OF yields_any], rule yields_case_sum, rule yields_if)
      (rule yields_fail step)+
  from yieldsD [OF this p] show ?thesis .
qed

text \<open>The Prometheus spec, field by field.\<close>

lemma prometheusSpec_Ok:
  assumes "prometheusSpec r img cid = Ok spec"
  shows "ps_ExternalLabels spec = Some (fmap_of_list [(''clusterId'', cid)])"
    and "map_option (map ame_Namespace) (ps_Alerting spec) = Some [agentNamespace r]"
    and "ps_RemoteWrite spec =
      (case remoteWriteConfigData r of
         None \<Rightarrow> [emptyRemoteWriteSpec]
       | Some cfg \<Rightarrow> map (\<lambda>rw. rw\<lparr>rw_BearerToken := rwc_BearerToken cfg\<rparr>) (ps_RemoteWrite PrometheusTemplate))"
    and "rw \<in> set (ps_RemoteWrite spec) \<Longrightarrow> rw_URL rw = '''' \<or> rw_BearerToken rw \<noteq> ''''"
  using assms
  by (auto simp: prometheusSpec_def PrometheusTemplate_def goMapSet_def remoteWrites_def atFirst_def
      atPointer_def emptyRemoteWriteSpec_def split: option.splits if_splits)

end
