(* ===== verification/Mem_Server.thy ===== *)
theory Mem_Server
  imports Agent_Runs
begin

text \<open>
  A small API server over a list of objects, to run the model on concrete inputs: the
  witnesses of the properties instantiate their parameters with it. It answers with the
  object stored, keeps names and kinds, and forgets a deleted object at once.
\<close>

type_synonym store = "obj list"

definition isAt :: "kind \<Rightarrow> nname \<Rightarrow> obj \<Rightarrow> bool" where
  "isAt k key ob \<longleftrightarrow> kind_of ob = k \<and> ObjectKeyFromObject ob = key"

definition mem_Get :: "kind \<Rightarrow> nname \<Rightarrow> store \<Rightarrow> (gerror + obj) \<times> store" where
  "mem_Get k key w =
     ((case find (isAt k key) w of
         None \<Rightarrow> Inl (StatusError ReasonNotFound ''not found'')
       | Some ob \<Rightarrow> Inr ob), w)"

definition mem_List :: "kind \<Rightarrow> string option \<Rightarrow> nat option \<Rightarrow> store \<Rightarrow> (gerror + obj list) \<times> store" where
  "mem_List k ns lim w =
     (let found = filter (\<lambda>ob. kind_of ob = k \<and> (ns = None \<or> ns = Some (Namespace (meta ob)))) w in
      (Inr (case lim of None \<Rightarrow> found | Some n \<Rightarrow> take n found), w))"

definition mem_Create :: "obj \<Rightarrow> store \<Rightarrow> (gerror + obj) \<times> store" where
  "mem_Create ob w =
     (if list_ex (isAt (kind_of ob) (ObjectKeyFromObject ob)) w
      then (Inl (StatusError ReasonAlreadyExists ''exists''), w)
      else (Inr ob, w @ [ob]))"

definition mem_Update :: "obj \<Rightarrow> store \<Rightarrow> (gerror + obj) \<times> store" where
  "mem_Update ob w =
     (if list_ex (isAt (kind_of ob) (ObjectKeyFromObject ob)) w
      then (Inr ob, map (\<lambda>o1. if isAt (kind_of ob) (ObjectKeyFromObject ob) o1 then ob else o1) w)
      else (Inl (StatusError ReasonNotFound ''not found''), w))"

definition mem_Delete :: "kind \<Rightarrow> nname \<Rightarrow> store \<Rightarrow> (gerror + unit) \<times> store" where
  "mem_Delete k key w =
     (if list_ex (isAt k key) w
      then (Inr (), filter (\<lambda>ob. \<not> isAt k key ob) w)
      else (Inl (StatusError ReasonNotFound ''not found''), w))"

text \<open>Configuration texts are looked up in tables instead of being parsed.\<close>

definition yamlTable :: "(string \<times> 'a) list \<Rightarrow> 'a \<Rightarrow> string \<Rightarrow> 'a \<times> gerror option" where
  "yamlTable table zero text =
     (case map_of table text of
        Some v \<Rightarrow> (v, None)
      | None \<Rightarrow> (zero, Some (ErrorNew ''yaml: unmarshal error'')))"

definition memHost ::
  "(string \<times> pagerDutyConfig) list \<Rightarrow> (string \<times> smtpConfig) list \<Rightarrow>
   (string \<times> remoteWriteConfig) list \<Rightarrow> store agent_host" where
  "memHost pds smtps rws =
     \<lparr>api_Get = mem_Get, api_List = mem_List, api_Create = mem_Create, api_Update = mem_Update,
      api_Delete = mem_Delete,
      os_ReadFile = (\<lambda>path w. (Inr ''<html/>'', w)),
      http_Get = (\<lambda>url w. (Inl (ErrorNew ''no route''), w)),
      time_Sleep = (\<lambda>d w. w),
      yaml_pagerDuty = yamlTable pds emptyPagerDutyConfig,
      yaml_smtp = yamlTable smtps emptySmtpConfig,
      yaml_remoteWrite = yamlTable rws \<lparr>rwc_BearerToken = ''''\<rparr>,
      yaml_Marshal = (\<lambda>rules. Inr ''rules'')\<rparr>"

lemma memHost_keyed: "answers_keyed (memHost pds smtps rws)"
  by (auto simp: answers_keyed_def memHost_def mem_Get_def mem_Create_def mem_Update_def isAt_def
      find_Some_iff split: option.splits if_splits)

text \<open>The state of the agent's reconciler when the process starts.\<close>

definition freshAgent :: "string \<Rightarrow> string list \<Rightarrow> store \<Rightarrow> store agent" where
  "freshAgent ns crds w =
     (let z = named KSecret '''' '''' in
      \<lparr>world = w, calls = [], agentNamespace = ns,
       AvailableCRDs = fmap_of_list (map (\<lambda>c. (c, True)) crds),
       CustomerNotificationHTMLPath = ''templates/customernotification.html'',
       prometheus = z, prometheusKubeRBACConfigMap = z, prometheusService = z,
       prometheusProxyNetworkPolicy = z, alertmanager = z, alertmanagerConfig = z,
       alertmanagerSecret = z, alertRelabelConfigSecret = z, k8sMetricsServiceMonitor = z,
       managedFusionSecret = z, smtpConfigData = emptySmtpConfig,
       pagerDutyConfigData = emptyPagerDutyConfig, egressNetworkPolicy = z, egressFirewall = z,
       remoteWriteConfigData = None\<rparr>)"

text \<open>A complete configuration, and the objects of a cluster the agent can be installed on.\<close>

definition samplePagerDuty :: pagerDutyConfig where
  "samplePagerDuty = \<lparr>pd_SOPEndpoint = ''sop'', pd_ServiceKey = ''key''\<rparr>"

definition sampleSmtp :: smtpConfig where
  "sampleSmtp = \<lparr>smtp_Endpoint = ''smtp://h:25'', smtp_Username = ''u'', smtp_Password = ''p'',
     smtp_FromAddress = ''f'', smtp_NotificationEmails = [''a'', ''b'']\<rparr>"

definition sampleHost :: "store agent_host" where
  "sampleHost = memHost [(''pd'', samplePagerDuty)] [(''smtp'', sampleSmtp)] [(''rw'', \<lparr>rwc_BearerToken = ''t''\<rparr>)]"

definition sampleSecret :: "string list \<Rightarrow> int option \<Rightarrow> obj" where
  "sampleSecret finalizers deletion =
     \<lparr>meta = emptyMeta\<lparr>Name := managedFusionSecretName, Namespace := ''ns'', UID := ''1'',
        Finalizers := finalizers, DeletionTimestamp := deletion\<rparr>,
      body = Secret (Some (fmap_of_list [(''pager_duty_config'', ''pd''), (''smtp_config'', ''smtp'')]))\<rparr>"

definition sampleCSV :: obj where
  "sampleCSV =
     (named KClusterServiceVersion ''managed-fusion-agent.v1'' ''ns'')
       \<lparr>body := ClusterServiceVersion
          [\<lparr>sd_Name = ''managed-fusion-controller-manager'',
            sd_Containers = [\<lparr>ct_Name = ''kube-rbac-proxy'', ct_Image = ''img'', ct_Args = [], ct_Ports = [],
                              ct_VolumeMounts = [], ct_Resources = noResources\<rparr>]\<rparr>]\<rparr>"

definition sampleStore :: store where
  "sampleStore =
     [sampleSecret [] None, sampleCSV,
      (named KClusterVersion ''version'' '''')\<lparr>body := ClusterVersion ''c''\<rparr>,
      (named KConfigMap IMDSConfigMapName ''ns'')
        \<lparr>body := ConfigMap (Some (fmap_of_list [(CIDRKey, ''10.0.0.0/16;'')]))\<rparr>]"

lemma freshAgent_simps [simp]:
  "world (freshAgent ns crds w) = w" "calls (freshAgent ns crds w) = []"
  "agentNamespace (freshAgent ns crds w) = ns" "remoteWriteConfigData (freshAgent ns crds w) = None"
  by (simp_all add: freshAgent_def Let_def)

lemma sampleHost_simps [simp]:
  "api_Get sampleHost = mem_Get" "api_List sampleHost = mem_List" "api_Create sampleHost = mem_Create"
  "api_Update sampleHost = mem_Update" "api_Delete sampleHost = mem_Delete"
  by (simp_all add: sampleHost_def memHost_def)

lemma mem_Get_head: "isAt k key ob \<Longrightarrow> mem_Get k key (ob # w) = (Inr ob, ob # w)"
  by (simp add: mem_Get_def)

lemma sampleSecret_isAt [simp]:
  "isAt KSecret (managedFusionSecretName, ''ns'') (sampleSecret fs d)"
  "isAt KSecret (managedFusionSecretName, ''ns'') (setBody (Secret m) (sampleSecret fs d))"
  by (simp_all add: isAt_def sampleSecret_def setBody_def kind_of_def ObjectKeyFromObject_def)

lemma sampleSecret_kind [simp]: "kind_of (sampleSecret fs d) = KSecret"
  by (simp add: sampleSecret_def kind_of_def)

section \<open>Evaluating runs\<close>

text \<open>A server that refuses to create anything, so that a run stops at its first create.\<close>

definition refusingHost :: "store agent_host" where
  "refusingHost = sampleHost\<lparr>api_Create := (\<lambda>ob w. (Inl (StatusError ReasonForbidden ''forbidden''), w))\<rparr>"

lemmas eval_server =
  mem_Get_def mem_Create_def mem_Update_def mem_List_def mem_Delete_def isAt_def memHost_def yamlTable_def
  sampleHost_def refusingHost_def freshAgent_def sampleSecret_def samplePagerDuty_def sampleSmtp_def
  sampleCSV_def

lemmas eval_objects =
  emptyMeta_def named_def kind_of_def ObjectKeyFromObject_def goMapGet_def IsZero_def AddFinalizer_def
  RemoveFinalizer_def setFinalizers_def SetControllerReference_def validateOwner_def GVKForObject_def
  controllerRef_def upsertOwnerRef_def setOwners_def setBody_def AddLabel_def setLabels_def
  AddAnnotation_def setAnnotations_def setServiceSpec_def Semantic_DeepEqual_def semObj_def semMeta_def
  nilToEmpty_def decodeAs_def fmlookup_of_list

lemma refused_run:
  "list_ex is_create (issued (Reconcile refusingHost) (freshAgent ''ns'' [] [sampleSecret [] None]))"
  unfolding issued_def Reconcile_def
  by (simp add: prog_unfold const_defs eval_server eval_objects bindM_step thenM_step Let_def
      reconcilePhases_def resourcePhases_def alertRelabelConfig_def secretKey_def
      del: bindM_def thenM_def cong: bindM_eval_cong thenM_eval_cong)

lemma refusingHost_keyed: "answers_keyed refusingHost"
  by (auto simp: answers_keyed_def refusingHost_def sampleHost_def memHost_def mem_Get_def mem_Update_def
      isAt_def find_Some_iff split: option.splits if_splits)

definition bareCSV :: obj where
  "bareCSV = (named KClusterServiceVersion ''managed-fusion-agent.v1'' ''ns'')\<lparr>body := ClusterServiceVersion []\<rparr>"

definition blindHost :: "store agent_host" where
  "blindHost = sampleHost\<lparr>api_Create := (\<lambda>ob w. (Inr (named KSecret '''' ''''), w)),
     api_List := (\<lambda>k n lim w. (Inr [bareCSV], w))\<rparr>"

lemma crashed_run:
  "\<exists>msg. fst (Reconcile blindHost (freshAgent ''ns'' [] [sampleSecret [managedFusionFinalizer] None])) = Crash msg"
  unfolding Reconcile_def
  by (simp add: prog_unfold const_defs eval_server eval_objects bindM_step thenM_step Let_def blindHost_def
      reconcilePhases_def resourcePhases_def alertRelabelConfig_def secretKey_def HasPrefix_def bareCSV_def
      del: bindM_def thenM_def cong: bindM_eval_cong thenM_eval_cong)

end
