(* ===== verification/Agent_Props.thy ===== *)
theory Agent_Props
  imports Agent_Outcomes Mem_Server
begin

text \<open>
  The properties of the agent's reconciler, each with an instance on concrete input.
\<close>

section \<open>Deletion\<close>

lemma Reconcile_deletes:
  assumes "CDelete k key res \<in> set (issued (Reconcile x) r)"
  shows "\<exists>sec items rest.
    issued (Reconcile x) r =
      CGet KSecret (managedFusionSecretName, agentNamespace r) (Inr sec) #
      CList KManagedFusionOffering None None (Inr items) # rest \<and>
    \<not> IsZero (DeletionTimestamp (meta sec)) \<and>
    (if items = [] then k = KNamespace \<and> key = (agentNamespace r, '''')
     else k = KManagedFusionOffering \<and>
          (\<exists>ob\<in>set items. IsZero (DeletionTimestamp (meta ob)) \<and> key = ObjectKeyFromObject ob))"
proof (cases rule: Reconcile_issued [of x r])
  case stop
  with assms show ?thesis by simp
next
  case run: (phases s sec)
  then have c: "CDelete k key res \<in> set (issued (reconcilePhases x) s)"
    using assms by simp
  have del: "\<not> IsZero (DeletionTimestamp (meta sec))"
  proof
    assume "IsZero (DeletionTimestamp (meta sec))"
    then have "list_all (\<lambda>c. \<not> is_delete c) (issued (reconcilePhases x) s)"
      using run(2) by (intro reconcilePhases_deletes) simp
    with c show False by (auto simp: list_all_iff)
  qed
  obtain rest where rest: "issued (uninstallPhase x) s =
      CList KManagedFusionOffering None None (offeringsAnswer x s) # rest"
    "list_all (afterList (agentNamespace s) (offeringsAnswer x s)) rest"
    by (rule uninstallPhase_issued)
  have log: "issued (reconcilePhases x) s = CList KManagedFusionOffering None None (offeringsAnswer x s) # rest"
    using rest(1) reconcilePhases_uninstall [of s x] del run(2) by (simp add: issued_def)
  with c rest(2) have after: "afterList (agentNamespace r) (offeringsAnswer x s) (CDelete k key res)"
    using run(4) by (auto simp: list_all_iff)
  then obtain items where items: "offeringsAnswer x s = Inr items"
    by (cases "offeringsAnswer x s") (auto simp: afterList_def)
  show ?thesis
    using run(5) log del after items
    by (auto simp: afterList_def finalCall_def offeringDelete_def secretKey_def)
qed

text \<open>
  C1: a run of the agent's reconciler deletes something only when the configuration secret
  it has just read is terminating and the list of offerings has been answered; it deletes
  its own namespace only when that list is empty, and otherwise only offerings of the list
  that are not terminating yet.
\<close>

theorem agent_deletes_only_on_teardown:
  assumes "CDelete k key res \<in> set (issued (Reconcile x) r)"
  shows "\<exists>sec items rest.
    issued (Reconcile x) r =
      CGet KSecret (managedFusionSecretName, agentNamespace r) (Inr sec) #
      CList KManagedFusionOffering None None (Inr items) # rest \<and>
    \<not> IsZero (DeletionTimestamp (meta sec)) \<and>
    (if items = [] then k = KNamespace \<and> key = (agentNamespace r, '''')
     else k = KManagedFusionOffering \<and>
          (\<exists>ob\<in>set items. IsZero (DeletionTimestamp (meta ob)) \<and> key = ObjectKeyFromObject ob))"
  using assms by (rule Reconcile_deletes)

lemma agent_deletes_only_on_teardown_witness:
  "\<exists>sec rest.
    issued (Reconcile sampleHost) (freshAgent ''ns'' [] [sampleSecret [managedFusionFinalizer] (Some 5)]) =
      CGet KSecret (managedFusionSecretName, ''ns'') (Inr sec) #
      CList KManagedFusionOffering None None (Inr []) # rest \<and>
    \<not> IsZero (DeletionTimestamp (meta sec))"
proof -
  have "list_ex (deletes_at KNamespace (''ns'', ''''))
    (issued (Reconcile sampleHost) (freshAgent ''ns'' [] [sampleSecret [managedFusionFinalizer] (Some 5)]))"
    by code_simp
  then obtain res where "CDelete KNamespace (''ns'', '''') res \<in> set (issued (Reconcile sampleHost)
      (freshAgent ''ns'' [] [sampleSecret [managedFusionFinalizer] (Some 5)]))"
    unfolding list_ex_iff deletes_at_iff by blast
  from agent_deletes_only_on_teardown [OF this] show ?thesis
    unfolding freshAgent_simps by (auto split: if_splits)
qed

section \<open>Configuration\<close>

text \<open>
  C9: when the secret has no \<open>pager_duty_config\<close> or no \<open>smtp_config\<close> entry, the run fails
  after its single read: nothing is written, and nothing is uninstalled either, even when
  the secret is terminating.
\<close>

theorem agent_incomplete_secret_fails:
  assumes get: "fst (api_Get x KSecret (managedFusionSecretName, agentNamespace r) (world r)) = Inr sec"
    and sec: "kind_of sec = KSecret"
    and entry: "goMapGet (secretData sec) ''pager_duty_config'' = None \<or>
      goMapGet (secretData sec) ''smtp_config'' = None"
  shows "(\<exists>e. fst (Reconcile x r) = Err e) \<and>
    issued (Reconcile x) r = [CGet KSecret (managedFusionSecretName, agentNamespace r) (Inr sec)]"
proof -
  obtain s where s: "managedFusionSecret s = sec"
      "calls s = calls r @ [CGet KSecret (managedFusionSecretName, agentNamespace r) (Inr sec)]"
    and run: "Reconcile x r = thenM (loadConfig x) (reconcilePhases x) s"
    using Reconcile_after_get [OF get sec] by blast
  obtain e where "fst (loadConfig x s) = Err e"
    using loadConfig_missing [of s x] entry s by auto
  then have "fst (Reconcile x r) = Err e" "snd (Reconcile x r) = snd (loadConfig x s)"
    by (auto simp: run thenM_def bindM_def split: prod.splits)
  then show ?thesis using s by (simp add: issued_def loadConfig_keeps)
qed

lemma agent_incomplete_secret_fails_witness:
  "(\<exists>e. fst (Reconcile sampleHost (freshAgent ''ns'' [] [setBody (Secret None) (sampleSecret [''f''] (Some 5))])) = Err e) \<and>
   issued (Reconcile sampleHost) (freshAgent ''ns'' [] [setBody (Secret None) (sampleSecret [''f''] (Some 5))]) =
     [CGet KSecret (managedFusionSecretName, ''ns'') (Inr (setBody (Secret None) (sampleSecret [''f''] (Some 5))))]"
proof -
  let ?sec = "setBody (Secret None) (sampleSecret [''f''] (Some 5))"
  let ?r = "freshAgent ''ns'' [] [?sec]"
  have "fst (api_Get sampleHost KSecret (managedFusionSecretName, agentNamespace ?r) (world ?r)) = Inr ?sec"
    by (simp add: mem_Get_head)
  from agent_incomplete_secret_fails [OF this] show ?thesis
    by (simp add: goMapGet_def)
qed

text \<open>
  C11: a run in which the secret has no \<open>remote_write_config\<close> entry leaves the remote-write
  configuration of earlier runs in place, whatever else the run does: a bearer token once
  read is still used after its entry has been removed from the secret.
\<close>

theorem agent_remote_write_stale:
  assumes get: "fst (api_Get x KSecret (managedFusionSecretName, agentNamespace r) (world r)) = Inr sec"
    and sec: "kind_of sec = KSecret"
    and entry: "goMapGet (secretData sec) ''remote_write_config'' = None"
  shows "remoteWriteConfigData (snd (Reconcile x r)) = remoteWriteConfigData r"
proof -
  obtain s where s: "managedFusionSecret s = sec" "remoteWriteConfigData s = remoteWriteConfigData r"
    and run: "Reconcile x r = thenM (loadConfig x) (reconcilePhases x) s"
    using Reconcile_after_get [OF get sec] by blast
  have load: "remoteWriteConfigData (snd (loadConfig x s)) = remoteWriteConfigData r"
    using entry s loadConfig_remoteWrite [of s x] by simp
  have "emits (\<lambda>s. remoteWriteConfigData s = remoteWriteConfigData r) (\<lambda>_. True) (reconcilePhases x)"
    by (rule frame_reconcilePhases) (simp add: agent_frame_def env_stable_def)
  then have "remoteWriteConfigData (snd (reconcilePhases x (snd (loadConfig x s)))) = remoteWriteConfigData r"
    using load by (rule emits_inv)
  then show ?thesis
    using snd_thenM [of "loadConfig x" "reconcilePhases x" s] load run by auto
qed

lemma agent_remote_write_stale_witness:
  "remoteWriteConfigData (snd (Reconcile sampleHost
     (freshAgent ''ns'' [] [sampleSecret [] None]\<lparr>remoteWriteConfigData := Some \<lparr>rwc_BearerToken = ''old''\<rparr>\<rparr>)))
   = Some \<lparr>rwc_BearerToken = ''old''\<rparr>"
proof -
  let ?r = "freshAgent ''ns'' [] [sampleSecret [] None]\<lparr>remoteWriteConfigData := Some \<lparr>rwc_BearerToken = ''old''\<rparr>\<rparr>"
  have "fst (api_Get sampleHost KSecret (managedFusionSecretName, agentNamespace ?r) (world ?r)) =
      Inr (sampleSecret [] None)"
    by (simp add: mem_Get_head)
  moreover have "goMapGet (secretData (sampleSecret [] None)) ''remote_write_config'' = None"
    by (simp add: sampleSecret_def goMapGet_def fmlookup_of_list)
  ultimately show ?thesis
    using agent_remote_write_stale [of sampleHost ?r "sampleSecret [] None"] by simp
qed

section \<open>Writes\<close>

text \<open>
  C4: every create and update of a run is of one of the reconciler's own objects: the
  configuration secret and the eleven resources, in the agent's namespace (for a server
  that answers with the objects it is asked about).
\<close>

theorem agent_writes_only_own_objects:
  assumes "answers_keyed x" and "c \<in> set (issued (Reconcile x) r)"
    and "\<not> is_read c" and "\<not> is_delete c"
  shows "\<exists>k key. (k, key) \<in> agentKeys (agentNamespace r) \<and> puts_at k key c"
  using Reconcile_keyed [OF assms(1,2)] assms(3,4)
  by (auto simp: agentCall_def reads_or_puts_def)

lemma agent_writes_only_own_objects_witness:
  "\<exists>k key ob res. (k, key) \<in> agentKeys ''ns'' \<and> puts_at k key (CCreate ob res)"
proof -
  obtain ob res where "CCreate ob res \<in> set (issued (Reconcile refusingHost)
      (freshAgent ''ns'' [] [sampleSecret [] None]))"
    using refused_run unfolding list_ex_iff is_create_iff by blast
  from agent_writes_only_own_objects [OF refusingHost_keyed this] show ?thesis by fastforce
qed

text \<open>
  C2: the agent creates a resource only when the secret is not terminating, has been
  stored, and carries the agent's finalizer: either it had the finalizer when it was read,
  or the run's first write added it and was accepted, before anything was created.
\<close>

theorem agent_finalizer_before_resources:
  assumes c: "CCreate ob res \<in> set (issued (Reconcile x) r)"
  shows "\<exists>sec rest. issued (Reconcile x) r = CGet KSecret (managedFusionSecretName, agentNamespace r) (Inr sec) # rest \<and>
    IsZero (DeletionTimestamp (meta sec)) \<and> UID (meta sec) \<noteq> '''' \<and>
    (managedFusionFinalizer \<in> set (Finalizers (meta sec)) \<or>
     (\<exists>sec' answer later. rest = CUpdate sec' (Inr answer) # later \<and>
        managedFusionFinalizer \<in> set (Finalizers (meta sec')) \<and> CCreate ob res \<in> set later))"
proof (cases rule: Reconcile_issued [of x r])
  case stop
  with c show ?thesis by simp
next
  case run: (phases s sec)
  then have c1: "CCreate ob res \<in> set (issued (reconcilePhases x) s)" using c by simp
  have zero: "IsZero (DeletionTimestamp (meta sec))"
    using no_create_on_uninstall [OF c1] run(2) by blast
  have uid: "UID (meta sec) \<noteq> ''''"
    using c1 run(2) zero by (auto simp: reconcilePhases_def gets_def bindM_def issued_def ret_def)
  have phases: "reconcilePhases x s = thenM (finalizerPhase x) (thenM (resourcePhases x) (ret noRequeue)) s"
    using run(2) zero uid by (simp add: reconcilePhases_def gets_def bindM_def)
  have rest: "extends (thenM (resourcePhases x) (ret noRequeue))"
    by (intro emits_thenM emits_ret emits_extends [OF nodelete_resourcePhases])
  show ?thesis
    using run(2)
  proof (cases rule: finalizerPhase_run [where x = x])
    case present
    with run(5) zero uid show ?thesis by (auto simp: secretKey_def)
  next
    case (refused sec' e e' s1)
    then have "issued (reconcilePhases x) s = [CUpdate sec' (Inl e')]"
      by (simp add: issued_def phases thenM_def bindM_def)
    with c1 show ?thesis by simp
  next
    case (added sec' ans s1)
    have "calls (snd (reconcilePhases x s)) = calls s1 @ issued (thenM (resourcePhases x) (ret noRequeue)) s1"
      using added calls_issued [OF rest TrueI] by (simp add: phases thenM_def [of "finalizerPhase x"] bindM_def [of "finalizerPhase x"])
    then have "issued (reconcilePhases x) s = CUpdate sec' (Inr ans) # issued (thenM (resourcePhases x) (ret noRequeue)) s1"
      using added by (simp add: issued_def [of "reconcilePhases x"])
    with run(5) zero uid added c1 show ?thesis by (auto simp: secretKey_def)
  qed
qed

lemma agent_finalizer_before_resources_witness:
  "\<exists>sec rest. issued (Reconcile refusingHost) (freshAgent ''ns'' [] [sampleSecret [] None]) =
      CGet KSecret (managedFusionSecretName, ''ns'') (Inr sec) # rest \<and>
    IsZero (DeletionTimestamp (meta sec)) \<and> UID (meta sec) \<noteq> ''''"
proof -
  obtain ob res where "CCreate ob res \<in> set (issued (Reconcile refusingHost)
      (freshAgent ''ns'' [] [sampleSecret [] None]))"
    using refused_run unfolding list_ex_iff is_create_iff by blast
  from agent_finalizer_before_resources [OF this] show ?thesis
    unfolding freshAgent_simps by blast
qed

section \<open>Panics\<close>

text \<open>
  C8: the only panic a run of the agent can end in comes from the nil deployment of
  \<open>reconcilePrometheus\<close>: the run has listed the cluster service versions, found the
  agent's one, and it has no deployment \<open>managed-fusion-controller-manager\<close>.
\<close>

theorem agent_panics_only_without_deployment:
  assumes "fst (Reconcile x r) = Crash msg"
  shows "\<exists>n items csv. CList KClusterServiceVersion n None (Inr items) \<in> set (issued (Reconcile x) r) \<and>
    csvWithPrefix agentCSVPrefix items = Some csv \<and>
    (\<forall>d\<in>set (csvDeployments csv). sd_Name d \<noteq> ''managed-fusion-controller-manager'')"
proof -
  have "crashes_if missingDeployment (Reconcile x)"
    unfolding Reconcile_loadConfig initReconciler_def loadSecret_def
    by (intro crashes_if_rules crashes_if_client crashes_reconcilePhases loadConfig_crashes emits_rules
        emits_client_get emits_modify extends_reconcilePhases extends_loadConfig; simp add: Let_def)
  with assms show ?thesis unfolding crashes_if_def missingDeployment_def by blast
qed

lemma agent_panics_only_without_deployment_witness:
  "\<exists>n items csv. CList KClusterServiceVersion n None (Inr items) \<in> set (issued (Reconcile blindHost)
       (freshAgent ''ns'' [] [sampleSecret [managedFusionFinalizer] None])) \<and>
    csvWithPrefix agentCSVPrefix items = Some csv"
proof -
  obtain msg where "fst (Reconcile blindHost (freshAgent ''ns'' [] [sampleSecret [managedFusionFinalizer] None])) = Crash msg"
    using crashed_run by blast
  from agent_panics_only_without_deployment [OF this] show ?thesis by blast
qed

section \<open>Requeueing of the uninstallation\<close>

text \<open>
  C12: while offerings exist, an uninstallation run that has issued deletes without errors
  asks to be run again after ten nanoseconds (the literal 10 is a duration, less than the
  ten seconds the other controller waits); when every offering is already terminating it
  issues nothing and asks for no further run at all.
\<close>

theorem agent_uninstall_requeue:
  assumes list: "fst (api_List x KManagedFusionOffering None None (world s)) = Inr items"
    and items: "items \<noteq> []" "\<forall>ob\<in>set items. kind_of ob = KManagedFusionOffering"
  shows "if list_ex (\<lambda>ob. IsZero (DeletionTimestamp (meta ob))) items
    then (\<exists>res. fst (uninstallPhase x s) = Ok res \<and> RequeueAfter res = 10 \<and> RequeueAfter res < 10 * Second) \<or>
         (\<exists>e. fst (uninstallPhase x s) = Err e)
    else fst (uninstallPhase x s) = Ok \<lparr>Requeue = False, RequeueAfter = 0\<rparr> \<and>
         issued (uninstallPhase x) s = [CList KManagedFusionOffering None None (Inr items)]"
proof -
  have ans: "offeringsAnswer x s = Inr items"
    using list items(2) by (simp add: offeringsAnswer_def map_idI)
  obtain s1 where s1: "calls s1 = calls s @ [CList KManagedFusionOffering None None (offeringsAnswer x s)]"
      "uninstallPhase x s =
      (case offeringsAnswer x s of
         Inl e \<Rightarrow> (Err (Errorf ''failed to list ManagedFusionOffering CRs'' e), s1)
       | Inr items \<Rightarrow> if items = [] then finalRemoval x s1 else removeOfferings x items s1)"
    by (rule uninstallPhase_run)
  have log: "calls s1 = calls s @ [CList KManagedFusionOffering None None (Inr items)]"
    and run: "uninstallPhase x s = removeOfferings x items s1"
    using s1 ans items(1) by simp_all
  show ?thesis
    using removeOfferings_result [of items x s1] log
    by (auto simp: run issued_def noRequeue_def Second_def)
qed

lemma agent_uninstall_requeue_witness:
  "fst (uninstallPhase sampleHost (freshAgent ''ns'' []
     [(named KManagedFusionOffering ''o'' ''ns'')\<lparr>meta := emptyMeta\<lparr>DeletionTimestamp := Some 5\<rparr>\<rparr>])) =
   Ok \<lparr>Requeue = False, RequeueAfter = 0\<rparr>"
proof -
  let ?o = "(named KManagedFusionOffering ''o'' ''ns'')\<lparr>meta := emptyMeta\<lparr>DeletionTimestamp := Some 5\<rparr>\<rparr>"
  have "kind_of ?o = KManagedFusionOffering" by (simp add: named_def kind_of_def)
  then show ?thesis
    using agent_uninstall_requeue [of sampleHost "freshAgent ''ns'' [] [?o]" "[?o]"]
    by (simp add: mem_List_def IsZero_def)
qed

section \<open>What is written\<close>






end
