(* ===== verification/Offering.thy ===== *)
theory Offering
  imports Controllers
begin

text \<open>
  The offering's reconciler, \<open>controllers/managedfusionoffering_controller.go\<close>, without its
  entry point: its state, the helper methods the plugins share, the desired specs of a kind of
  offering and the three objects of the operator lifecycle manager. \<open>Reconcile\<close> and the
  dispatch to the plugins are in \<open>Offering_Reconcile\<close>.
\<close>

section \<open>Constants and state\<close>

definition operatorGroupName :: string where
  [const_defs]: "operatorGroupName = ''managed-fusion-offering-og''"

definition catalogSourceName :: string where
  [const_defs]: "catalogSourceName = ''managed-fusion-offering-catalog''"

definition subscriptionName :: string where
  [const_defs]: "subscriptionName = ''managed-fusion-offering''"

text \<open>
  The configurations of the two plugins, as the YAML decoder fills them in. A Go \<open>int\<close> has 64
  bits; the code only compares this one and converts it, so it is an integer here.
\<close>

record dataFoundationSpec =
  UsableCapacityInTiB :: int
  OnboardingValidationKey :: string

record dataFoundationClientSpec =
  OnboardingTicket :: string
  ProviderEndpoint :: string

text \<open>
  \<open>yaml.Unmarshal\<close> of \<open>k8s.io/apimachinery\<close> decodes into a fresh struct of the plugin, or into
  a nil interface when the offering is of no known kind.
\<close>

record 'w offering_host = "'w host" +
  yaml_dataFoundation :: "string \<Rightarrow> dataFoundationSpec \<times> gerror option"
  yaml_dataFoundationClient :: "string \<Rightarrow> dataFoundationClientSpec \<times> gerror option"
  yaml_nil :: "string \<Rightarrow> gerror option"

text \<open>\<open>ManagedFusionOfferingReconciler\<close>; its scheme is \<open>agentScheme\<close>.\<close>

record 'w offering = "('w, call) env" +
  namespace :: string
  offeringCRDs :: "(string, bool) fmap"
  managedFusionOffering :: obj
  operatorGroup :: obj
  catalogSource :: obj
  subscription :: obj

type_synonym ('w, 'a) offering_prog = "('w offering, 'a) prog"

fun offeringSpecOf :: "obj \<Rightarrow> ManagedFusionOfferingSpec" where
  "offeringSpecOf ob =
     (case body ob of
        ManagedFusionOffering spec \<Rightarrow> spec
      | _ \<Rightarrow> \<lparr>mfo_Kind = '''', mfo_Release = '''', mfo_Config = ''''\<rparr>)"

text \<open>\<open>initReconciler\<close>, for a request of a name and a namespace.\<close>

definition initOffering :: "string \<Rightarrow> string \<Rightarrow> ('w, unit) offering_prog" where
  [prog_unfold]: "initOffering reqNamespace reqName = modify (\<lambda>r.
     r\<lparr>namespace := reqNamespace,
       managedFusionOffering := named KManagedFusionOffering reqName reqNamespace,
       operatorGroup := named KOperatorGroup operatorGroupName reqNamespace,
       catalogSource := named KCatalogSource catalogSourceName reqNamespace,
       subscription := named KSubscription subscriptionName reqNamespace\<rparr>)"

section \<open>Methods the plugins share\<close>

text \<open>\<open>own\<close>: the offering is added to the owners of a resource.\<close>

definition ownBy :: "bool \<Rightarrow> ('w, 'z) offering_scheme \<Rightarrow> obj \<Rightarrow> gerror + obj" where
  [prog_unfold]: "ownBy isController r res =
     AddOwnerReference agentScheme (managedFusionOffering r) res isController"

text \<open>\<open>CreateOrUpdate\<close> of an owned field with a closure that has no effects beside its object.\<close>

definition createOrUpdateOwned ::
  "('w, 'y) client_scheme \<Rightarrow> (('w, 'z) offering_scheme \<Rightarrow> obj) \<Rightarrow>
   ((obj \<Rightarrow> obj) \<Rightarrow> ('w, 'z) offering_scheme \<Rightarrow> ('w, 'z) offering_scheme) \<Rightarrow>
   (('w, 'z) offering_scheme \<Rightarrow> obj \<Rightarrow> obj outcome) \<Rightarrow> (('w, 'z) offering_scheme, unit) prog" where
  [prog_unfold]: "createOrUpdateOwned x field field_update h =
     createOrUpdate x field field_update (\<lambda>r ob. liftOutcome (withOwner (ownBy True r) (h r) ob))"

text \<open>
  \<open>GetAndUpdate\<close>: the object is read, changed, and written back when the change is one. Its
  test for a nil function never succeeds, as all callers pass a closure. The result is the
  object as the pointer leaves it.
\<close>

definition GetAndUpdate ::
  "('w, 'y) client_scheme \<Rightarrow> obj \<Rightarrow> (obj \<Rightarrow> (('w, call, 'z) env_scheme, obj) prog) \<Rightarrow>
   (('w, call, 'z) env_scheme, obj) prog" where
  [prog_unfold]: "GetAndUpdate x ob f =
     bindM (client_get x (kind_of ob) (ObjectKeyFromObject ob)) (\<lambda>existing.
     bindM (mutate f (ObjectKeyFromObject existing) existing) (\<lambda>ob'.
       if Semantic_DeepEqual existing ob' then ret ob'
       else client_update x ob'))"

definition offeringCSVByPrefix ::
  "('w, 'y) client_scheme \<Rightarrow> string \<Rightarrow> (('w, 'z) offering_scheme, obj) prog" where
  [prog_unfold]: "offeringCSVByPrefix x name =
     bindM (gets namespace) (\<lambda>ns. csvInNamespace x ns name)"

text \<open>\<open>utils.HandleMissingWatch\<close> ends the process, to be restarted with the watch.\<close>

definition HandleMissingWatch :: "string \<Rightarrow> ('s, 'a) prog" where
  [prog_unfold]: "HandleMissingWatch missingCRDName =
     crash (''a watch is missing for resource type '' @ missingCRDName @ '', restarting agent'')"

text \<open>
  The check at the head of both plugins: a definition that was not there when the agent
  started is looked for; when it has appeared the agent restarts.
\<close>

definition requireCRD ::
  "('w, 'y) client_scheme \<Rightarrow> (string, bool) fmap \<Rightarrow> string \<Rightarrow> (('w, 'z) offering_scheme, unit) prog" where
  [prog_unfold]: "requireCRD x crds name =
     (if \<not> crdAvailable crds name then
        bindM (client_get x KCustomResourceDefinition (name, '''')) (\<lambda>_. HandleMissingWatch name)
      else ret ())"

section \<open>The desired specs of a kind of offering\<close>

definition pluginGetDesiredOperatorGroupSpec :: "('w, 'z) offering_scheme \<Rightarrow> string list" where
  "pluginGetDesiredOperatorGroupSpec r =
     (let knd = mfo_Kind (offeringSpecOf (managedFusionOffering r)) in
      if knd = KindDataFoundation then [namespace r]
      else if knd = KindDataFoundationClient then []
      else [])"

definition pluginGetDesiredCatalogSourceSpec :: CatalogSourceSpec where
  "pluginGetDesiredCatalogSourceSpec =
     \<lparr>cs_Image = ''registry.redhat.io/redhat/redhat-operator-index:v4.12'', cs_SourceType = ''''\<rparr>"

definition pluginGetDesiredSubscriptionSpec ::
  "('w, 'z) offering_scheme \<Rightarrow> SubscriptionSpec option" where
  "pluginGetDesiredSubscriptionSpec r =
     (let knd = mfo_Kind (offeringSpecOf (managedFusionOffering r)) in
      if knd = KindDataFoundation then
        Some \<lparr>sb_Channel = ''stable-4.12'', sb_Package = ''ocs-operator'',
              sb_Env = Some [(''SKIP_NOOBAA_CRD_WATCH'', ''true''),
                             (''ROOK_DISABLE_OBJECT_BUCKET_CLAIM'', ''true'')],
              sb_CatalogSource = '''', sb_CatalogSourceNamespace = '''', sb_InstallPlanApproval = ''''\<rparr>
      else if knd = KindDataFoundationClient then
        Some \<lparr>sb_Channel = ''stable-4.12'', sb_Package = ''ocs-client-operator'', sb_Env = None,
              sb_CatalogSource = '''', sb_CatalogSourceNamespace = '''', sb_InstallPlanApproval = ''''\<rparr>
      else None)"

section \<open>Operator group, catalog source, subscription\<close>

definition reconcileOperatorGroup :: "('w, 'y) client_scheme \<Rightarrow> ('w, unit) offering_prog" where
  [prog_unfold]: "reconcileOperatorGroup x =
     wrapErr ''failed to create/update OLM operator group''
       (createOrUpdateOwned x operatorGroup operatorGroup_update
          (\<lambda>r. fillBody (OperatorGroup (pluginGetDesiredOperatorGroupSpec r))))"

definition reconcileCatalogSource :: "('w, 'y) client_scheme \<Rightarrow> ('w, unit) offering_prog" where
  [prog_unfold]: "reconcileCatalogSource x =
     wrapErr ''failed to create/update OLM catalog source''
       (createOrUpdateOwned x catalogSource catalogSource_update
          (\<lambda>r. fillBody (CatalogSource (pluginGetDesiredCatalogSourceSpec\<lparr>cs_SourceType := ''grpc''\<rparr>))))"

text \<open>For an unknown kind the desired spec is nil, and the first write through it panics.\<close>

definition fillSubscription :: "('w, 'z) offering_scheme \<Rightarrow> obj \<Rightarrow> obj outcome" where
  [prog_unfold]: "fillSubscription r ob =
     (case pluginGetDesiredSubscriptionSpec r of
        None \<Rightarrow> Crash ''nil pointer dereference''
      | Some spec \<Rightarrow>
          Ok (setBody (Subscription (Some (spec\<lparr>
                sb_CatalogSource := Name (meta (catalogSource r)),
                sb_CatalogSourceNamespace := Namespace (meta (catalogSource r)),
                sb_InstallPlanApproval := ''Automatic''\<rparr>))) ob))"

definition reconcileSubscription :: "('w, 'y) client_scheme \<Rightarrow> ('w, unit) offering_prog" where
  [prog_unfold]: "reconcileSubscription x =
     wrapErr ''failed to create/update OLM subscription''
       (createOrUpdateOwned x subscription subscription_update fillSubscription)"

section \<open>The closures meet the contracts\<close>

interpretation offering_owner: owner_setter "ownBy c r" for c and r :: "('w, 'z) offering_scheme"
  unfolding ownBy_def by (rule add_owner.owner_setter_axioms)

interpretation operator_group_fill:
  owned_setter "ownBy c r" KOperatorGroup "fillBody (OperatorGroup (pluginGetDesiredOperatorGroupSpec r))"
  for c and r :: "('w, 'z) offering_scheme"
  by (intro owned_setter.intro offering_owner.owner_setter_axioms fillBody_content) simp

interpretation catalog_source_fill:
  owned_setter "ownBy c r" KCatalogSource
    "fillBody (CatalogSource (pluginGetDesiredCatalogSourceSpec\<lparr>cs_SourceType := ''grpc''\<rparr>))"
  for c and r :: "('w, 'z) offering_scheme"
  by (intro owned_setter.intro offering_owner.owner_setter_axioms fillBody_content) simp

interpretation subscription_fill:
  owned_setter "ownBy c r" KSubscription "fillSubscription r"
  for c and r :: "('w, 'z) offering_scheme"
  by unfold_locales (auto simp: fillSubscription_def split: option.splits)

text \<open>Once the server holds what the closure makes, \<open>GetAndUpdate\<close> only reads.\<close>

context pure_mutator
begin

lemma GetAndUpdate_quiet:
  assumes made: "kind_of ob0 = k" "g ob0 = Ok ob1" and k: "kind_of ob = k"
    and get: "api_Get x k (ObjectKeyFromObject ob) (world s) = (Inr (stamp u v ob1), w')"
  shows "GetAndUpdate x ob (\<lambda>o1. liftOutcome (g o1)) s =
    (Ok (stamp u v ob1),
     s\<lparr>world := w', calls := calls s @ [CGet k (ObjectKeyFromObject ob) (Inr (stamp u v ob1))]\<rparr>)"
  using settled [OF made, of u v] same_kind [OF made] get k by (simp add: prog_unfold)

end

end
