(* ===== verification/DF_Templates.thy ===== *)
theory DF_Templates
  imports Resources Go_Json
begin

text \<open>
  The objects of \<open>datafoundation/templates/*.go\<close>: the storage cluster and the two network
  policies of the data foundation offering.
\<close>

section \<open>The storage cluster\<close>

definition OSDSizeInTiB :: nat where
  [const_defs]: "OSDSizeInTiB = 4"

definition backingStorageClassName :: string where
  [const_defs]: "backingStorageClassName = ''default-ocs-storage-class''"

definition pvcSelector :: LabelSelector where
  "pvcSelector =
     \<lparr>ls_MatchLabels = fmempty,
      ls_MatchExpressions = [\<lparr>lsr_Key = ''ceph.rook.io/pvc'', lsr_Operator = ''Exists'', lsr_Values = []\<rparr>]\<rparr>"

definition commonTSC :: TopologySpreadConstraint where
  "commonTSC =
     \<lparr>tsc_MaxSkew = 1, tsc_TopologyKey = ''topology.kubernetes.io/zone'',
      tsc_WhenUnsatisfiable = ''DoNotSchedule'', tsc_LabelSelector = Some pvcSelector\<rparr>"

definition preparePlacementTSC :: TopologySpreadConstraint where
  "preparePlacementTSC =
     \<lparr>tsc_MaxSkew = 1, tsc_TopologyKey = ''kubernetes.io/hostname'',
      tsc_WhenUnsatisfiable = ''DoNotSchedule'', tsc_LabelSelector = Some pvcSelector\<rparr>"

definition storageRequest :: "string \<Rightarrow> (string, quantity) fmap" where
  "storageRequest q = fmupd ''storage'' (MustParse q) fmempty"

definition storageParameters :: "(string \<times> string) list \<Rightarrow> smap" where
  "storageParameters kvs = fmap_of_list kvs"

definition defaultDeviceSet :: StorageDeviceSet where
  "defaultDeviceSet =
     \<lparr>ds_Name = ''default'', ds_Count = 1, ds_Replica = 3, ds_DeviceClass = ''ssd'',
      ds_DataPVCTemplate =
        \<lparr>pvc_StorageClassName = Some backingStorageClassName,
         pvc_Requests = storageRequest (itoa OSDSizeInTiB @ ''Ti''),
         pvc_AccessModes = [''ReadWriteOnce''],
         pvc_VolumeMode = Some ''Block''\<rparr>,
      ds_Placement = [commonTSC],
      ds_PreparePlacement = [commonTSC, preparePlacementTSC],
      ds_Portable = True,
      ds_Resources = atInit (df_GetResourceRequirements ''sds'')\<rparr>"

definition StorageClusterTemplate :: StorageClusterSpec where
  "StorageClusterTemplate =
     \<lparr>sc_LabelSelector =
        Some \<lparr>ls_MatchLabels = fmempty,
              ls_MatchExpressions =
                [\<lparr>lsr_Key = ''node-role.kubernetes.io/worker'', lsr_Operator = ''Exists'', lsr_Values = []\<rparr>,
                 \<lparr>lsr_Key = ''node-role.kubernetes.io/infra'', lsr_Operator = ''DoesNotExist'', lsr_Values = []\<rparr>]\<rparr>,
      sc_ManageNodes = False,
      sc_MonPVCTemplate =
        Some \<lparr>pvc_StorageClassName = Some ''gp3-csi'', pvc_Requests = storageRequest ''50Gi'',
              pvc_AccessModes = [''ReadWriteOnce''], pvc_VolumeMode = None\<rparr>,
      sc_Resources =
        fmap_of_list
          [(''mds'', atInit (df_GetResourceRequirements ''mds'')),
           (''mgr'', atInit (df_GetResourceRequirements ''mgr'')),
           (''mon'', atInit (df_GetResourceRequirements ''mon'')),
           (''crashcollector'', atInit (df_GetResourceRequirements ''crashcollector''))],
      sc_BackingStorageClasses =
        [\<lparr>bs_Name = backingStorageClassName, bs_Provisioner = ''ebs.csi.aws.com'',
          bs_Parameters =
            storageParameters [(''iops'', ''12000''), (''throughput'', ''250''), (''type'', ''gp3'')]\<rparr>],
      sc_StorageProfiles =
        [\<lparr>sf_DeviceClass = ''ssd'', sf_Name = ''default-storage-profile'',
          sf_BlockPoolParameters =
            storageParameters
              [(''pg_autoscale_mode'', ''off''), (''pg_num'', ''128''), (''pgp_num'', ''128''),
               (''target_size_ratio'', ''.49'')],
          sf_SharedFilesystemParameters =
            storageParameters
              [(''pg_autoscale_mode'', ''off''), (''pg_num'', ''512''), (''pgp_num'', ''512'')]\<rparr>],
      sc_DefaultStorageProfile = ''default-storage-profile'',
      sc_StorageDeviceSets = [defaultDeviceSet],
      sc_MultiCloudGateway = Some ''ignore'',
      sc_HostNetwork = True,
      sc_AllowRemoteStorageConsumers = True,
      sc_CephBlockPools = (''ignore'', True, True),
      sc_CephFilesystems = ('''', True, True)\<rparr>"

section \<open>Network policies\<close>

definition appIn :: "string list \<Rightarrow> LabelSelector" where
  "appIn names =
     \<lparr>ls_MatchLabels = fmempty,
      ls_MatchExpressions = [\<lparr>lsr_Key = ''app'', lsr_Operator = ''In'', lsr_Values = names\<rparr>]\<rparr>"

definition CephNetworkPolicyTemplate :: NetworkPolicySpec where
  "CephNetworkPolicyTemplate =
     \<lparr>np_Ingress =
        [\<lparr>npi_Ports = [],
          npi_From =
            [\<lparr>npp_PodSelector = None,
              npp_NamespaceSelector =
                Some \<lparr>ls_MatchLabels = fmupd ''policy-group.network.openshift.io/host-network'' '''' fmempty,
                      ls_MatchExpressions = []\<rparr>\<rparr>]\<rparr>],
      np_PolicyTypes = [''Ingress''],
      np_PodSelector =
        appIn [''rook-ceph-mds'', ''rook-ceph-osd'', ''rook-ceph-mgr'', ''rook-ceph-mon'',
               ''rook-ceph-crashcollector'']\<rparr>"

definition ProviderApiServerPort :: IntOrString where
  "ProviderApiServerPort = FromInt 50051"

definition ProviderApiServerProtocol :: string where
  "ProviderApiServerProtocol = ''TCP''"

definition ProviderApiServerNetworkPolicyTemplate :: NetworkPolicySpec where
  "ProviderApiServerNetworkPolicyTemplate =
     \<lparr>np_Ingress =
        [\<lparr>npi_Ports = [(Some ProviderApiServerPort, Some ProviderApiServerProtocol)], npi_From = []\<rparr>],
      np_PolicyTypes = [''Ingress''],
      np_PodSelector = appIn [''ocsProviderApiServer'']\<rparr>"

text \<open>The capacity literal of the device set parses, and is the size the counting assumes.\<close>

lemma device_set_size:
  "fmlookup (pvc_Requests (ds_DataPVCTemplate defaultDeviceSet)) ''storage'' =
     Some (int OSDSizeInTiB * 1000 * 2 ^ 40)"
  by code_simp

end
