(* ===== verification/Data_Foundation.thy ===== *)
theory Data_Foundation
  imports Offering DF_Templates
begin

text \<open>
  The data foundation plugin, \<open>controllers/datafoundation.go\<close>: the provider side of an
  offering. Its reconciler is made afresh for each run around the offering's reconciler and
  shares that one's state; here its state extends the offering's.
\<close>

section \<open>Constants and state\<close>

definition defaultDeviceSetName :: string where
  [const_defs]: "defaultDeviceSetName = ''default''"

definition ocsOperatorName :: string where
  [const_defs]: "ocsOperatorName = ''ocs-operator''"

definition storageClusterName :: string where
  [const_defs]: "storageClusterName = ''ocs-storagecluster''"

definition storageClusterCRDName :: string where
  [const_defs]: "storageClusterCRDName = ''storageclusters.ocs.openshift.io''"

definition ocsInitializationCRDName :: string where
  [const_defs]: "ocsInitializationCRDName = ''ocsinitializations.ocs.openshift.io''"

record 'w dataFoundation = "'w offering" +
  dfOffering :: obj
  dfSpec :: dataFoundationSpec
  onboardingValidationKeySecret :: obj
  storageCluster :: obj
  cephIngressNetworkPolicy :: obj
  providerAPIServerNetworkPolicy :: obj
  rookConfigMap :: obj
  ocsInitialization :: obj
  dfAvailableCRDs :: "(string, bool) fmap"

type_synonym ('w, 'a) df_prog = "('w dataFoundation, 'a) prog"

definition dfGetOfferingSpecInstance :: dataFoundationSpec where
  "dfGetOfferingSpecInstance = \<lparr>UsableCapacityInTiB = 0, OnboardingValidationKey = ''''\<rparr>"

text \<open>\<open>initReconciler\<close>, and the assignment of the spec in \<open>dfReconcile\<close>.\<close>

definition initDataFoundation ::
  "obj \<Rightarrow> dataFoundationSpec \<Rightarrow> 'w offering \<Rightarrow> 'w dataFoundation" where
  "initDataFoundation off spec r =
     (let ns = Namespace (meta off) in
      offering.extend r
        (dataFoundation.fields off spec
           (named KSecret ''onboarding-ticket-key'' ns)
           (named KStorageCluster storageClusterName ns)
           (named KNetworkPolicy ''ceph-ingress-rule'' ns)
           (named KNetworkPolicy ''provider-api-server-rule'' ns)
           (named KConfigMap ''rook-ceph-operator-config'' ns)
           (named KOCSInitialization ''ocsinit'' ns)
           (offeringCRDs r)))"

section \<open>Removal\<close>

text \<open>An offering can go once its storage cluster is gone.\<close>

definition dfIsReadyToBeRemoved ::
  "('w, 'y) client_scheme \<Rightarrow> obj \<Rightarrow> (('w, call, 'z) env_scheme, bool) prog" where
  [prog_unfold]: "dfIsReadyToBeRemoved x off =
     bindM (tryM (client_get x KStorageCluster (storageClusterName, Namespace (meta off)))) (\<lambda>got.
       case got of
         Inl err \<Rightarrow> if IsNotFound err then ret True else fail err
       | Inr _ \<Rightarrow> ret False)"

fun storageClusterPhase :: "obj \<Rightarrow> string" where
  "storageClusterPhase ob = (case body ob of StorageCluster _ ph \<Rightarrow> ph | _ \<Rightarrow> '''')"

fun storageClusterSpecOf :: "obj \<Rightarrow> StorageClusterSpec" where
  "storageClusterSpecOf ob =
     (case body ob of StorageCluster spec _ \<Rightarrow> spec | _ \<Rightarrow> emptyStorageClusterSpec)"

definition dfUninstall :: "('w, 'y) client_scheme \<Rightarrow> ('w, ctrl_Result) df_prog" where
  [prog_unfold]: "dfUninstall x =
     bindM (gets (\<lambda>r. ObjectKeyFromObject (storageCluster r))) (\<lambda>key.
     bindM (wrapErr ''unable to get storagecluster'' (client_get x KStorageCluster key)) (\<lambda>sc.
     thenM (modify (storageCluster_update (\<lambda>_. sc)))
     (if storageClusterPhase sc \<noteq> ''Ready'' then ret noRequeue
      else
        bindM (wrapErr ''unable to list OCS StorageConsumers CRs''
                 (client_list x KStorageConsumer None (Some 1))) (\<lambda>items.
        if length items > 0
        then ret \<lparr>Requeue = True, RequeueAfter = 10 * Second\<rparr>
        else
          thenM (wrapErr ''unable to issue a delete for storagecluster''
                   (deleteObj x KStorageCluster (ObjectKeyFromObject sc)))
          (ret noRequeue)))))"

section \<open>Onboarding key\<close>

text \<open>\<open>CHR 0x0A\<close> is the newline of the PEM armour.\<close>

definition onboardingValidationData :: "string \<Rightarrow> string" where
  "onboardingValidationData key =
     ''-----BEGIN PUBLIC KEY-----'' @ [CHR 0x0A] @ TrimSpace key @ [CHR 0x0A] @
     ''-----END PUBLIC KEY-----''"

definition reconcileOnboardingValidationSecret :: "('w, 'y) client_scheme \<Rightarrow> ('w, unit) df_prog" where
  [prog_unfold]: "reconcileOnboardingValidationSecret x =
     bindM (gets (\<lambda>r. OnboardingValidationKey (dfSpec r))) (\<lambda>key.
       if key = '''' then fail (ErrorNew ''invalid onboardingValidationKey ticket, empty string'')
       else wrapErr ''failed to update onboardingValidationKeySecret''
         (createOrUpdateOwned x onboardingValidationKeySecret onboardingValidationKeySecret_update
            (\<lambda>r. fillBody (Secret (Some (fmupd ''key''
               (onboardingValidationData (OnboardingValidationKey (dfSpec r))) fmempty))))))"

section \<open>Storage cluster\<close>

text \<open>
  \<open>float64(n)\<close>: the nearest number with 53 significant bits, ties to the even one. The
  quotient by 4 and its ceiling are exact, and the conversion back to \<open>int\<close> cannot overflow.
\<close>

function bitLength :: "nat \<Rightarrow> nat" where
  "bitLength n = (if n = 0 then 0 else Suc (bitLength (n div 2)))"
  by pat_completeness auto
termination
  by (relation "measure id") auto

declare bitLength.simps [simp del]

definition roundShift :: "nat \<Rightarrow> nat \<Rightarrow> nat" where
  "roundShift n e =
     (let q = n div 2 ^ e; r = n mod 2 ^ e in
      if 2 * r > 2 ^ e \<or> (2 * r = 2 ^ e \<and> odd q) then (q + 1) * 2 ^ e else q * 2 ^ e)"

definition float64_of_int :: "int \<Rightarrow> int" where
  "float64_of_int n =
     (let m = nat \<bar>n\<bar> in sgn n * int (roundShift m (bitLength m - 53)))"

definition ceilQuarter :: "int \<Rightarrow> int" where
  "ceilQuarter m = - ((- m) div int OSDSizeInTiB)"

definition deviceSetCountFor :: "int \<Rightarrow> int" where
  "deviceSetCountFor usableCapacityInTiB = ceilQuarter (float64_of_int usableCapacityInTiB)"

fun findStorageDeviceSet :: "StorageDeviceSet list \<Rightarrow> string \<Rightarrow> nat option" where
  "findStorageDeviceSet [] deviceSetName = None"
| "findStorageDeviceSet (item # rest) deviceSetName =
     (if ds_Name item = deviceSetName then Some 0
      else map_option Suc (findStorageDeviceSet rest deviceSetName))"

text \<open>\<open>setDeviceSetCount\<close> writes through a pointer into the desired spec; a nil one panics.\<close>

definition setDeviceSetCount ::
  "nat option \<Rightarrow> int \<Rightarrow> int \<Rightarrow> StorageDeviceSet list \<Rightarrow> StorageDeviceSet list outcome" where
  "setDeviceSetCount deviceSet desiredDeviceSetCount currDeviceSetCount sets =
     (case deviceSet of
        None \<Rightarrow> Crash ''nil pointer dereference''
      | Some i \<Rightarrow>
          if currDeviceSetCount \<le> desiredDeviceSetCount
          then Ok (sets[i := (sets ! i)\<lparr>ds_Count := desiredDeviceSetCount\<rparr>])
          else Ok (sets[i := (sets ! i)\<lparr>ds_Count := currDeviceSetCount\<rparr>]))"

definition currentDeviceSetCount :: "StorageDeviceSet list \<Rightarrow> int" where
  "currentDeviceSetCount sets =
     (case findStorageDeviceSet sets defaultDeviceSetName of
        Some i \<Rightarrow> ds_Count (sets ! i)
      | None \<Rightarrow> 0)"

definition fillStorageCluster :: "int \<Rightarrow> obj \<Rightarrow> obj outcome" where
  [prog_unfold]: "fillStorageCluster usableCapacityInTiB ob =
     (let desiredDeviceSetCount = deviceSetCountFor usableCapacityInTiB;
          currDeviceSetCount = currentDeviceSetCount (sc_StorageDeviceSets (storageClusterSpecOf ob));
          sets = sc_StorageDeviceSets StorageClusterTemplate;
          ds = findStorageDeviceSet sets defaultDeviceSetName in
      bindO (setDeviceSetCount ds desiredDeviceSetCount currDeviceSetCount sets) (\<lambda>sets'.
      Ok (setBody (StorageCluster (StorageClusterTemplate\<lparr>sc_StorageDeviceSets := sets'\<rparr>)
                     (storageClusterPhase ob)) ob)))"

definition reconcileStorageCluster :: "('w, 'y) client_scheme \<Rightarrow> ('w, unit) df_prog" where
  [prog_unfold]: "reconcileStorageCluster x =
     bindM (gets (\<lambda>r. UsableCapacityInTiB (dfSpec r))) (\<lambda>capacity.
       if capacity \<le> 0 then fail (ErrorNew ''invalid or missing field: UsableCapacityInTiB'')
       else wrapErr ''unable to create/update StorageCluster''
         (createOrUpdateOwned x storageCluster storageCluster_update
            (\<lambda>r. fillStorageCluster (UsableCapacityInTiB (dfSpec r)))))"

section \<open>Monitoring resources\<close>

text \<open>One of the three loops: every object of a kind in the namespace gets the label.\<close>

definition labelAll ::
  "('w, 'y) client_scheme \<Rightarrow> kind \<Rightarrow> string \<Rightarrow> string \<Rightarrow> (('w, call, 'z) env_scheme, unit) prog" where
  [prog_unfold]: "labelAll x k ns msg =
     bindM (wrapErr msg (client_list x k (Some ns) None)) (\<lambda>items.
       forEach items (\<lambda>ob. bindM (client_update x (AddLabel ob monLabelKey monLabelValue)) (\<lambda>_. ret ())))"

definition reconcileMonitoringResources :: "('w, 'y) client_scheme \<Rightarrow> ('w, unit) df_prog" where
  [prog_unfold]: "reconcileMonitoringResources x =
     bindM (gets (\<lambda>r. Namespace (meta (dfOffering r)))) (\<lambda>ns.
     thenM (labelAll x KPodMonitor ns ''could not list pod monitors'')
     (thenM (labelAll x KServiceMonitor ns ''could not list service monitors'')
     (labelAll x KPrometheusRule ns ''could not list prometheus rules'')))"

section \<open>Operator deployment\<close>

text \<open>\<open>GetResourceRequirements\<close> panics on a container it does not know.\<close>

definition setContainerResources :: "Container \<Rightarrow> Container outcome" where
  "setContainerResources c =
     bindO (df_GetResourceRequirements (ct_Name c)) (\<lambda>res. Ok (c\<lparr>ct_Resources := res\<rparr>))"

definition setDeploymentResources ::
  "StrategyDeploymentSpec \<Rightarrow> StrategyDeploymentSpec outcome" where
  "setDeploymentResources d =
     bindO (mapO setContainerResources (sd_Containers d)) (\<lambda>cs. Ok (d\<lparr>sd_Containers := cs\<rparr>))"

definition fillCSV :: "obj \<Rightarrow> obj outcome" where
  [prog_unfold]: "fillCSV csv =
     bindO (mapO setDeploymentResources (csvDeployments csv)) (\<lambda>ds.
     Ok (setBody (ClusterServiceVersion ds) csv))"

definition dfReconcileCSV :: "('w, 'y) client_scheme \<Rightarrow> ('w, unit) df_prog" where
  [prog_unfold]: "dfReconcileCSV x =
     bindM (wrapErr ''unable to find OCS CSV'' (offeringCSVByPrefix x ocsOperatorName)) (\<lambda>csv.
     bindM (gets (\<lambda>r. r)) (\<lambda>r.
     bindM (wrapErr ''failed to update OCS CSV''
              (GetAndUpdate x csv (\<lambda>ob.
                 bindM (wrapErr ''unable to set ownerRef on ocs csv'' (liftSum (ownBy False r ob)))
                   (\<lambda>ob. liftOutcome (fillCSV ob))))) (\<lambda>_.
     ret ())))"

section \<open>Network policies, Rook configuration, OCS initialization\<close>

definition reconcileCephIngressNetworkPolicy :: "('w, 'y) client_scheme \<Rightarrow> ('w, unit) df_prog" where
  [prog_unfold]: "reconcileCephIngressNetworkPolicy x =
     wrapErr ''failed to update ceph ingress NetworkPolicy''
       (createOrUpdateOwned x cephIngressNetworkPolicy cephIngressNetworkPolicy_update
          (\<lambda>r. fillBody (NetworkPolicy CephNetworkPolicyTemplate)))"

definition reconcileProviderAPIServerNetworkPolicy ::
  "('w, 'y) client_scheme \<Rightarrow> ('w, unit) df_prog" where
  [prog_unfold]: "reconcileProviderAPIServerNetworkPolicy x =
     wrapErr ''failed to update provider api server NetworkPolicy''
       (createOrUpdateOwned x providerAPIServerNetworkPolicy providerAPIServerNetworkPolicy_update
          (\<lambda>r. fillBody (NetworkPolicy ProviderApiServerNetworkPolicyTemplate)))"

definition disableCSI :: "obj \<Rightarrow> obj outcome" where
  "disableCSI ob =
     (let data = (case configMapData ob of None \<Rightarrow> Some fmempty | d \<Rightarrow> d) in
      bindO (goMapSet data ''ROOK_CSI_ENABLE_CEPHFS'' ''false'') (\<lambda>d1.
      bindO (goMapSet d1 ''ROOK_CSI_ENABLE_RBD'' ''false'') (\<lambda>d2.
      Ok (setBody (ConfigMap d2) ob))))"

text \<open>
  The comparison is between the struct \<open>r.rookConfigMap\<close> and the pointer
  \<open>cloneRookConfigMap\<close>.
\<close>

definition reconcileRookCephOperatorConfig :: "('w, 'y) client_scheme \<Rightarrow> ('w, unit) df_prog" where
  [prog_unfold]: "reconcileRookCephOperatorConfig x =
     bindM (gets (\<lambda>r. ObjectKeyFromObject (rookConfigMap r))) (\<lambda>key.
     bindM (wrapErr ''failed to get Rook ConfigMap'' (client_get x KConfigMap key)) (\<lambda>cm.
     thenM (modify (rookConfigMap_update (\<lambda>_. cm)))
     (bindM (liftOutcome (disableCSI cm)) (\<lambda>cloneRookConfigMap.
      if \<not> Semantic_DeepEqual_iface (StructVal cm) (PtrTo cloneRookConfigMap)
      then bindM (wrapErr ''failed to update Rook ConfigMap'' (client_update x cloneRookConfigMap)) (\<lambda>_. ret ())
      else ret ()))))"

definition reconcileOCSInitialization :: "('w, 'y) client_scheme \<Rightarrow> ('w, unit) df_prog" where
  [prog_unfold]: "reconcileOCSInitialization x =
     bindM (gets (\<lambda>r. r)) (\<lambda>r.
     bindM (wrapErr ''failed to update OCS initialization CR''
              (GetAndUpdate x (ocsInitialization r) (\<lambda>ob.
                 bindM (wrapErr ''unable to set ownerRef on ocs initialization CR''
                          (liftSum (ownBy False r ob)))
                   (\<lambda>ob. ret (setBody (OCSInitialization True) ob))))) (\<lambda>ob.
     modify (ocsInitialization_update (\<lambda>_. ob))))"

section \<open>The phases\<close>

definition dfInstall :: "('w, 'y) client_scheme \<Rightarrow> ('w, unit) df_prog" where
  "dfInstall x =
     thenM (reconcileOnboardingValidationSecret x)
     (thenM (reconcileStorageCluster x)
     (thenM (reconcileMonitoringResources x)
     (thenM (dfReconcileCSV x)
     (thenM (reconcileCephIngressNetworkPolicy x)
     (thenM (reconcileProviderAPIServerNetworkPolicy x)
     (thenM (reconcileRookCephOperatorConfig x)
     (reconcileOCSInitialization x)))))))"

definition dfReconcilePhases :: "('w, 'y) client_scheme \<Rightarrow> ('w, ctrl_Result) df_prog" where
  "dfReconcilePhases x =
     bindM (gets (\<lambda>r. r)) (\<lambda>r.
     thenM (requireCRD x (dfAvailableCRDs r) storageClusterCRDName)
     (thenM (requireCRD x (dfAvailableCRDs r) ocsInitializationCRDName)
     (if \<not> IsZero (DeletionTimestamp (meta (dfOffering r))) then dfUninstall x
      else thenM (dfInstall x) (ret noRequeue))))"

definition dfReconcile ::
  "('w, 'y) client_scheme \<Rightarrow> obj \<Rightarrow> dataFoundationSpec \<Rightarrow> ('w, ctrl_Result) offering_prog" where
  "dfReconcile x off spec =
     embedded (initDataFoundation off spec) offering.truncate (dfReconcilePhases x)"

section \<open>The closures meet the contracts\<close>

lemma findStorageDeviceSet_Some:
  "findStorageDeviceSet sets n = Some i \<longleftrightarrow>
     i < length sets \<and> ds_Name (sets ! i) = n \<and> (\<forall>j<i. ds_Name (sets ! j) \<noteq> n)"
  apply (induction sets arbitrary: i)
   apply simp
  subgoal for d sets i by (cases i) (auto simp: less_Suc_eq_0_disj All_less_Suc2)
  done

text \<open>The storage cluster the closure makes: the template with one count changed.\<close>

definition clusterWithCount :: "int \<Rightarrow> StorageClusterSpec" where
  "clusterWithCount n = StorageClusterTemplate\<lparr>sc_StorageDeviceSets := [defaultDeviceSet\<lparr>ds_Count := n\<rparr>]\<rparr>"

lemma fillStorageCluster_eq:
  "fillStorageCluster capacity ob =
     Ok (setBody (StorageCluster
           (clusterWithCount (max (deviceSetCountFor capacity)
              (currentDeviceSetCount (sc_StorageDeviceSets (storageClusterSpecOf ob)))))
           (storageClusterPhase ob)) ob)"
proof -
  have sets: "sc_StorageDeviceSets StorageClusterTemplate = [defaultDeviceSet]"
    by (simp add: StorageClusterTemplate_def)
  have "findStorageDeviceSet [defaultDeviceSet] defaultDeviceSetName = Some 0"
    by (simp add: defaultDeviceSet_def defaultDeviceSetName_def)
  with sets show ?thesis
    by (simp add: fillStorageCluster_def Let_def setDeviceSetCount_def clusterWithCount_def max_def)
qed

lemma currentDeviceSetCount_clusterWithCount [simp]:
  "currentDeviceSetCount (sc_StorageDeviceSets (clusterWithCount n)) = n"
  by (simp add: currentDeviceSetCount_def clusterWithCount_def defaultDeviceSet_def defaultDeviceSetName_def)

interpretation storage_cluster_fill:
  owned_setter "ownBy c r" KStorageCluster "fillStorageCluster capacity"
  for c and r :: "('w, 'z) offering_scheme" and capacity
  by unfold_locales (auto simp: fillStorageCluster_eq setBody_same)

interpretation onboarding_fill:
  owned_setter "ownBy c r" KSecret "fillBody (Secret (Some (fmupd ''key'' (onboardingValidationData key) fmempty)))"
  for c and r :: "('w, 'z) offering_scheme" and key
  by (intro owned_setter.intro offering_owner.owner_setter_axioms fillBody_content) simp

interpretation ceph_policy_fill:
  owned_setter "ownBy c r" KNetworkPolicy "fillBody (NetworkPolicy CephNetworkPolicyTemplate)"
  for c and r :: "('w, 'z) offering_scheme"
  by (intro owned_setter.intro offering_owner.owner_setter_axioms fillBody_content) simp

interpretation provider_policy_fill:
  owned_setter "ownBy c r" KNetworkPolicy "fillBody (NetworkPolicy ProviderApiServerNetworkPolicyTemplate)"
  for c and r :: "('w, 'z) offering_scheme"
  by (intro owned_setter.intro offering_owner.owner_setter_axioms fillBody_content) simp

text \<open>The owner setter of \<open>GetAndUpdate\<close>'s closures, which wrap its error.\<close>

definition ownWrapped :: "string \<Rightarrow> ('w, 'z) offering_scheme \<Rightarrow> obj \<Rightarrow> gerror + obj" where
  "ownWrapped msg r ob = map_sum (Errorf msg) id (ownBy False r ob)"

lemma ownWrapped_Inr: "ownWrapped msg r ob = Inr ob' \<longleftrightarrow> ownBy False r ob = Inr ob'"
  by (cases "ownBy False r ob") (auto simp: ownWrapped_def)

interpretation wrapped_owner: owner_setter "ownWrapped msg r" for msg and r :: "('w, 'z) offering_scheme"
  by unfold_locales
    (auto simp: ownWrapped_Inr intro: offering_owner.own_shape offering_owner.own_settled)

lemma wrapped_closure:
  "bindM (wrapErr msg (liftSum (ownBy False r ob))) (\<lambda>ob. liftOutcome (h ob)) =
     liftOutcome (withOwner (ownWrapped msg r) h ob)"
  by (cases "ownBy False r ob") (auto simp: fun_eq_iff prog_unfold ownWrapped_def)

lemma setContainerResources_settled:
  "setContainerResources c = Ok c' \<Longrightarrow> setContainerResources c' = Ok c'"
  by (auto simp: setContainerResources_def bindO_Ok)

lemma mapO_settled:
  assumes "\<And>a b. f a = Ok b \<Longrightarrow> f b = Ok b"
  shows "mapO f xs = Ok ys \<Longrightarrow> mapO f ys = Ok ys"
  using assms by (fastforce simp: mapO_Ok list_all2_conv_all_nth)

lemma setDeploymentResources_settled:
  "setDeploymentResources d = Ok d' \<Longrightarrow> setDeploymentResources d' = Ok d'"
  using mapO_settled [of setContainerResources, OF setContainerResources_settled]
  by (auto simp: setDeploymentResources_def bindO_Ok)

interpretation ocs_csv_fill:
  owned_setter "ownWrapped msg r" KClusterServiceVersion fillCSV
  for msg and r :: "('w, 'z) offering_scheme"
proof (unfold_locales, goal_cases)
  case (4 ob ob' u v)
  then obtain ds where ds: "mapO setDeploymentResources (csvDeployments ob) = Ok ds"
    and ob': "ob' = setBody (ClusterServiceVersion ds) ob"
    by (auto simp: fillCSV_def bindO_Ok)
  have "mapO setDeploymentResources ds = Ok ds"
    by (rule mapO_settled [OF setDeploymentResources_settled ds])
  then show ?case by (simp add: fillCSV_def ob')
qed (auto simp: fillCSV_def bindO_Ok)

interpretation ocs_init_fill:
  owned_setter "ownWrapped msg r" KOCSInitialization "fillBody (OCSInitialization True)"
  for msg and r :: "('w, 'z) offering_scheme"
  by (intro owned_setter.intro wrapped_owner.owner_setter_axioms fillBody_content) simp

end
