(* ===== verification/Data_Foundation_Client.thy ===== *)
theory Data_Foundation_Client
  imports Offering Go_Json
begin

text \<open>
  The data foundation client plugin, \<open>controllers/datafoundationclient.go\<close>: the consumer side
  of an offering. As for the provider's, its state extends the offering's.
\<close>

section \<open>Constants and state\<close>

definition ocsClientOperatorName :: string where
  [const_defs]: "ocsClientOperatorName = ''ocs-client-operator''"

definition csiKMSConnectionDetailsConfigMapName :: string where
  [const_defs]: "csiKMSConnectionDetailsConfigMapName = ''csi-kms-connection-details''"

definition storageClientCRDName :: string where
  [const_defs]: "storageClientCRDName = ''storageclients.ocs.openshift.io''"

definition storageClassClaimCRDName :: string where
  [const_defs]: "storageClassClaimCRDName = ''storageclassclaims.ocs.openshift.io''"

record 'w dataFoundationClient = "'w offering" +
  dfcOffering :: obj
  dfcSpec :: dataFoundationClientSpec
  storageClient :: obj
  defaultBlockStorageClassClaim :: obj
  defaultFSStorageClassClaim :: obj
  csiKMSConnectionDetailsConfigMap :: obj
  dfcAvailableCRDs :: "(string, bool) fmap"

type_synonym ('w, 'a) dfc_prog = "('w dataFoundationClient, 'a) prog"

definition dfcGetOfferingSpecInstance :: dataFoundationClientSpec where
  "dfcGetOfferingSpecInstance = \<lparr>OnboardingTicket = '''', ProviderEndpoint = ''''\<rparr>"

text \<open>The storage class claims are cluster-scoped: they have no namespace.\<close>

definition initDataFoundationClient ::
  "obj \<Rightarrow> dataFoundationClientSpec \<Rightarrow> 'w offering \<Rightarrow> 'w dataFoundationClient" where
  "initDataFoundationClient off spec r =
     (let ns = Namespace (meta off) in
      offering.extend r
        (dataFoundationClient.fields off spec
           (named KStorageClient ''ocs-storageclient'' ns)
           (named KStorageClassClaim ''ocs-storagecluster-ceph-rbd'' '''')
           (named KStorageClassClaim ''ocs-storagecluster-cephfs'' '''')
           (named KConfigMap csiKMSConnectionDetailsConfigMapName ns)
           (offeringCRDs r)))"

section \<open>Operations\<close>

definition fillStorageClient :: "dataFoundationClientSpec \<Rightarrow> obj \<Rightarrow> obj outcome" where
  [prog_unfold]: "fillStorageClient spec =
     fillBody (StorageClient (OnboardingTicket spec) (ProviderEndpoint spec))"

definition reconcileStorageClient :: "('w, 'y) client_scheme \<Rightarrow> ('w, unit) dfc_prog" where
  [prog_unfold]: "reconcileStorageClient x =
     bindM (gets dfcSpec) (\<lambda>spec.
       if ProviderEndpoint spec = '''' then fail (ErrorNew ''invalid provider endpoint, empty string'')
       else if OnboardingTicket spec = '''' then fail (ErrorNew ''invalid onboarding ticket, empty string'')
       else wrapErr ''unable to create/update StorageClient''
         (createOrUpdateOwned x storageClient storageClient_update (\<lambda>r. fillStorageClient (dfcSpec r))))"

text \<open>The cluster service version is written back on every run.\<close>

definition dfcReconcileCSV :: "('w, 'y) client_scheme \<Rightarrow> ('w, unit) dfc_prog" where
  [prog_unfold]: "dfcReconcileCSV x =
     bindM (wrapErr ''unable to get OCS client CSV'' (offeringCSVByPrefix x ocsClientOperatorName)) (\<lambda>csv.
     bindM (gets (\<lambda>r. ownBy False r csv)) (\<lambda>owned.
     bindM (wrapErr ''unable to set owner reference on OCS client CSV'' (liftSum owned)) (\<lambda>csv'.
     bindM (wrapErr ''failed to update OCS client CSV'' (client_update x csv')) (\<lambda>_.
     ret ()))))"

definition fillStorageClassClaim :: "string \<Rightarrow> ('w dataFoundationClient) \<Rightarrow> obj \<Rightarrow> obj outcome" where
  [prog_unfold]: "fillStorageClassClaim claimType r =
     fillBody (StorageClassClaim
       \<lparr>scc_Type = claimType, scc_StorageClient = Some (ObjectKeyFromObject (storageClient r))\<rparr>)"

text \<open>A claim has no owner.\<close>

definition reconcileStorageClassClaim ::
  "('w, 'y) client_scheme \<Rightarrow> ('w dataFoundationClient \<Rightarrow> obj) \<Rightarrow>
   ((obj \<Rightarrow> obj) \<Rightarrow> 'w dataFoundationClient \<Rightarrow> 'w dataFoundationClient) \<Rightarrow> string \<Rightarrow>
   ('w, unit) dfc_prog" where
  [prog_unfold]: "reconcileStorageClassClaim x field field_update claimType =
     createOrUpdate x field field_update (\<lambda>r ob. liftOutcome (fillStorageClassClaim claimType r ob))"

definition reconcileDefaultBlockStorageClassClaim :: "('w, 'y) client_scheme \<Rightarrow> ('w, unit) dfc_prog" where
  [prog_unfold]: "reconcileDefaultBlockStorageClassClaim x =
     wrapErr ''unable to create/update Default blockpool StorageClassClaim''
       (reconcileStorageClassClaim x defaultBlockStorageClassClaim defaultBlockStorageClassClaim_update
          ''blockpool'')"

definition reconcileDefaultFSStorageClassClaim :: "('w, 'y) client_scheme \<Rightarrow> ('w, unit) dfc_prog" where
  [prog_unfold]: "reconcileDefaultFSStorageClassClaim x =
     wrapErr ''unable to create/update Default FileSystem StorageClassClaim''
       (reconcileStorageClassClaim x defaultFSStorageClassClaim defaultFSStorageClassClaim_update
          ''sharedfilesystem'')"

definition csiKMSConnectionDetails :: "smap option" where
  "csiKMSConnectionDetails =
     Some (fmupd ''aws-sts-metadata-test''
       (ToJsonOrDie (jsonOfMap [(''encryptionKMSType'', ''aws-sts-metadata''),
                                (''secretName'', ''ceph-csi-aws-credentials'')])) fmempty)"

definition reconcileCSIKMSConnectionDetailsConfigMap ::
  "('w, 'y) client_scheme \<Rightarrow> ('w, unit) dfc_prog" where
  [prog_unfold]: "reconcileCSIKMSConnectionDetailsConfigMap x =
     wrapErr ''Failed to create or update config map''
       (createOrUpdateOwned x csiKMSConnectionDetailsConfigMap csiKMSConnectionDetailsConfigMap_update
          (\<lambda>r. fillBody (ConfigMap csiKMSConnectionDetails)))"

section \<open>The phases\<close>

definition dfcInstall :: "('w, 'y) client_scheme \<Rightarrow> ('w, unit) dfc_prog" where
  "dfcInstall x =
     thenM (dfcReconcileCSV x)
     (thenM (reconcileStorageClient x)
     (thenM (reconcileDefaultBlockStorageClassClaim x)
     (thenM (reconcileDefaultFSStorageClassClaim x)
     (reconcileCSIKMSConnectionDetailsConfigMap x))))"

definition dfcReconcilePhases :: "('w, 'y) client_scheme \<Rightarrow> ('w, ctrl_Result) dfc_prog" where
  "dfcReconcilePhases x =
     bindM (gets (\<lambda>r. r)) (\<lambda>r.
     thenM (requireCRD x (dfcAvailableCRDs r) storageClientCRDName)
     (thenM (requireCRD x (dfcAvailableCRDs r) storageClassClaimCRDName)
     (if \<not> IsZero (DeletionTimestamp (meta (dfcOffering r))) then ret noRequeue
      else thenM (dfcInstall x) (ret noRequeue))))"

definition dfcReconcile ::
  "('w, 'y) client_scheme \<Rightarrow> obj \<Rightarrow> dataFoundationClientSpec \<Rightarrow> ('w, ctrl_Result) offering_prog" where
  "dfcReconcile x off spec =
     embedded (initDataFoundationClient off spec) offering.truncate (dfcReconcilePhases x)"

section \<open>The closures meet the contracts\<close>

interpretation storage_client_fill:
  owned_setter "ownBy c r" KStorageClient "fillStorageClient spec"
  for c and r :: "('w, 'z) offering_scheme" and spec
  unfolding fillStorageClient_def
  by (intro owned_setter.intro offering_owner.owner_setter_axioms fillBody_content) simp

interpretation csi_kms_fill:
  owned_setter "ownBy c r" KConfigMap "fillBody (ConfigMap csiKMSConnectionDetails)"
  for c and r :: "('w, 'z) offering_scheme"
  by (intro owned_setter.intro offering_owner.owner_setter_axioms fillBody_content) simp

interpretation claim_fill: content_setter KStorageClassClaim "fillStorageClassClaim claimType r" for claimType r
  unfolding fillStorageClassClaim_def by (rule fillBody_content) simp

end
