(* ===== verification/Offering_Reconcile.thy ===== *)
theory Offering_Reconcile
  imports Data_Foundation Data_Foundation_Client
begin

text \<open>
  The entry point of the offering's reconciler, the phases it runs and the dispatch to the
  plugins by the kind of the offering.
\<close>

section \<open>The offering's configuration\<close>

text \<open>The dynamic type behind the \<open>interface{}\<close> that carries the decoded configuration.\<close>

datatype offeringSpec =
    SpecDF dataFoundationSpec
  | SpecDFC dataFoundationClientSpec
  | SpecNil

definition pluginGetDesiredOfferingSpec :: "('w, 'z) offering_scheme \<Rightarrow> offeringSpec" where
  "pluginGetDesiredOfferingSpec r =
     (let knd = mfo_Kind (offeringSpecOf (managedFusionOffering r)) in
      if knd = KindDataFoundation then SpecDF dfGetOfferingSpecInstance
      else if knd = KindDataFoundationClient then SpecDFC dfcGetOfferingSpecInstance
      else SpecNil)"

text \<open>\<open>yaml.Unmarshal\<close> into the instance of the kind.\<close>

fun unmarshalOfferingSpec ::
  "('w, 'y) offering_host_scheme \<Rightarrow> string \<Rightarrow> offeringSpec \<Rightarrow> offeringSpec \<times> gerror option" where
  "unmarshalOfferingSpec x config (SpecDF _) = apfst SpecDF (yaml_dataFoundation x config)"
| "unmarshalOfferingSpec x config (SpecDFC _) = apfst SpecDFC (yaml_dataFoundationClient x config)"
| "unmarshalOfferingSpec x config SpecNil = (SpecNil, yaml_nil x config)"

section \<open>Plugins\<close>

definition pluginIsReadyToBeRemoved ::
  "('w, 'y) client_scheme \<Rightarrow> obj \<Rightarrow> ('w, bool) offering_prog" where
  [prog_unfold]: "pluginIsReadyToBeRemoved x off = dfIsReadyToBeRemoved x off"

text \<open>A configuration of another plugin's type fails the type assertion, which panics.\<close>

definition pluginReconcile ::
  "('w, 'y) client_scheme \<Rightarrow> obj \<Rightarrow> offeringSpec \<Rightarrow> ('w, ctrl_Result) offering_prog" where
  [prog_unfold]: "pluginReconcile x off spec =
     (let knd = mfo_Kind (offeringSpecOf off) in
      if knd = KindDataFoundation then
        (case spec of SpecDF s \<Rightarrow> dfReconcile x off s | _ \<Rightarrow> crash ''interface conversion'')
      else if knd = KindDataFoundationClient then
        (case spec of SpecDFC s \<Rightarrow> dfcReconcile x off s | _ \<Rightarrow> crash ''interface conversion'')
      else ret noRequeue)"

section \<open>The phases\<close>

text \<open>The offering is written back when its finalizers changed.\<close>

definition storeOffering ::
  "('w, 'y) client_scheme \<Rightarrow> string \<Rightarrow> bool \<times> obj \<Rightarrow> ('w, unit) offering_prog" where
  [prog_unfold]: "storeOffering x msg = (\<lambda>(changed, off).
     if changed then
       bindM (wrapErr msg (client_update x off)) (\<lambda>off'. modify (managedFusionOffering_update (\<lambda>_. off')))
     else ret ())"

definition removeOfferingFinalizer :: "('w, 'y) client_scheme \<Rightarrow> ('w, unit) offering_prog" where
  [prog_unfold]: "removeOfferingFinalizer x =
     bindM (gets (\<lambda>r. RemoveFinalizer (managedFusionOffering r) managedFusionFinalizer))
       (storeOffering x ''failed to remove finalizer'')"
definition removalPhase :: "('w, 'y) client_scheme \<Rightarrow> ('w, unit) offering_prog" where
  [prog_unfold]: "removalPhase x =
     bindM (gets managedFusionOffering) (\<lambda>off.
     bindM (wrapErr ''failed to validate if the offering can be removed'' (pluginIsReadyToBeRemoved x off))
       (\<lambda>ready.
       if ready then
         thenM (removeOfferingFinalizer x)
         (bindM (gets namespace) (\<lambda>ns.
          wrapErr ''unable to issue a delete for namespace'' (deleteObj x KNamespace (ns, ''''))))
       else ret ()))"

definition offeringFinalizerPhase :: "('w, 'y) client_scheme \<Rightarrow> ('w, unit) offering_prog" where
  [prog_unfold]: "offeringFinalizerPhase x =
     bindM (gets (\<lambda>r. AddFinalizer (managedFusionOffering r) managedFusionFinalizer))
       (storeOffering x ''failed to update with finalizer'')"
definition operatorPhase :: "('w, 'y) client_scheme \<Rightarrow> ('w, unit) offering_prog" where
  "operatorPhase x =
     thenM (offeringFinalizerPhase x)
     (thenM (reconcileOperatorGroup x)
     (thenM (reconcileCatalogSource x)
     (reconcileSubscription x)))"

text \<open>The plugin runs last, whatever the first part was, also after a removal.\<close>

definition pluginPhase :: "('w, 'y) offering_host_scheme \<Rightarrow> ('w, ctrl_Result) offering_prog" where
  [prog_unfold]: "pluginPhase x =
     bindM (gets (\<lambda>r. r)) (\<lambda>r.
       case unmarshalOfferingSpec x (mfo_Config (offeringSpecOf (managedFusionOffering r)))
              (pluginGetDesiredOfferingSpec r) of
         (spec, err) \<Rightarrow>
           (case err of
              Some e \<Rightarrow> fail (Errorf ''invalid yaml found in ManagedFusionOffering config'' e)
            | None \<Rightarrow>
                wrapErr ''an error was encountered during reconcile''
                  (pluginReconcile x (managedFusionOffering r) spec)))"

definition offeringPhases :: "('w, 'y) offering_host_scheme \<Rightarrow> ('w, ctrl_Result) offering_prog" where
  "offeringPhases x =
     bindM (gets managedFusionOffering) (\<lambda>off.
     thenM
       (if \<not> IsZero (DeletionTimestamp (meta off)) then removalPhase x
        else if UID (meta off) \<noteq> '''' then operatorPhase x
        else ret ())
       (pluginPhase x))"

section \<open>Reconcile\<close>

definition offeringReconcile ::
  "('w, 'y) offering_host_scheme \<Rightarrow> string \<Rightarrow> string \<Rightarrow> ('w, ctrl_Result) offering_prog" where
  "offeringReconcile x reqNamespace reqName =
     thenM (initOffering reqNamespace reqName)
     (bindM (tryM (client_get x KManagedFusionOffering (reqName, reqNamespace))) (\<lambda>got.
        case got of
          Inl err \<Rightarrow>
            if IsNotFound err then ret noRequeue
            else fail (Errorf ''unable to get managedFusionOffering'' err)
        | Inr off \<Rightarrow>
            thenM (modify (managedFusionOffering_update (\<lambda>_. off)))
            (wrapErr ''an error was encountered during reconcilePhases'' (offeringPhases x))))"

end
