(* ===== verification/Offering_Calls.thy ===== *)
theory Offering_Calls
  imports Offering_Reconcile
begin

text \<open>
  The calls of the offering's reconciler: what the plugins may delete, and the shape of a run: it
  stops after reading the offering, or removes or installs, and then runs the plugin.
\<close>


section \<open>The log of one client operation\<close>

lemma client_get_log:
  "fst (client_get x k key s) = Ok ob \<Longrightarrow> issued (client_get x k key) s = [CGet k key (Inr ob)]"
  "fst (client_get x k key s) = Err e \<Longrightarrow> issued (client_get x k key) s = [CGet k key (Inl e)]"
  by (auto simp: prog_unfold issued_def split: prod.splits sum.splits)

lemma client_list_log:
  "fst (client_list x k n lim s) = Ok obs \<Longrightarrow> issued (client_list x k n lim) s = [CList k n lim (Inr obs)]"
  "fst (client_list x k n lim s) = Err e \<Longrightarrow> issued (client_list x k n lim) s = [CList k n lim (Inl e)]"
  by (auto simp: prog_unfold issued_def split: prod.splits sum.splits)

lemma client_update_log:
  "fst (client_update x ob s) = Ok ob' \<Longrightarrow> issued (client_update x ob) s = [CUpdate ob (Inr ob')]"
  "fst (client_update x ob s) = Err e \<Longrightarrow> issued (client_update x ob) s = [CUpdate ob (Inl e)]"
  by (auto simp: prog_unfold issued_def split: prod.splits sum.splits)

lemma client_create_log:
  "fst (client_create x ob s) = Ok ob' \<Longrightarrow> issued (client_create x ob) s = [CCreate ob (Inr ob')]"
  "fst (client_create x ob s) = Err e \<Longrightarrow> issued (client_create x ob) s = [CCreate ob (Inl e)]"
  by (auto simp: prog_unfold issued_def split: prod.splits sum.splits)

lemma client_no_crash [simp]:
  "fst (client_get x k key s) \<noteq> Crash msg" "fst (client_list x k n lim s) \<noteq> Crash msg"
  "fst (client_create x ob s) \<noteq> Crash msg" "fst (client_update x ob s) \<noteq> Crash msg"
  "fst (client_delete x k key s) \<noteq> Crash msg"
  by (auto simp: prog_unfold split: prod.splits sum.splits)

lemma fst_wrapErr [simp]:
  "fst (wrapErr msg m s) = Ok a \<longleftrightarrow> fst (m s) = Ok a"
  "fst (wrapErr msg m s) = Crash c \<longleftrightarrow> fst (m s) = Crash c"
  by (auto simp: wrapErr_def split: prod.splits outcome.splits)

lemma fst_tryM:
  "fst (tryM m s) = Ok r \<longleftrightarrow> (case r of Inl e \<Rightarrow> fst (m s) = Err e | Inr a \<Rightarrow> fst (m s) = Ok a)"
  by (auto simp: tryM_def split: prod.splits outcome.splits sum.splits)

section \<open>Operations that delete nothing\<close>

lemma nodelete_createOrUpdate:
  assumes "\<And>r o1. nodelete (f r o1)" and "\<And>r ob. calls (upd (\<lambda>_. ob) r) = calls r"
  shows "nodelete (createOrUpdate x field upd f)"
  unfolding createOrUpdate_def
  by (intro emits_rules nodelete_CreateOrUpdate emits_modify assms TrueI)

lemma nodelete_owned:
  assumes "\<And>r ob. calls (upd (\<lambda>_. ob) r) = calls r"
  shows "nodelete (createOrUpdateOwned x field upd h)"
  unfolding createOrUpdateOwned_def
  by (intro nodelete_createOrUpdate emits_liftOutcome assms)

lemma nodelete_GetAndUpdate:
  assumes "\<And>o1. nodelete (f o1)"
  shows "nodelete (GetAndUpdate x ob f)"
  unfolding GetAndUpdate_def mutate_def
  by (intro emits_rules nodelete_client assms)

lemma nodelete_csv: "nodelete (csvInNamespace x ns name)" "nodelete (offeringCSVByPrefix x name)"
  unfolding offeringCSVByPrefix_def csvInNamespace_def by (intro emits_rules nodelete_client)+

lemma nodelete_requireCRD: "nodelete (requireCRD x crds name)"
  unfolding requireCRD_def HandleMissingWatch_def by (intro emits_rules nodelete_client)

lemma nodelete_labelAll: "nodelete (labelAll x k ns msg)"
  unfolding labelAll_def by (intro emits_rules nodelete_client)

lemmas nodelete_rules =
  emits_rules nodelete_client nodelete_owned nodelete_GetAndUpdate nodelete_csv nodelete_requireCRD
  nodelete_labelAll nodelete_createOrUpdate

lemma nodelete_dfInstall: "nodelete (dfInstall x)"
  unfolding dfInstall_def reconcileOnboardingValidationSecret_def reconcileStorageCluster_def
    reconcileMonitoringResources_def dfReconcileCSV_def reconcileCephIngressNetworkPolicy_def
    reconcileProviderAPIServerNetworkPolicy_def reconcileRookCephOperatorConfig_def
    reconcileOCSInitialization_def
  by (intro nodelete_rules emits_modify; simp)

lemma nodelete_dfcInstall: "nodelete (dfcInstall x)"
  unfolding dfcInstall_def reconcileStorageClient_def dfcReconcileCSV_def
    reconcileDefaultBlockStorageClassClaim_def reconcileDefaultFSStorageClassClaim_def
    reconcileStorageClassClaim_def reconcileCSIKMSConnectionDetailsConfigMap_def
  by (intro nodelete_rules emits_modify; simp)

lemma nodelete_dfcReconcilePhases: "nodelete (dfcReconcilePhases x)"
  unfolding dfcReconcilePhases_def by (intro nodelete_rules nodelete_dfcInstall)

lemma nodelete_operatorPhase: "nodelete (operatorPhase x)"
  unfolding operatorPhase_def offeringFinalizerPhase_def storeOffering_def reconcileOperatorGroup_def
    reconcileCatalogSource_def reconcileSubscription_def
  by (intro nodelete_rules emits_modify; simp)

section \<open>What the plugins delete\<close>

lemma calls_initDataFoundation [simp]: "calls (initDataFoundation off spec r) = calls r"
  by (simp add: initDataFoundation_def offering.defs Let_def)

lemma calls_initDataFoundationClient [simp]: "calls (initDataFoundationClient off spec r) = calls r"
  by (simp add: initDataFoundationClient_def offering.defs Let_def)

lemma calls_truncate [simp]: "calls (offering.truncate r) = calls r"
  by (simp add: offering.defs)

lemma issued_dfReconcile:
  "issued (dfReconcile x off spec) r = issued (dfReconcilePhases x) (initDataFoundation off spec r)"
  unfolding dfReconcile_def by (rule issued_embedded) simp_all

lemma issued_dfcReconcile:
  "issued (dfcReconcile x off spec) r = issued (dfcReconcilePhases x) (initDataFoundationClient off spec r)"
  unfolding dfcReconcile_def by (rule issued_embedded) simp_all

text \<open>Deletes of one kind only.\<close>

fun deletes_only :: "kind \<Rightarrow> call \<Rightarrow> bool" where
  "deletes_only k (CDelete k' _ _) = (k' = k)"
| "deletes_only k _ = True"

lemma deletes_only_nodelete: "\<not> is_delete c \<Longrightarrow> deletes_only k c"
  by (cases c) auto

lemma emits_dfUninstall: "emits (\<lambda>_. True) (deletes_only KStorageCluster) (dfUninstall x)"
  unfolding dfUninstall_def
  by (intro emits_rules emits_client_get emits_client_list emits_deleteObj emits_modify; simp)

lemma emits_dfReconcilePhases: "emits (\<lambda>_. True) (deletes_only KStorageCluster) (dfReconcilePhases x)"
  unfolding dfReconcilePhases_def
  by (intro emits_rules emits_dfUninstall emits_weaken [OF nodelete_requireCRD]
      emits_weaken [OF nodelete_dfInstall] deletes_only_nodelete)

lemma emits_embedded_True:
  assumes "emits (\<lambda>_. True) A m" and "\<And>s. calls (enter s) = calls s" and "\<And>t. calls (leave t) = calls t"
  shows "emits (\<lambda>_. True) A (embedded enter leave m)"
  by (rule emits_embedded [OF assms]) simp_all

lemma emits_pluginReconcile: "emits (\<lambda>_. True) (deletes_only KStorageCluster) (pluginReconcile x off spec)"
  unfolding pluginReconcile_def Let_def dfReconcile_def dfcReconcile_def
  by (intro emits_if)
    (auto intro!: emits_ret emits_crash emits_embedded_True emits_dfReconcilePhases
        emits_weaken [OF nodelete_dfcReconcilePhases deletes_only_nodelete] split: offeringSpec.split)

lemma emits_pluginPhase: "emits (\<lambda>_. True) (deletes_only KStorageCluster) (pluginPhase x)"
  unfolding pluginPhase_def by (intro emits_rules emits_pluginReconcile)

section \<open>The shape of a run\<close>

lemma issued_thenM:
  assumes "extends m" and "extends k"
  shows "issued (thenM m k) s =
    issued m s @ (case fst (m s) of Ok a \<Rightarrow> issued k (snd (m s)) | _ \<Rightarrow> [])"
  unfolding thenM_def by (rule issued_bindM [OF assms])

lemma extends_pluginPhase: "extends (pluginPhase x)"
  by (rule emits_weaken [OF emits_pluginPhase]) simp

lemma extends_operatorPhase: "extends (operatorPhase x)"
  by (rule emits_extends [OF nodelete_operatorPhase])

text \<open>The calls of a removal once the storage cluster was not found.\<close>

definition removalCall :: "string \<Rightarrow> call \<Rightarrow> bool" where
  "removalCall ns c \<longleftrightarrow>
     (\<exists>off res. c = CUpdate off res) \<or> (\<exists>res. c = CDelete KNamespace (ns, '''') res)"

definition removal :: "('w, 'y) client_scheme \<Rightarrow> ('w, unit) offering_prog" where
  "removal x =
     thenM (removeOfferingFinalizer x)
       (bindM (gets namespace) (\<lambda>ns.
        wrapErr ''unable to issue a delete for namespace'' (deleteObj x KNamespace (ns, ''''))))"

lemma removal_calls: "emits (\<lambda>s. namespace s = ns) (removalCall ns) (removal x)"
proof -
  have I: "env_stable (\<lambda>s. namespace s = ns)" by (simp add: env_stable_def)
  have delete: "emits (\<lambda>s. namespace s = ns) (removalCall ns) (bindM (gets namespace) (\<lambda>ns.
        wrapErr ''unable to issue a delete for namespace'' (deleteObj x KNamespace (ns, ''''))))"
    by (rule emits_bindM_post [where P = "\<lambda>n. n = ns", OF emits_gets])
      (auto intro!: emits_wrapErr emits_deleteObj I simp: gets_def removalCall_def)
  show ?thesis
    unfolding removal_def removeOfferingFinalizer_def storeOffering_def
    by (intro emits_rules emits_client_update emits_modify delete I) (auto simp: removalCall_def)
qed

lemma extends_removalPhase: "extends (removalPhase x)"
  unfolding removalPhase_def pluginIsReadyToBeRemoved_def dfIsReadyToBeRemoved_def removeOfferingFinalizer_def storeOffering_def
  by (intro emits_rules emits_client_get emits_client_update emits_modify emits_deleteObj; simp)

text \<open>What the server answers to the look at the storage cluster, and the run after it.\<close>

definition clusterAnswer :: "('w, 'y) client_scheme \<Rightarrow> 'w offering \<Rightarrow> gerror + obj" where
  "clusterAnswer x s = map_sum id (decodeAs KStorageCluster)
     (fst (api_Get x KStorageCluster (storageClusterName, Namespace (meta (managedFusionOffering s))) (world s)))"

lemma client_get_run:
  "\<exists>s1. client_get x k key s = ((case map_sum id (decodeAs k) (fst (api_Get x k key (world s))) of
        Inl e \<Rightarrow> Err e | Inr ob \<Rightarrow> Ok ob), s1) \<and>
     s1 = s\<lparr>world := snd (api_Get x k key (world s)),
            calls := calls s @ [CGet k key (map_sum id (decodeAs k) (fst (api_Get x k key (world s))))]\<rparr>"
  by (cases "api_Get x k key (world s)"; cases "fst (api_Get x k key (world s))") (auto simp: prog_unfold)

lemma removalPhase_run:
  obtains s1 where "managedFusionOffering s1 = managedFusionOffering s" and "namespace s1 = namespace s"
    and "calls s1 = calls s @ [CGet KStorageCluster
           (storageClusterName, Namespace (meta (managedFusionOffering s))) (clusterAnswer x s)]"
    and "world s1 = snd (api_Get x KStorageCluster
           (storageClusterName, Namespace (meta (managedFusionOffering s))) (world s))"
    and "removalPhase x s =
      (case clusterAnswer x s of
         Inl e \<Rightarrow> if IsNotFound e then removal x s1
                  else (Err (Errorf ''failed to validate if the offering can be removed'' e), s1)
       | Inr sc \<Rightarrow> (Ok (), s1))"
proof -
  let ?key = "(storageClusterName, Namespace (meta (managedFusionOffering s)))"
  obtain s1 where run: "client_get x KStorageCluster ?key s =
      ((case clusterAnswer x s of Inl e \<Rightarrow> Err e | Inr ob \<Rightarrow> Ok ob), s1)"
    and s1: "s1 = s\<lparr>world := snd (api_Get x KStorageCluster ?key (world s)),
            calls := calls s @ [CGet KStorageCluster ?key (clusterAnswer x s)]\<rparr>"
    using client_get_run [of x KStorageCluster ?key s] by (auto simp: clusterAnswer_def)
  have "removalPhase x s =
      (case clusterAnswer x s of
         Inl e \<Rightarrow> if IsNotFound e then removal x s1
                  else (Err (Errorf ''failed to validate if the offering can be removed'' e), s1)
       | Inr sc \<Rightarrow> (Ok (), s1))"
    by (cases "clusterAnswer x s")
      (use run in \<open>auto simp: removalPhase_def removal_def pluginIsReadyToBeRemoved_def
         dfIsReadyToBeRemoved_def gets_def bindM_step tryM_def wrapErr_def ret_def fail_def\<close>)
  with s1 show thesis by (intro that [of s1]) simp_all
qed

lemma removalPhase_issued:
  obtains rest where
    "issued (removalPhase x) s = CGet KStorageCluster
       (storageClusterName, Namespace (meta (managedFusionOffering s))) (clusterAnswer x s) # rest"
    and "rest \<noteq> [] \<Longrightarrow> \<exists>e. clusterAnswer x s = Inl e \<and> IsNotFound e"
    and "list_all (removalCall (namespace s)) rest"
proof -
  let ?c = "CGet KStorageCluster (storageClusterName, Namespace (meta (managedFusionOffering s))) (clusterAnswer x s)"
  obtain s1 where s1: "namespace s1 = namespace s" "calls s1 = calls s @ [?c]"
    and run: "removalPhase x s =
      (case clusterAnswer x s of
         Inl e \<Rightarrow> if IsNotFound e then removal x s1
                  else (Err (Errorf ''failed to validate if the offering can be removed'' e), s1)
       | Inr sc \<Rightarrow> (Ok (), s1))"
    by (rule removalPhase_run)
  show thesis
  proof (cases "\<exists>e. clusterAnswer x s = Inl e \<and> IsNotFound e")
    case True
    obtain es where es: "calls (snd (removal x s1)) = calls s1 @ es" "list_all (removalCall (namespace s)) es"
      using emits_log [OF removal_calls [of "namespace s" x] s1(1)] .
    have "issued (removalPhase x) s = ?c # es"
      using True run s1 es(1) by (auto simp: issued_def)
    with True es(2) show thesis by (intro that)
  next
    case False
    then have "issued (removalPhase x) s = [?c]"
      using run s1 by (auto simp: issued_def split: sum.splits)
    then show thesis by (intro that [of "[]"]) simp_all
  qed
qed

lemma extends_offeringPhases: "extends (offeringPhases x)"
  unfolding offeringPhases_def
  by (intro emits_rules extends_removalPhase extends_operatorPhase extends_pluginPhase)

text \<open>The objects of the operator are of the kinds of the reconciler's fields.\<close>

definition operatorKinds :: "'w offering \<Rightarrow> bool" where
  "operatorKinds r \<longleftrightarrow> kind_of (operatorGroup r) = KOperatorGroup \<and>
     kind_of (catalogSource r) = KCatalogSource \<and> kind_of (subscription r) = KSubscription"

text \<open>A run stops after reading the offering, or the phases run from a state that holds it.\<close>

lemma offeringReconcile_issued:
  obtains (stop) e where "issued (offeringReconcile x ns n) r = [CGet KManagedFusionOffering (n, ns) (Inl e)]"
      and "fst (api_Get x KManagedFusionOffering (n, ns) (world r)) = Inl e"
      and "fst (offeringReconcile x ns n r) =
        (if IsNotFound e then Ok noRequeue else Err (Errorf ''unable to get managedFusionOffering'' e))"
  | (phases) off s where "managedFusionOffering s = off" and "namespace s = ns"
      and "offeringCRDs s = offeringCRDs r" and "kind_of off = KManagedFusionOffering"
      and "map_sum id (decodeAs KManagedFusionOffering) (fst (api_Get x KManagedFusionOffering (n, ns) (world r))) = Inr off"
      and "world s = snd (api_Get x KManagedFusionOffering (n, ns) (world r))"
      and "fst (offeringReconcile x ns n r) =
        fst (wrapErr ''an error was encountered during reconcilePhases'' (offeringPhases x) s)"
      and "issued (offeringReconcile x ns n) r =
        CGet KManagedFusionOffering (n, ns) (Inr off) # issued (offeringPhases x) s"
      and "operatorKinds s"
proof -
  define r1 where "r1 = snd (initOffering ns n r)"
  have r1: "initOffering ns n r = (Ok (), r1)" "calls r1 = calls r" "world r1 = world r" "namespace r1 = ns"
      "offeringCRDs r1 = offeringCRDs r" "operatorKinds r1"
    by (simp_all add: r1_def initOffering_def modify_def operatorKinds_def)
  let ?ans = "map_sum id (decodeAs KManagedFusionOffering) (fst (api_Get x KManagedFusionOffering (n, ns) (world r)))"
  obtain s1 where run: "client_get x KManagedFusionOffering (n, ns) r1 =
      ((case ?ans of Inl e \<Rightarrow> Err e | Inr ob \<Rightarrow> Ok ob), s1)"
    and s1: "s1 = r1\<lparr>world := snd (api_Get x KManagedFusionOffering (n, ns) (world r)),
            calls := calls r @ [CGet KManagedFusionOffering (n, ns) ?ans]\<rparr>"
    using client_get_run [of x KManagedFusionOffering "(n, ns)" r1] r1 by auto
  show thesis
  proof (cases ?ans)
    case (Inl e)
    then have "snd (offeringReconcile x ns n r) = s1"
      using run r1(1) by (simp add: offeringReconcile_def thenM_step bindM_step tryM_def ret_def fail_def)
    then have "issued (offeringReconcile x ns n) r = [CGet KManagedFusionOffering (n, ns) (Inl e)]"
      using s1 Inl by (simp add: issued_def)
    moreover have "fst (api_Get x KManagedFusionOffering (n, ns) (world r)) = Inl e"
      using Inl by (cases "fst (api_Get x KManagedFusionOffering (n, ns) (world r))") simp_all
    moreover have "fst (offeringReconcile x ns n r) =
        (if IsNotFound e then Ok noRequeue else Err (Errorf ''unable to get managedFusionOffering'' e))"
      using run r1(1) Inl by (simp add: offeringReconcile_def thenM_step bindM_step tryM_def ret_def fail_def)
    ultimately show thesis by (rule stop)
  next
    case (Inr off)
    define s where "s = s1\<lparr>managedFusionOffering := off\<rparr>"
    let ?ph = "wrapErr ''an error was encountered during reconcilePhases'' (offeringPhases x)"
    have eq: "offeringReconcile x ns n r = ?ph s"
      using run r1(1) Inr by (simp add: offeringReconcile_def thenM_step bindM_step tryM_def modify_def s_def)
    have log: "calls (snd (?ph s)) = calls s @ issued ?ph s"
      by (rule calls_issued [OF emits_wrapErr [OF extends_offeringPhases] TrueI])
    show thesis
    proof (rule phases)
      show "issued (offeringReconcile x ns n) r =
        CGet KManagedFusionOffering (n, ns) (Inr off) # issued (offeringPhases x) s"
        using eq log s1 Inr by (simp add: issued_def [of "offeringReconcile x ns n"] s_def)
      show "kind_of off = KManagedFusionOffering"
        using Inr by (cases "fst (api_Get x KManagedFusionOffering (n, ns) (world r))") auto
    qed (use eq s1 r1 Inr in \<open>simp_all add: s_def operatorKinds_def\<close>)
  qed
qed

text \<open>The first half of the phases, and the plugin after it.\<close>

lemma offeringPhases_issued:
  "issued (offeringPhases x) s =
     (let off = managedFusionOffering s;
          first = (if \<not> IsZero (DeletionTimestamp (meta off)) then removalPhase x
                   else if UID (meta off) \<noteq> '''' then operatorPhase x else ret ()) in
      issued first s @ (case fst (first s) of Ok _ \<Rightarrow> issued (pluginPhase x) (snd (first s)) | _ \<Rightarrow> []))"
proof -
  let ?first = "\<lambda>off. if \<not> IsZero (DeletionTimestamp (meta off)) then removalPhase x
                   else if UID (meta off) \<noteq> '''' then operatorPhase x else ret ()"
  have "issued (offeringPhases x) s = issued (thenM (?first (managedFusionOffering s)) (pluginPhase x)) s"
    by (simp add: issued_def offeringPhases_def gets_def bindM_step)
  moreover have "extends (?first (managedFusionOffering s))"
    by (intro emits_if extends_removalPhase extends_operatorPhase emits_ret)
  note issued_thenM [OF this extends_pluginPhase, of x s]
  ultimately show ?thesis by (simp only: Let_def)
qed

end
