(* ===== verification/Offering_Order.thy ===== *)
theory Offering_Order
  imports Offering_Calls
begin

text \<open>
  The order of the calls of an offering's run: what has been read before the storage cluster is
  deleted, and which offering the state holds when the plugin runs.
\<close>


section \<open>The offering while the phases run\<close>

text \<open>The offering a state holds was in the last answer about it.\<close>

definition answersOffering :: "obj \<Rightarrow> call \<Rightarrow> bool" where
  "answersOffering off c \<longleftrightarrow>
     (\<exists>key. c = CGet KManagedFusionOffering key (Inr off)) \<or> (\<exists>ob. c = CUpdate ob (Inr off))"

lemma client_update_run:
  "\<exists>s1. client_update x ob s = ((case map_sum id (decodeAs (kind_of ob)) (fst (api_Update x ob (world s))) of
        Inl e \<Rightarrow> Err e | Inr ob' \<Rightarrow> Ok ob'), s1) \<and>
     s1 = s\<lparr>world := snd (api_Update x ob (world s)),
            calls := calls s @ [CUpdate ob (map_sum id (decodeAs (kind_of ob)) (fst (api_Update x ob (world s))))]\<rparr>"
  by (cases "api_Update x ob (world s)"; cases "fst (api_Update x ob (world s))") (auto simp: prog_unfold)

text \<open>A phase that may write the offering back and store the answer.\<close>


lemma storeOffering_run:
  assumes ok: "fst (bindM (gets g) (storeOffering x msg) s) = Ok ()"
  shows "(\<not> fst (g s) \<and> bindM (gets g) (storeOffering x msg) s = (Ok (), s)) \<or>
    (\<exists>off'. fst (g s) \<and> issued (bindM (gets g) (storeOffering x msg)) s = [CUpdate (snd (g s)) (Inr off')] \<and>
       managedFusionOffering (snd (bindM (gets g) (storeOffering x msg) s)) = off')"
proof (cases "fst (g s)")
  case True
  obtain b off where g: "g s = (b, off)" by (cases "g s")
  obtain s1 where up: "client_update x off s =
      ((case map_sum id (decodeAs (kind_of off)) (fst (api_Update x off (world s))) of Inl e \<Rightarrow> Err e | Inr ob' \<Rightarrow> Ok ob'), s1)"
    and s1: "s1 = s\<lparr>world := snd (api_Update x off (world s)),
            calls := calls s @ [CUpdate off (map_sum id (decodeAs (kind_of off)) (fst (api_Update x off (world s))))]\<rparr>"
    using client_update_run [of x off s] by blast
  show ?thesis
  proof (cases "map_sum id (decodeAs (kind_of off)) (fst (api_Update x off (world s)))")
    case (Inl e)
    with ok up g True show ?thesis by (simp add: storeOffering_def gets_def bindM_step wrapErr_def)
  next
    case (Inr off')
    with up have "bindM (gets g) (storeOffering x msg) s = (Ok (), s1\<lparr>managedFusionOffering := off'\<rparr>)"
      using g True by (simp add: storeOffering_def gets_def bindM_step wrapErr_def modify_def)
    with s1 Inr g True show ?thesis by (simp add: issued_def)
  qed
qed (simp add: storeOffering_def gets_def bindM_step ret_def split_beta)

lemma frame_owned:
  assumes "env_stable I" and "\<And>r ob. calls (upd (\<lambda>_. ob) r) = calls r" and "\<And>r ob. I r \<Longrightarrow> I (upd (\<lambda>_. ob) r)"
  shows "emits I (\<lambda>_. True) (createOrUpdateOwned x field upd h)"
  unfolding createOrUpdateOwned_def createOrUpdate_def CreateOrUpdate_def mutate_def
  by (intro emits_rules emits_client_get emits_client_create emits_client_update emits_modify assms TrueI)

definition operatorResources :: "('w, 'y) client_scheme \<Rightarrow> ('w, unit) offering_prog" where
  "operatorResources x =
     thenM (reconcileOperatorGroup x) (thenM (reconcileCatalogSource x) (reconcileSubscription x))"

lemma operatorPhase_split: "operatorPhase x = thenM (offeringFinalizerPhase x) (operatorResources x)"
  by (simp add: operatorPhase_def operatorResources_def)

lemma frame_operatorResources:
  "emits (\<lambda>s. managedFusionOffering s = off) (\<lambda>_. True) (operatorResources x)"
  unfolding operatorResources_def reconcileOperatorGroup_def reconcileCatalogSource_def reconcileSubscription_def
  by (intro emits_rules frame_owned; simp add: env_stable_def)

lemma extends_operatorResources: "extends (operatorResources x)"
  unfolding operatorResources_def reconcileOperatorGroup_def reconcileCatalogSource_def reconcileSubscription_def
  by (intro emits_rules frame_owned; simp add: env_stable_def)

lemma extends_offeringFinalizerPhase: "extends (offeringFinalizerPhase x)"
  unfolding offeringFinalizerPhase_def storeOffering_def by (intro emits_rules emits_client_update emits_modify; simp)

lemma extends_removeOfferingFinalizer: "extends (removeOfferingFinalizer x)"
  unfolding removeOfferingFinalizer_def storeOffering_def by (intro emits_rules emits_client_update emits_modify; simp)

lemma frame_deleteNamespace:
  "emits (\<lambda>s. managedFusionOffering s = off) (\<lambda>_. True) (bindM (gets namespace) (\<lambda>ns.
        wrapErr ''unable to issue a delete for namespace'' (deleteObj x KNamespace (ns, ''''))))"
  by (intro emits_rules emits_deleteObj; simp add: env_stable_def)

lemma fst_thenM_Ok: "fst (thenM m k s) = Ok b \<Longrightarrow> \<exists>a. fst (m s) = Ok a \<and> fst (k (snd (m s))) = Ok b"
  unfolding thenM_def by (rule bindM_OkD)

lemma snd_thenM_Ok: "fst (m s) = Ok a \<Longrightarrow> thenM m k s = k (snd (m s))"
  by (cases "m s") (simp add: thenM_step)

lemma storedOffering_step:
  assumes m: "fst (m s) = Ok ()" "managedFusionOffering (snd (m s)) = off \<or>
      list_ex (answersOffering (managedFusionOffering (snd (m s)))) (issued m s)"
    and k: "emits (\<lambda>t. managedFusionOffering t = managedFusionOffering (snd (m s))) (\<lambda>_. True) k"
    and ext: "extends m" "extends k"
  shows "managedFusionOffering (snd (thenM m k s)) = off \<or>
      list_ex (answersOffering (managedFusionOffering (snd (thenM m k s)))) (issued (thenM m k) s)"
proof -
  have "managedFusionOffering (snd (k (snd (m s)))) = managedFusionOffering (snd (m s))"
    using emits_inv [OF k] by blast
  with m show ?thesis
    by (auto simp: snd_thenM_Ok [where m = m, OF m(1)] issued_thenM [OF ext])
qed

lemma offeringFinalizerPhase_run:
  assumes "fst (offeringFinalizerPhase x s) = Ok ()"
  shows "(managedFusionFinalizer \<in> set (Finalizers (meta (managedFusionOffering s))) \<and> offeringFinalizerPhase x s = (Ok (), s)) \<or>
    (\<exists>off off'. managedFusionFinalizer \<in> set (Finalizers (meta off)) \<and>
       issued (offeringFinalizerPhase x) s = [CUpdate off (Inr off')] \<and>
       managedFusionOffering (snd (offeringFinalizerPhase x s)) = off')"
  using storeOffering_run [OF assms [unfolded offeringFinalizerPhase_def]]
  unfolding offeringFinalizerPhase_def by (auto simp: AddFinalizer_def split: if_splits)
lemma removeOfferingFinalizer_run:
  assumes "fst (removeOfferingFinalizer x s) = Ok ()"
  shows "removeOfferingFinalizer x s = (Ok (), s) \<or>
    (\<exists>off off'. issued (removeOfferingFinalizer x) s = [CUpdate off (Inr off')] \<and>
       managedFusionOffering (snd (removeOfferingFinalizer x s)) = off')"
  using storeOffering_run [OF assms [unfolded removeOfferingFinalizer_def]]
  unfolding removeOfferingFinalizer_def by auto

section \<open>When the storage cluster is deleted\<close>

definition clusterReady :: "nname \<Rightarrow> call \<Rightarrow> bool" where
  "clusterReady key c \<longleftrightarrow>
     (\<exists>k sc. c = CGet KStorageCluster k (Inr sc) \<and> storageClusterPhase sc = ''Ready'' \<and>
        ObjectKeyFromObject sc = key)"

definition noConsumers :: "call \<Rightarrow> bool" where
  "noConsumers c \<longleftrightarrow> c = CList KStorageConsumer None (Some 1) (Inr [])"

definition terminatingOffering :: "call \<Rightarrow> bool" where
  "terminatingOffering c \<longleftrightarrow> (\<exists>off. \<not> IsZero (DeletionTimestamp (meta off)) \<and> answersOffering off c)"

lemma no_deletes_at [simp]: "\<not> is_delete c \<Longrightarrow> \<not> deletes_at k key c"
  by (cases c) auto

lemma nodelete_guarded: "nodelete m \<Longrightarrow> guarded (deletes_at k key) G m"
  by (rule guarded_never) (auto elim!: emits_weaken)

lemma deletes_only_guarded:
  "emits (\<lambda>_. True) (deletes_only k') m \<Longrightarrow> k' \<noteq> k \<Longrightarrow> guarded (deletes_at k key) G m"
  by (rule guarded_never) (auto elim!: emits_weaken simp: deletes_at_iff)

definition consumersCheck :: "('w, 'y) client_scheme \<Rightarrow> obj \<Rightarrow> ('w, ctrl_Result) df_prog" where
  "consumersCheck x sc =
     bindM (wrapErr ''unable to list OCS StorageConsumers CRs''
              (client_list x KStorageConsumer None (Some 1))) (\<lambda>items.
        if length items > 0
        then ret \<lparr>Requeue = True, RequeueAfter = 10 * Second\<rparr>
        else
          thenM (wrapErr ''unable to issue a delete for storagecluster''
                   (deleteObj x KStorageCluster (ObjectKeyFromObject sc)))
          (ret noRequeue))"

lemma dfUninstall_split:
  "dfUninstall x =
     bindM (gets (\<lambda>r. ObjectKeyFromObject (storageCluster r))) (\<lambda>key.
     bindM (wrapErr ''unable to get storagecluster'' (client_get x KStorageCluster key)) (\<lambda>sc.
     thenM (modify (storageCluster_update (\<lambda>_. sc)))
     (if storageClusterPhase sc \<noteq> ''Ready'' then ret noRequeue else consumersCheck x sc)))"
  unfolding dfUninstall_def consumersCheck_def ..

lemma emits_consumersCheck:
  "(\<And>res. A (CList KStorageConsumer None (Some 1) res)) \<Longrightarrow>
   (\<And>res. A (CDelete KStorageCluster (ObjectKeyFromObject sc) res)) \<Longrightarrow>
   emits (\<lambda>_. True) A (consumersCheck x sc)"
  unfolding consumersCheck_def by (intro emits_rules emits_client_list emits_deleteObj; simp)

lemma extends_consumersCheck: "extends (consumersCheck x sc)"
  by (rule emits_consumersCheck) simp_all

lemma consumersCheck_guarded: "guarded (deletes_at KStorageCluster key) noConsumers (consumersCheck x sc)"
  unfolding consumersCheck_def
proof (rule guarded_bindM_log)
  show "list_ex noConsumers (issued (wrapErr ''unable to list OCS StorageConsumers CRs''
          (client_list x KStorageConsumer None (Some 1))) s) \<or>
      guarded (deletes_at KStorageCluster key) noConsumers
        (if length items > 0 then ret \<lparr>Requeue = True, RequeueAfter = 10 * Second\<rparr>
         else thenM (wrapErr ''unable to issue a delete for storagecluster''
                (deleteObj x KStorageCluster (ObjectKeyFromObject sc))) (ret noRequeue))"
    if "fst (wrapErr ''unable to list OCS StorageConsumers CRs''
          (client_list x KStorageConsumer None (Some 1)) s) = Ok items" for items and s :: "'a dataFoundation"
    using that by (auto simp: client_list_log noConsumers_def)
qed (intro nodelete_guarded emits_rules nodelete_client emits_client_list emits_deleteObj; simp)+

lemma dfUninstall_consumers: "guarded (deletes_at KStorageCluster key) noConsumers (dfUninstall x)"
  unfolding dfUninstall_split
  by (intro guarded_bindM guarded_thenM guarded_if consumersCheck_guarded guarded_wrapErr nodelete_guarded
      guarded_simple emits_rules nodelete_client emits_client_get emits_modify extends_consumersCheck; simp)

lemma dfUninstall_ready: "guarded (deletes_at KStorageCluster key) (clusterReady key) (dfUninstall x)"
  unfolding dfUninstall_split
proof (intro guarded_bindM [OF guarded_simple(4)] guarded_bindM_log)
  let ?rest = "\<lambda>sc. thenM (modify (storageCluster_update (\<lambda>_. sc)))
     (if storageClusterPhase sc \<noteq> ''Ready'' then ret noRequeue else consumersCheck x sc)"
  show "list_ex (clusterReady key) (issued (wrapErr ''unable to get storagecluster'' (client_get x KStorageCluster k)) s) \<or>
      guarded (deletes_at KStorageCluster key) (clusterReady key) (?rest sc)"
    if "fst (wrapErr ''unable to get storagecluster'' (client_get x KStorageCluster k) s) = Ok sc"
    for sc k and s :: "'a dataFoundation"
  proof (cases "storageClusterPhase sc = ''Ready'' \<and> ObjectKeyFromObject sc = key")
    case True
    with that show ?thesis by (auto simp: client_get_log clusterReady_def)
  next
    case False
    then have "guarded (deletes_at KStorageCluster key) (clusterReady key) (?rest sc)"
      by (intro guarded_thenM guarded_if guarded_modify guarded_simple guarded_never emits_consumersCheck
          emits_rules emits_modify extends_consumersCheck) auto
    then show ?thesis ..
  qed
qed (intro nodelete_guarded emits_rules nodelete_client emits_client_get emits_modify extends_consumersCheck; simp)+

lemma extends_dfReconcilePhases: "extends (dfReconcilePhases x)"
  by (rule emits_weaken [OF emits_dfReconcilePhases]) simp

lemma guarded_dfReconcilePhases:
  assumes "guarded (deletes_at KStorageCluster key) G (dfUninstall x)"
  shows "guarded (deletes_at KStorageCluster key) G (dfReconcilePhases x)"
  unfolding dfReconcilePhases_def
  by (intro guarded_bindM guarded_thenM guarded_if assms nodelete_guarded guarded_simple emits_rules
      nodelete_requireCRD nodelete_dfInstall emits_extends [OF nodelete_requireCRD]
      emits_extends [OF nodelete_dfInstall] emits_weaken [OF emits_dfUninstall] TrueI)

lemma guarded_pluginPhase:
  assumes "guarded (deletes_at KStorageCluster key) G (dfUninstall x)"
  shows "guarded (deletes_at KStorageCluster key) G (pluginPhase x)"
proof -
  have df: "guarded (deletes_at KStorageCluster key) G (dfReconcile x off spec)" for off spec
    using guarded_dfReconcilePhases [OF assms] by (simp add: guarded_def issued_dfReconcile)
  have dfc: "guarded (deletes_at KStorageCluster key) G (dfcReconcile x off spec)" for off spec
    using nodelete_guarded [OF nodelete_dfcReconcilePhases, of KStorageCluster key G x]
    by (simp add: guarded_def issued_dfcReconcile)
  have plugin: "guarded (deletes_at KStorageCluster key) G (pluginReconcile x off spec)" for off spec
    using df dfc by (auto simp: pluginReconcile_def Let_def split: offeringSpec.split)
  have ext: "extends (pluginReconcile x off spec)" for off spec
    by (rule emits_weaken [OF emits_pluginReconcile]) simp
  show ?thesis
    unfolding pluginPhase_def
    by (intro guarded_bindM emits_rules ext) (auto split: prod.split option.split intro: guarded_wrapErr plugin)
qed

lemma deletes_removalPhase: "emits (\<lambda>_. True) (deletes_only KNamespace) (removalPhase x)"
  unfolding removalPhase_def pluginIsReadyToBeRemoved_def dfIsReadyToBeRemoved_def removeOfferingFinalizer_def
    storeOffering_def
  by (intro emits_rules emits_client_get emits_client_update emits_modify emits_deleteObj; simp)

lemma guarded_offeringReconcile:
  assumes "guarded (deletes_at KStorageCluster key) G (dfUninstall x)"
  shows "guarded (deletes_at KStorageCluster key) G (offeringReconcile x ns n)"
proof -
  have phases: "guarded (deletes_at KStorageCluster key) G (offeringPhases x)"
    unfolding offeringPhases_def
    by (intro guarded_bindM guarded_thenM guarded_if guarded_pluginPhase assms guarded_simple
        deletes_only_guarded [OF deletes_removalPhase] nodelete_guarded [OF nodelete_operatorPhase]
        emits_rules extends_removalPhase extends_operatorPhase extends_pluginPhase; simp)
  show ?thesis
    unfolding offeringReconcile_def initOffering_def
    by (intro guarded_thenM guarded_bindM guarded_case_sum guarded_if guarded_modify guarded_tryM guarded_wrapErr
        phases nodelete_guarded [OF nodelete_client(1)] guarded_simple emits_rules emits_client_get emits_modify
        extends_offeringPhases; simp)
qed

section \<open>The offering was terminating\<close>

lemma pluginReconcile_live:
  assumes live: "IsZero (DeletionTimestamp (meta off))"
  shows "c \<in> set (issued (pluginReconcile x off spec) s) \<Longrightarrow> \<not> is_delete c"
proof -
  have df: "\<not> is_delete c" if "c \<in> set (issued (dfReconcile x off sp) s)" for sp
  proof -
    let ?t = "initDataFoundation off sp s"
    let ?body = "thenM (requireCRD x (dfAvailableCRDs ?t) storageClusterCRDName)
     (thenM (requireCRD x (dfAvailableCRDs ?t) ocsInitializationCRDName)
     (if \<not> IsZero (DeletionTimestamp (meta (dfOffering ?t))) then dfUninstall x
      else thenM (dfInstall x) (ret noRequeue)))"
    have off: "dfOffering ?t = off"
      by (simp add: initDataFoundation_def offering.defs dataFoundation.defs Let_def)
    have log: "issued (dfReconcile x off sp) s = issued ?body ?t"
      unfolding issued_dfReconcile by (simp add: issued_def dfReconcilePhases_def gets_def bindM_step)
    have "nodelete ?body"
      using live off by (intro nodelete_rules nodelete_dfInstall) simp_all
    from emits_issued [OF this TrueI] that show ?thesis unfolding log .
  qed
  have dfc: "\<not> is_delete c" if "c \<in> set (issued (dfcReconcile x off sp) s)" for sp
    using that emits_issued [OF nodelete_dfcReconcilePhases TrueI] unfolding issued_dfcReconcile by blast
  show "c \<in> set (issued (pluginReconcile x off spec) s) \<Longrightarrow> \<not> is_delete c"
    using df dfc by (auto simp: pluginReconcile_def Let_def split: if_splits offeringSpec.splits)
qed

lemma pluginPhase_live:
  assumes "IsZero (DeletionTimestamp (meta (managedFusionOffering s)))" and "c \<in> set (issued (pluginPhase x) s)"
  shows "\<not> is_delete c"
proof -
  have "issued (pluginPhase x) s =
      (case unmarshalOfferingSpec x (mfo_Config (offeringSpecOf (managedFusionOffering s)))
              (pluginGetDesiredOfferingSpec s) of
         (spec, err) \<Rightarrow>
           (case err of
              Some e \<Rightarrow> []
            | None \<Rightarrow> issued (pluginReconcile x (managedFusionOffering s) spec) s))"
    by (simp add: pluginPhase_def issued_def gets_def bindM_step fail_def wrapErr_def split_beta
        split: option.split outcome.split)
  with assms show ?thesis
    using pluginReconcile_live by (fastforce split: prod.splits option.splits)
qed

lemma operatorPhase_offering:
  assumes "fst (operatorPhase x s) = Ok ()"
  shows "managedFusionOffering (snd (operatorPhase x s)) = managedFusionOffering s \<or>
    list_ex (answersOffering (managedFusionOffering (snd (operatorPhase x s)))) (issued (operatorPhase x) s)"
  unfolding operatorPhase_split
proof (rule storedOffering_step)
  show ok: "fst (offeringFinalizerPhase x s) = Ok ()"
    using fst_thenM_Ok [OF assms [unfolded operatorPhase_split]] by auto
  show "managedFusionOffering (snd (offeringFinalizerPhase x s)) = managedFusionOffering s \<or>
      list_ex (answersOffering (managedFusionOffering (snd (offeringFinalizerPhase x s))))
        (issued (offeringFinalizerPhase x) s)"
    using offeringFinalizerPhase_run [OF ok] by (auto simp: answersOffering_def)
qed (rule frame_operatorResources extends_offeringFinalizerPhase extends_operatorResources)+

lemma offeringReconcile_terminating:
  "guarded is_delete terminatingOffering (offeringReconcile x ns n)"
  unfolding guarded_def
proof
  fix r :: "'a offering"
  show "guardedLog is_delete terminatingOffering False (issued (offeringReconcile x ns n) r)"
  proof (cases rule: offeringReconcile_issued [of x ns n r])
    case run: (phases off s)
    let ?first = "if \<not> IsZero (DeletionTimestamp (meta off)) then removalPhase x
        else if UID (meta off) \<noteq> '''' then operatorPhase x else ret ()"
    have log: "issued (offeringPhases x) s = issued ?first s @
        (case fst (?first s) of Ok _ \<Rightarrow> issued (pluginPhase x) (snd (?first s)) | _ \<Rightarrow> [])"
      using run(1) by (simp only: offeringPhases_issued Let_def)
    show ?thesis
    proof (cases "IsZero (DeletionTimestamp (meta off))")
      case False
      then have "terminatingOffering (CGet KManagedFusionOffering (n, ns) (Inr off))"
        by (auto simp: terminatingOffering_def answersOffering_def)
      with run(8) show ?thesis by simp
    next
      case live: True
      have quiet: "list_all (\<lambda>c. \<not> is_delete c) (issued ?first s)"
        using live emits_issued [OF nodelete_operatorPhase TrueI] by (auto simp: list_all_iff)
      have plugin: "guardedLog is_delete terminatingOffering (list_ex terminatingOffering (issued ?first s))
          (issued (pluginPhase x) (snd (?first s)))" if ok: "fst (?first s) = Ok ()"
      proof (cases "IsZero (DeletionTimestamp (meta (managedFusionOffering (snd (?first s)))))")
        case True
        then have "list_all (\<lambda>c. \<not> is_delete c) (issued (pluginPhase x) (snd (?first s)))"
          unfolding list_all_iff by (intro ballI) (rule pluginPhase_live)
        then show ?thesis by (rule guardedLog_none)
      next
        case False
        have "managedFusionOffering (snd (?first s)) = off \<or>
            list_ex (answersOffering (managedFusionOffering (snd (?first s)))) (issued ?first s)"
          using operatorPhase_offering [of x s] ok live run(1) by (auto simp: ret_def split: if_splits)
        with False live have "list_ex terminatingOffering (issued ?first s)"
          by (auto simp: list_ex_iff terminatingOffering_def)
        then show ?thesis by simp
      qed
      have "guardedLog is_delete terminatingOffering False (issued (offeringPhases x) s)"
        unfolding log guardedLog_append
        using plugin guardedLog_none [OF quiet] by (cases "fst (?first s)") simp_all
      then show ?thesis unfolding run(8) by (simp add: guardedLog_mono)
    qed
  qed simp
qed

end
