(* ===== verification/Offering_Kinds.thy ===== *)
theory Offering_Kinds
  imports Offering_Order
begin

text \<open>
  The kinds of objects an offering's run creates.
\<close>


section \<open>The kinds a run creates\<close>

definition creates_in :: "kind set \<Rightarrow> call \<Rightarrow> bool" where
  "creates_in K c \<longleftrightarrow> (case c of CCreate ob _ \<Rightarrow> kind_of ob \<in> K | _ \<Rightarrow> True)"

lemma creates_in_simps [simp]:
  "creates_in K (CGet k key r)" "creates_in K (CList k n lim r')" "creates_in K (CUpdate ob r)"
  "creates_in K (CDelete k key u)" "creates_in K (CCreate ob r) \<longleftrightarrow> kind_of ob \<in> K"
  by (simp_all add: creates_in_def)

lemma creates_in_mono: "creates_in K c \<Longrightarrow> K \<subseteq> K' \<Longrightarrow> creates_in K' c"
  by (auto simp: creates_in_def split: call.splits)

lemma yields_client_kind:
  "yields (\<lambda>ob'. kind_of ob' = kind_of ob) (client_create x ob)"
  "yields (\<lambda>ob'. kind_of ob' = kind_of ob) (client_update x ob)"
  by (auto simp: yields_def prog_unfold split: prod.splits sum.splits)

lemma CreateOrUpdate_kind:
  assumes "\<And>o1. kind_of o1 = kind_of ob \<Longrightarrow> yields (\<lambda>o2. kind_of o2 = kind_of ob) (f o1)"
  shows "yields (\<lambda>(_, ob'). kind_of ob' = kind_of ob) (CreateOrUpdate x ob f)"
  unfolding CreateOrUpdate_def
  by (rule yields_bindM [OF yields_tryM [OF yields_client_get]], split sum.split)
    (auto intro!: yields_fail yields_ret yields_if yields_bindM [OF yields_mutate [OF assms]]
      yields_bindM [OF yields_client_kind(1)] yields_bindM [OF yields_client_kind(2)])

lemma kinded_createOrUpdate:
  assumes I: "env_stable I" and field: "\<And>r. I r \<Longrightarrow> kind_of (field r) = k" and k: "k \<in> K"
    and f: "\<And>r ob. emits I (creates_in K) (f r ob)"
    and kind: "\<And>r o1. kind_of o1 = k \<Longrightarrow> yields (\<lambda>o2. kind_of o2 = k) (f r o1)"
    and upd: "\<And>r ob. I r \<Longrightarrow> kind_of ob = k \<Longrightarrow> I (upd (\<lambda>_. ob) r)"
    and calls: "\<And>r ob. calls (upd (\<lambda>_. ob) r) = calls r"
  shows "emits I (creates_in K) (createOrUpdate x field upd f)"
  unfolding createOrUpdate_def
proof (rule emits_bindM_post [where P = I])
  fix r assume r: "I r"
  have yk: "yields (\<lambda>o2. kind_of o2 = kind_of (field r)) (f r o1)" if "kind_of o1 = kind_of (field r)" for o1
    using kind that field [OF r] by simp
  show "emits I (creates_in K) (bindM (CreateOrUpdate x (field r) (f r)) (\<lambda>(_, ob). modify (upd (\<lambda>_. ob))))"
  proof (rule emits_bindM_yields)
    show "emits I (creates_in K) (CreateOrUpdate x (field r) (f r))"
    proof (rule emits_CreateOrUpdate [OF I _ _ f yk])
      show "creates_in K c" if "puts_at (kind_of (field r)) (ObjectKeyFromObject (field r)) c" for c
        using that k field [OF r] by (cases c) simp_all
    qed simp_all
    show "yields (\<lambda>(_, ob'). kind_of ob' = kind_of (field r)) (CreateOrUpdate x (field r) (f r))"
      by (rule CreateOrUpdate_kind [OF yk])
    show "emits I (creates_in K) (case p of (_, ob) \<Rightarrow> modify (upd (\<lambda>_. ob)))"
      if "case p of (_, ob') \<Rightarrow> kind_of ob' = kind_of (field r)" for p
      using that field [OF r] by (cases p) (auto intro!: emits_modify upd calls)
  qed
qed (rule emits_gets, simp add: gets_def)

lemma kinded_owned:
  assumes "env_stable I" and "\<And>r. I r \<Longrightarrow> kind_of (field r) = k" and "k \<in> K"
    and h: "\<And>r. pure_mutator k (withOwner (ownBy True r) (h r))"
    and "\<And>r ob. I r \<Longrightarrow> kind_of ob = k \<Longrightarrow> I (upd (\<lambda>_. ob) r)"
    and "\<And>r ob. calls (upd (\<lambda>_. ob) r) = calls r"
  shows "emits I (creates_in K) (createOrUpdateOwned x field upd h)"
  unfolding createOrUpdateOwned_def
proof (rule kinded_createOrUpdate [where k = k])
  show "yields (\<lambda>o2. kind_of o2 = k) (liftOutcome (withOwner (ownBy True r) (h r) o1))"
    if "kind_of o1 = k" for r o1
    by (intro yields_liftOutcome) (rule pure_mutator.same_kind [OF h that])
qed (fact assms emits_liftOutcome)+


text \<open>The objects the reconcilers hold are of the kinds of their fields.\<close>

definition dfKinds :: "'w dataFoundation \<Rightarrow> bool" where
  "dfKinds r \<longleftrightarrow> kind_of (onboardingValidationKeySecret r) = KSecret \<and>
     kind_of (storageCluster r) = KStorageCluster \<and>
     kind_of (cephIngressNetworkPolicy r) = KNetworkPolicy \<and>
     kind_of (providerAPIServerNetworkPolicy r) = KNetworkPolicy"

definition dfcKinds :: "'w dataFoundationClient \<Rightarrow> bool" where
  "dfcKinds r \<longleftrightarrow> kind_of (storageClient r) = KStorageClient \<and>
     kind_of (defaultBlockStorageClassClaim r) = KStorageClassClaim \<and>
     kind_of (defaultFSStorageClassClaim r) = KStorageClassClaim \<and>
     kind_of (csiKMSConnectionDetailsConfigMap r) = KConfigMap"

lemma kinds_stable [simp]: "env_stable operatorKinds" "env_stable dfKinds" "env_stable dfcKinds"
  by (simp_all add: env_stable_def operatorKinds_def dfKinds_def dfcKinds_def)

lemma dfKinds_init: "dfKinds (initDataFoundation off spec r)"
  by (simp add: initDataFoundation_def offering.defs dataFoundation.defs Let_def dfKinds_def)

lemma dfcKinds_init: "dfcKinds (initDataFoundationClient off spec r)"
  by (simp add: initDataFoundationClient_def offering.defs dataFoundationClient.defs Let_def dfcKinds_def)

definition operatorCreates :: "kind set" where
  "operatorCreates = {KOperatorGroup, KCatalogSource, KSubscription}"

definition dfCreates :: "kind set" where
  "dfCreates = {KSecret, KStorageCluster, KNetworkPolicy}"

definition dfcCreates :: "kind set" where
  "dfcCreates = {KStorageClient, KStorageClassClaim, KConfigMap}"

text \<open>Reads, updates and deletes create nothing.\<close>

lemma kinded_client:
  assumes "env_stable I"
  shows "emits I (creates_in K) (client_get x k key)" "emits I (creates_in K) (client_list x k n lim)"
    "emits I (creates_in K) (client_update x ob)" "emits I (creates_in K) (deleteObj x k key)"
    "emits I (creates_in K) (csvInNamespace x ns name)"
  by (intro emits_client_get emits_client_list emits_client_update emits_deleteObj emits_csvInNamespace assms; simp)+

lemma kinded_shared:
  assumes I: "env_stable I"
  shows "emits I (creates_in K) (offeringCSVByPrefix x name)" "emits I (creates_in K) (requireCRD x crds name)"
    "emits I (creates_in K) (labelAll x k ns msg)"
    "(\<And>o1. emits I (creates_in K) (f o1)) \<Longrightarrow> emits I (creates_in K) (GetAndUpdate x ob f)"
  unfolding offeringCSVByPrefix_def requireCRD_def HandleMissingWatch_def labelAll_def GetAndUpdate_def mutate_def
  by (intro emits_rules kinded_client I; assumption?)+

lemmas kinded_rules = emits_rules kinded_client kinded_shared

lemma kinded_operatorResources: "emits operatorKinds (creates_in operatorCreates) (operatorResources x)"
  unfolding operatorResources_def reconcileOperatorGroup_def reconcileCatalogSource_def reconcileSubscription_def
  by (intro kinded_rules kinded_owned [OF _ _ _ operator_group_fill.owned.pure_mutator_axioms]
      kinded_owned [OF _ _ _ catalog_source_fill.owned.pure_mutator_axioms]
      kinded_owned [OF _ _ _ subscription_fill.owned.pure_mutator_axioms];
      simp add: operatorKinds_def operatorCreates_def)

lemma kinded_dfInstall: "emits dfKinds (creates_in dfCreates) (dfInstall x)"
  unfolding dfInstall_def reconcileOnboardingValidationSecret_def reconcileStorageCluster_def
    reconcileMonitoringResources_def dfReconcileCSV_def reconcileCephIngressNetworkPolicy_def
    reconcileProviderAPIServerNetworkPolicy_def reconcileRookCephOperatorConfig_def
    reconcileOCSInitialization_def
  by (intro kinded_rules kinded_owned [OF _ _ _ onboarding_fill.owned.pure_mutator_axioms]
      kinded_owned [OF _ _ _ storage_cluster_fill.owned.pure_mutator_axioms]
      kinded_owned [OF _ _ _ ceph_policy_fill.owned.pure_mutator_axioms]
      kinded_owned [OF _ _ _ provider_policy_fill.owned.pure_mutator_axioms] emits_modify;
      simp add: dfKinds_def dfCreates_def)

lemma kinded_claim:
  assumes "\<And>r. dfcKinds r \<Longrightarrow> kind_of (field r) = KStorageClassClaim"
    and "\<And>r ob. dfcKinds r \<Longrightarrow> kind_of ob = KStorageClassClaim \<Longrightarrow> dfcKinds (upd (\<lambda>_. ob) r)"
    and "\<And>r ob. calls (upd (\<lambda>_. ob) r) = calls r"
  shows "emits dfcKinds (creates_in dfcCreates) (reconcileStorageClassClaim x field upd claimType)"
  unfolding reconcileStorageClassClaim_def
  by (intro kinded_createOrUpdate [where k = KStorageClassClaim] yields_liftOutcome emits_liftOutcome assms)
    (auto simp: dfcCreates_def dest: claim_fill.same_kind)

lemma kinded_dfcInstall: "emits dfcKinds (creates_in dfcCreates) (dfcInstall x)"
  unfolding dfcInstall_def reconcileStorageClient_def dfcReconcileCSV_def
    reconcileDefaultBlockStorageClassClaim_def reconcileDefaultFSStorageClassClaim_def
    reconcileCSIKMSConnectionDetailsConfigMap_def
  by (intro kinded_rules kinded_owned [OF _ _ _ storage_client_fill.owned.pure_mutator_axioms]
      kinded_owned [OF _ _ _ csi_kms_fill.owned.pure_mutator_axioms] kinded_claim;
      simp add: dfcKinds_def dfcCreates_def)

lemma kinded_dfUninstall: "emits dfKinds (creates_in dfCreates) (dfUninstall x)"
  unfolding dfUninstall_split consumersCheck_def
proof (intro emits_bindM [OF emits_gets], rule emits_bindM_yields [OF _ yields_wrapErr [OF yields_client_get]])
  fix key sc
  assume "kind_of sc = KStorageCluster"
  then show "emits dfKinds (creates_in dfCreates) (thenM (modify (storageCluster_update (\<lambda>_. sc)))
     (if storageClusterPhase sc \<noteq> ''Ready'' then ret noRequeue
      else bindM (wrapErr ''unable to list OCS StorageConsumers CRs''
              (client_list x KStorageConsumer None (Some 1))) (\<lambda>items.
        if length items > 0
        then ret \<lparr>Requeue = True, RequeueAfter = 10 * Second\<rparr>
        else
          thenM (wrapErr ''unable to issue a delete for storagecluster''
                   (deleteObj x KStorageCluster (ObjectKeyFromObject sc)))
          (ret noRequeue))))"
    by (intro kinded_rules emits_modify; simp add: dfKinds_def)
qed (intro kinded_rules; simp)

lemma kinded_dfReconcilePhases: "emits dfKinds (creates_in dfCreates) (dfReconcilePhases x)"
  unfolding dfReconcilePhases_def
  by (intro kinded_rules kinded_dfInstall kinded_dfUninstall; simp)

lemma kinded_dfcReconcilePhases: "emits dfcKinds (creates_in dfcCreates) (dfcReconcilePhases x)"
  unfolding dfcReconcilePhases_def by (intro kinded_rules kinded_dfcInstall; simp)

lemma kinded_plugins:
  "emits (\<lambda>_. True) (creates_in dfCreates) (dfReconcile x off dspec)"
  "emits (\<lambda>_. True) (creates_in dfcCreates) (dfcReconcile x off cspec)"
  unfolding dfReconcile_def dfcReconcile_def
  by (rule emits_embedded [OF kinded_dfReconcilePhases] emits_embedded [OF kinded_dfcReconcilePhases];
      simp add: dfKinds_init dfcKinds_init)+

end
