(* ===== verification/Mem_Offering.thy ===== *)
theory Mem_Offering
  imports Offering_Kinds Mem_Server
begin

text \<open>
  Servers, states and objects to run the offering's reconciler and its plugins on concrete inputs.
\<close>

section \<open>The server, the state and the objects\<close>

definition offeringHost ::
  "(string \<times> dataFoundationSpec) list \<Rightarrow> (string \<times> dataFoundationClientSpec) list \<Rightarrow> store offering_host" where
  "offeringHost dfs dfcs =
     \<lparr>api_Get = mem_Get, api_List = mem_List, api_Create = mem_Create, api_Update = mem_Update,
      api_Delete = mem_Delete,
      os_ReadFile = (\<lambda>path w. (Inl (ErrorNew ''no file''), w)),
      http_Get = (\<lambda>url w. (Inl (ErrorNew ''no route''), w)),
      time_Sleep = (\<lambda>d w. w),
      yaml_dataFoundation = yamlTable dfs dfGetOfferingSpecInstance,
      yaml_dataFoundationClient = yamlTable dfcs dfcGetOfferingSpecInstance,
      yaml_nil = (\<lambda>config. None)\<rparr>"

lemma offeringHost_simps [simp]:
  "api_Get (offeringHost dfs dfcs) = mem_Get" "api_List (offeringHost dfs dfcs) = mem_List"
  "api_Create (offeringHost dfs dfcs) = mem_Create" "api_Update (offeringHost dfs dfcs) = mem_Update"
  "api_Delete (offeringHost dfs dfcs) = mem_Delete"
  by (simp_all add: offeringHost_def)

definition sampleOfferingHost :: "store offering_host" where
  "sampleOfferingHost =
     offeringHost [(''df'', \<lparr>UsableCapacityInTiB = 5, OnboardingValidationKey = ''key''\<rparr>)]
       [(''dfc'', \<lparr>OnboardingTicket = ''ticket'', ProviderEndpoint = ''host''\<rparr>)]"

definition freshOffering :: "string list \<Rightarrow> store \<Rightarrow> store offering" where
  "freshOffering crds w =
     (let z = named KSecret '''' '''' in
      \<lparr>world = w, calls = [], namespace = '''', offeringCRDs = fmap_of_list (map (\<lambda>c. (c, True)) crds),
       managedFusionOffering = z, operatorGroup = z, catalogSource = z, subscription = z\<rparr>)"

lemma freshOffering_simps [simp]:
  "world (freshOffering crds w) = w" "calls (freshOffering crds w) = []"
  by (simp_all add: freshOffering_def Let_def)

definition sampleOffering :: "string \<Rightarrow> string \<Rightarrow> string list \<Rightarrow> int option \<Rightarrow> obj" where
  "sampleOffering knd config finalizers deletion =
     \<lparr>meta = emptyMeta\<lparr>Name := ''off'', Namespace := ''ns'', UID := ''7'', Finalizers := finalizers,
        DeletionTimestamp := deletion\<rparr>,
      body = ManagedFusionOffering \<lparr>mfo_Kind = knd, mfo_Release = '''', mfo_Config = config\<rparr>\<rparr>"

definition sampleCluster :: "string \<Rightarrow> obj" where
  "sampleCluster phase =
     (named KStorageCluster storageClusterName ''ns'')\<lparr>body := StorageCluster (clusterWithCount 2) phase\<rparr>"

definition offeringRefusingHost :: "store offering_host" where
  "offeringRefusingHost =
     sampleOfferingHost\<lparr>api_Create := (\<lambda>ob w. (Inl (StatusError ReasonForbidden ''forbidden''), w))\<rparr>"

lemmas eval_offering =
  offeringHost_def sampleOfferingHost_def offeringRefusingHost_def freshOffering_def sampleOffering_def
  sampleCluster_def pluginGetDesiredOfferingSpec_def initDataFoundation_def crdAvailable_def
  offering.defs dataFoundation.defs AddOwnerReference_def newOwnerRef_def

section \<open>Runs\<close>

text \<open>A terminating offering without a cluster, one with a cluster, and a new offering.\<close>

definition clusterGone :: "store offering" where
  "clusterGone = freshOffering [] [sampleOffering KindDataFoundation ''df'' [managedFusionFinalizer] (Some 5)]"

definition clusterLeft :: "store offering" where
  "clusterLeft = freshOffering [storageClusterCRDName, ocsInitializationCRDName]
     [sampleOffering KindDataFoundation ''df'' [managedFusionFinalizer] (Some 5), sampleCluster ''Ready'']"

definition newOffering :: "store offering" where
  "newOffering = freshOffering [] [sampleOffering KindDataFoundation ''df'' [] None]"

abbreviation offeringRun :: "store offering_host \<Rightarrow> store offering \<Rightarrow> call list" where
  "offeringRun x s \<equiv> issued (offeringReconcile x ''ns'' ''off'') s"

fun deletesKind :: "kind \<Rightarrow> call \<Rightarrow> bool" where
  "deletesKind k (CDelete k' key res) = (k' = k)"
| "deletesKind k c = False"

fun createsKind :: "kind \<Rightarrow> call \<Rightarrow> bool" where
  "createsKind k (CCreate ob res) = (kind_of ob = k)"
| "createsKind k c = False"

lemma deletesKindE:
  assumes "list_ex (deletesKind k) cs"
  obtains key res where "CDelete k key res \<in> set cs"
proof -
  from assms obtain c where c: "c \<in> set cs" "deletesKind k c" by (auto simp: list_ex_iff)
  with that show thesis by (cases c) simp_all
qed

lemma createsKindE:
  assumes "list_ex (createsKind k) cs"
  obtains ob res where "CCreate ob res \<in> set cs" and "kind_of ob = k"
proof -
  from assms obtain c where c: "c \<in> set cs" "createsKind k c" by (auto simp: list_ex_iff)
  with that show thesis by (cases c) simp_all
qed

lemma removed_run: "list_ex (deletesKind KNamespace) (offeringRun sampleOfferingHost clusterGone)"
  unfolding issued_def offeringReconcile_def clusterGone_def
  by (simp add: prog_unfold const_defs eval_server eval_objects eval_offering bindM_step thenM_step Let_def
      offeringPhases_def dfReconcile_def embedded_def dfReconcilePhases_def
      del: bindM_def thenM_def cong: bindM_eval_cong thenM_eval_cong)

lemma cluster_run: "list_ex (deletesKind KStorageCluster) (offeringRun sampleOfferingHost clusterLeft)"
  unfolding issued_def offeringReconcile_def clusterLeft_def
  by (simp add: prog_unfold const_defs eval_server eval_objects eval_offering bindM_step thenM_step Let_def
      offeringPhases_def dfReconcile_def embedded_def dfReconcilePhases_def
      del: bindM_def thenM_def cong: bindM_eval_cong thenM_eval_cong)

lemma operator_run: "list_ex (createsKind KOperatorGroup) (offeringRun offeringRefusingHost newOffering)"
  unfolding issued_def offeringReconcile_def newOffering_def
  by (simp add: prog_unfold const_defs eval_server eval_objects eval_offering bindM_step thenM_step Let_def
      offeringPhases_def operatorPhase_def
      del: bindM_def thenM_def cong: bindM_eval_cong thenM_eval_cong)

section \<open>The plugins on their own\<close>

definition sampleDF :: "store \<Rightarrow> store dataFoundation" where
  "sampleDF w =
     (let off = sampleOffering KindDataFoundation ''df'' [managedFusionFinalizer] None in
      initDataFoundation off \<lparr>UsableCapacityInTiB = 20, OnboardingValidationKey = '' key ''\<rparr>
        ((freshOffering [] w)\<lparr>namespace := ''ns'', managedFusionOffering := off\<rparr>))"

definition sampleDFC :: "store \<Rightarrow> store dataFoundationClient" where
  "sampleDFC w =
     (let off = sampleOffering KindDataFoundationClient ''dfc'' [managedFusionFinalizer] None in
      initDataFoundationClient off \<lparr>OnboardingTicket = ''ticket'', ProviderEndpoint = ''host''\<rparr>
        ((freshOffering [] w)\<lparr>namespace := ''ns'', managedFusionOffering := off\<rparr>))"

lemma sampleDF_kinds [simp]: "dfKinds (sampleDF w)" "dfcKinds (sampleDFC w)"
  by (simp_all add: sampleDF_def sampleDFC_def Let_def dfKinds_init dfcKinds_init)

fun updatesKind :: "kind \<Rightarrow> call \<Rightarrow> bool" where
  "updatesKind k (CUpdate ob res) = (kind_of ob = k)"
| "updatesKind k c = False"

lemma updatesKindE:
  assumes "list_ex (updatesKind k) cs"
  obtains ob res where "CUpdate ob res \<in> set cs" and "kind_of ob = k"
proof -
  from assms obtain c where c: "c \<in> set cs" "updatesKind k c" by (auto simp: list_ex_iff)
  with that show thesis by (cases c) simp_all
qed

lemmas eval_plugins =
  sampleDF_def sampleDFC_def initDataFoundationClient_def dataFoundationClient.defs clusterWithCount_def
  storageClusterSpecOf.simps

lemma scaled_run:
  "list_ex (updatesKind KStorageCluster)
     (issued (reconcileStorageCluster sampleOfferingHost) (sampleDF [sampleCluster ''Ready'']))"
  unfolding issued_def
  by (simp add: prog_unfold const_defs eval_server eval_objects eval_offering eval_plugins fillStorageCluster_eq
      bindM_step thenM_step Let_def del: bindM_def thenM_def fillStorageCluster_def clusterWithCount_def cong: bindM_eval_cong thenM_eval_cong)

lemma onboarding_run:
  "list_ex (createsKind KSecret) (issued (reconcileOnboardingValidationSecret sampleOfferingHost) (sampleDF []))"
  unfolding issued_def
  by (simp add: prog_unfold const_defs eval_server eval_objects eval_offering eval_plugins bindM_step thenM_step Let_def
      del: bindM_def thenM_def cong: bindM_eval_cong thenM_eval_cong)

lemma storage_client_run:
  "list_ex (createsKind KStorageClient) (issued (reconcileStorageClient sampleOfferingHost) (sampleDFC []))"
  unfolding issued_def
  by (simp add: prog_unfold const_defs eval_server eval_objects eval_offering eval_plugins bindM_step thenM_step Let_def
      del: bindM_def thenM_def cong: bindM_eval_cong thenM_eval_cong)

lemma claim_run:
  "list_ex (createsKind KStorageClassClaim)
     (issued (reconcileDefaultBlockStorageClassClaim sampleOfferingHost) (sampleDFC []))"
  unfolding issued_def
  by (simp add: prog_unfold const_defs eval_server eval_objects eval_offering eval_plugins bindM_step thenM_step Let_def
      del: bindM_def thenM_def cong: bindM_eval_cong thenM_eval_cong)

definition samplePodMonitor :: obj where
  "samplePodMonitor = named KPodMonitor ''mon'' ''ns''"

lemma monitoring_run:
  "fst (reconcileMonitoringResources sampleOfferingHost (sampleDF [samplePodMonitor])) = Ok ()"
  by (simp add: prog_unfold const_defs eval_server eval_objects eval_offering eval_plugins samplePodMonitor_def
      bindM_step thenM_step Let_def del: bindM_def thenM_def cong: bindM_eval_cong thenM_eval_cong)

section \<open>Servers with fixed answers\<close>

text \<open>Without any storage cluster, and with one offering and every definition present.\<close>

definition goneHost :: "store offering_host" where
  "goneHost = sampleOfferingHost\<lparr>api_Get := (\<lambda>k key w.
     if k = KStorageCluster then (Inl (StatusError ReasonNotFound ''not found''), w) else mem_Get k key w)\<rparr>"

definition restartHost :: "store offering_host" where
  "restartHost = sampleOfferingHost\<lparr>api_Get := (\<lambda>k key w.
     if k = KManagedFusionOffering then
       (Inr (sampleOffering KindDataFoundation ''df'' [managedFusionFinalizer] (Some 5)), w)
     else if k = KCustomResourceDefinition then (Inr (named KCustomResourceDefinition (fst key) ''''), w)
     else (Inl (StatusError ReasonNotFound ''not found''), w))\<rparr>"

lemma restart_run: "\<exists>msg. fst (offeringReconcile restartHost ''ns'' ''off'' clusterGone) = Crash msg"
  unfolding offeringReconcile_def clusterGone_def
  by (simp add: prog_unfold const_defs eval_server eval_objects eval_offering restartHost_def bindM_step thenM_step
      Let_def offeringPhases_def dfReconcile_def embedded_def dfReconcilePhases_def
      del: bindM_def thenM_def cong: bindM_eval_cong thenM_eval_cong)

text \<open>Rook's configuration with both settings in it.\<close>

definition rookConfig :: obj where
  "rookConfig = (named KConfigMap ''rook-ceph-operator-config'' ''ns'')\<lparr>body := ConfigMap (Some (fmap_of_list
     [(''ROOK_CSI_ENABLE_CEPHFS'', ''false''), (''ROOK_CSI_ENABLE_RBD'', ''false''), (''other'', ''1'')]))\<rparr>"

end
