(* ===== verification/Offering_Outcomes.thy ===== *)
theory Offering_Outcomes
  imports Offering_Kinds
begin

text \<open>
  How runs of the offering's reconciler end: what one owned resource's operation writes, the runs that
  cannot succeed, and which answers of the server make a run crash.
\<close>

section \<open>What an update answers\<close>

lemma client_update_yields:
  assumes "\<And>w ob'. fst (api_Update x ob w) = Inr ob' \<Longrightarrow> P (decodeAs (kind_of ob) ob')"
  shows "yields P (client_update x ob)"
  unfolding yields_def
proof (intro allI impI)
  fix s ob'
  assume ok: "fst (client_update x ob s) = Ok ob'"
  then obtain ob1 where "fst (api_Update x ob (world s)) = Inr ob1" "ob' = decodeAs (kind_of ob) ob1"
    using client_update_run [of x ob s] by (cases "fst (api_Update x ob (world s))") auto
  with assms show "P ob'" by blast
qed

lemma decodeAs_body: "body ob' = body ob \<Longrightarrow> decodeAs (kind_of ob) ob' = ob'"
  by (simp add: decodeAs_def kind_of_def)

section \<open>Programs that never succeed\<close>

definition never_ok :: "('s, 'a) prog \<Rightarrow> bool" where
  "never_ok m \<longleftrightarrow> (\<forall>s. \<not> isOk (fst (m s)))"

lemma never_ok_fail: "never_ok (fail e)" "never_ok (crash msg)"
  by (simp_all add: never_ok_def fail_def crash_def)

lemma never_ok_bindM: "never_ok m \<or> (\<forall>a. never_ok (k a)) \<Longrightarrow> never_ok (bindM m k)"
  by (auto simp: never_ok_def isOk_iff dest!: bindM_OkD)

lemma never_ok_thenM: "never_ok m \<or> never_ok k \<Longrightarrow> never_ok (thenM m k)"
  unfolding thenM_def by (rule never_ok_bindM) auto

lemma never_ok_wrapErr: "never_ok m \<Longrightarrow> never_ok (wrapErr msg m)"
  by (simp add: never_ok_def isOk_iff)

lemma never_ok_get:
  assumes "\<And>w. \<exists>e. fst (api_Get x k key w) = Inl e"
  shows "never_ok (client_get x k key)"
  unfolding never_ok_def
proof
  fix s :: "('a, call, 'c) env_scheme"
  obtain e where "fst (api_Get x k key (world s)) = Inl e" using assms by blast
  with client_get_run [of x k key s] show "\<not> isOk (fst (client_get x k key s))" by auto
qed

section \<open>The run that removes an offering\<close>

text \<open>Without its storage cluster the plugin of a terminating offering fails.\<close>

lemma dfUninstall_gone:
  assumes "\<And>key w. \<exists>e. fst (api_Get x KStorageCluster key w) = Inl e"
  shows "never_ok (dfUninstall x)"
  unfolding dfUninstall_split
  by (rule never_ok_bindM, rule disjI2, rule allI, rule never_ok_bindM, rule disjI1, rule never_ok_wrapErr,
      rule never_ok_get, rule assms)

lemma dfReconcile_gone:
  assumes gone: "\<And>key w. \<exists>e. fst (api_Get x KStorageCluster key w) = Inl e"
    and del: "\<not> IsZero (DeletionTimestamp (meta off))"
  shows "\<not> isOk (fst (dfReconcile x off spec s))"
proof -
  let ?r = "initDataFoundation off spec s"
  have off: "dfOffering ?r = off"
    by (simp add: initDataFoundation_def offering.defs dataFoundation.defs Let_def)
  have "never_ok (thenM (requireCRD x c1 n1) (thenM (requireCRD x c2 n2) (dfUninstall x)))" for c1 c2 n1 n2
    using dfUninstall_gone [OF gone] by (intro never_ok_thenM disjI2)
  then have "\<not> isOk (fst (dfReconcilePhases x ?r))"
    using del off by (simp add: dfReconcilePhases_def gets_def bindM_step never_ok_def)
  then show ?thesis by (simp add: dfReconcile_def embedded_def split_beta)
qed

definition removedOffering :: "obj \<Rightarrow> bool" where
  "removedOffering off \<longleftrightarrow> mfo_Kind (offeringSpecOf off) = KindDataFoundation \<and>
     \<not> IsZero (DeletionTimestamp (meta off))"

lemma pluginPhase_gone:
  assumes gone: "\<And>key w. \<exists>e. fst (api_Get x KStorageCluster key w) = Inl e"
    and off: "removedOffering (managedFusionOffering s)"
  shows "\<not> isOk (fst (pluginPhase x s))"
proof -
  let ?off = "managedFusionOffering s"
  obtain v err where yaml: "yaml_dataFoundation x (mfo_Config (offeringSpecOf ?off)) = (v, err)"
    by (cases "yaml_dataFoundation x (mfo_Config (offeringSpecOf ?off))")
  have "\<not> isOk (fst (dfReconcile x ?off v s))"
    using off by (intro dfReconcile_gone gone) (simp add: removedOffering_def)
  then show ?thesis
    using yaml off
    by (cases err) (auto simp: pluginPhase_def gets_def bindM_step pluginGetDesiredOfferingSpec_def Let_def
        removedOffering_def pluginReconcile_def fail_def isOk_iff simp del: offeringSpecOf.simps)
qed

lemma RemoveFinalizer_removed: "removedOffering (snd (RemoveFinalizer off f)) = removedOffering off"
  by (simp add: removedOffering_def RemoveFinalizer_def)

text \<open>The removal keeps the offering a removed one, when an update keeps its body and deletion.\<close>

lemma removalPhase_removed:
  assumes keeps: "\<And>ob w ob'. fst (api_Update x ob w) = Inr ob' \<Longrightarrow>
      body ob' = body ob \<and> DeletionTimestamp (meta ob') = DeletionTimestamp (meta ob)"
  shows "emits (\<lambda>s. removedOffering (managedFusionOffering s)) (\<lambda>_. True) (removalPhase x)"
proof -
  let ?I = "\<lambda>s. removedOffering (managedFusionOffering s)"
  have I: "env_stable ?I" by (simp add: env_stable_def)
  have up: "yields removedOffering (client_update x off)" if "removedOffering off" for off
    using that keeps [of off] by (intro client_update_yields) (simp add: decodeAs_body removedOffering_def)
  have store: "emits ?I (\<lambda>_. True) (storeOffering x msg p)" if "removedOffering (snd p)" for msg p
  proof (cases p)
    case (Pair changed off)
    have "emits ?I (\<lambda>_. True) (bindM (wrapErr msg (client_update x off)) (\<lambda>off'. modify (managedFusionOffering_update (\<lambda>_. off'))))"
      by (rule emits_bindM_yields [OF emits_wrapErr [OF emits_client_update [OF I TrueI]] yields_wrapErr [OF up]])
        (use that Pair in \<open>auto intro!: emits_modify\<close>)
    with Pair show ?thesis by (auto simp: storeOffering_def intro: emits_ret)
  qed
  have finalizer: "emits ?I (\<lambda>_. True) (removeOfferingFinalizer x)"
    unfolding removeOfferingFinalizer_def
    by (rule emits_bindM_post [where P = "\<lambda>p. removedOffering (snd p)", OF emits_gets])
      (simp_all add: gets_def store, metis RemoveFinalizer_removed)
  show ?thesis
    unfolding removalPhase_def pluginIsReadyToBeRemoved_def dfIsReadyToBeRemoved_def
    by (intro emits_rules emits_client_get emits_deleteObj finalizer I TrueI)
qed

lemma setOwners_frame:
  "body (setOwners rs ob) = body ob" "kind_of (setOwners rs ob) = kind_of ob"
  "ObjectKeyFromObject (setOwners rs ob) = ObjectKeyFromObject ob"
  by (simp_all add: setOwners_def kind_of_def ObjectKeyFromObject_def)

section \<open>The log of an owned resource\<close>

text \<open>Every write of \<open>createOrUpdateOwned\<close> comes after the read of its object, and is the filled object.\<close>

lemma createOrUpdateOwned_write:
  assumes h: "pure_mutator k (withOwner (ownBy True r) (h r))" and k: "kind_of (field r) = k"
    and upd: "\<And>r ob. calls (upd (\<lambda>_. ob) r) = calls r"
    and w: "c \<in> set (issued (createOrUpdateOwned x field upd h) r)" "\<not> is_read c"
  obtains (create) e ob res where "c = CCreate ob res" and "IsNotFound e"
      and "withOwner (ownBy True r) (h r) (field r) = Ok ob"
      and "issued (createOrUpdateOwned x field upd h) r = [CGet k (ObjectKeyFromObject (field r)) (Inl e), c]"
  | (update) ex ob res where "c = CUpdate ob res" and "kind_of ex = k"
      and "withOwner (ownBy True r) (h r) ex = Ok ob" and "\<not> Semantic_DeepEqual ex ob"
      and "issued (createOrUpdateOwned x field upd h) r = [CGet k (ObjectKeyFromObject (field r)) (Inr ex), c]"
proof -
  have log: "issued (createOrUpdateOwned x field upd h) r =
      issued (CreateOrUpdate x (field r) (\<lambda>ob. liftOutcome (withOwner (ownBy True r) (h r) ob))) r"
    unfolding createOrUpdateOwned_def by (rule createOrUpdate_issued) (rule upd)
  show thesis
    by (cases rule: pure_mutator.CreateOrUpdate_log [OF h k, of x r]) (use w in \<open>auto simp: log intro: create update\<close>)
qed

lemma withOwner_Ok:
  "withOwner setter h ob = Ok ob' \<longleftrightarrow> (\<exists>o1. setter ob = Inr o1 \<and> h o1 = Ok ob')"
  by (simp add: withOwner_def split: sum.split)

lemma ownBy_frame:
  assumes "ownBy c r ob = Inr ob'"
  shows "body ob' = body ob" "kind_of ob' = kind_of ob" "ObjectKeyFromObject ob' = ObjectKeyFromObject ob"
proof -
  have "ob' = setOwners (OwnerReferences (meta ob')) ob" by (rule offering_owner.own_shape [OF assms])
  then show "body ob' = body ob" "kind_of ob' = kind_of ob" "ObjectKeyFromObject ob' = ObjectKeyFromObject ob"
    by (metis setOwners_frame)+
qed

lemma df_update_calls:
  "calls (onboardingValidationKeySecret_update f r) = calls r" "calls (storageCluster_update f r) = calls r"
  "calls (cephIngressNetworkPolicy_update f r) = calls r" "calls (providerAPIServerNetworkPolicy_update f r) = calls r"
  by simp_all

section \<open>Containers the operator may have\<close>

definition knownContainer :: "Container \<Rightarrow> bool" where
  "knownContainer c \<longleftrightarrow> ct_Name c \<in> fst ` set dfResourceRequirements"

lemma mapO_total:
  assumes "\<And>x. x \<in> set xs \<Longrightarrow> (\<exists>y. f x = Ok y) = P x" and "\<And>x e. x \<in> set xs \<Longrightarrow> f x \<noteq> Err e"
  shows "(\<exists>ys. mapO f xs = Ok ys) \<longleftrightarrow> list_all P xs"
  using assms
proof (induction xs)
  case (Cons x xs)
  then show ?case by (cases "f x"; cases "mapO f xs") fastforce+
qed simp

lemma setContainerResources_Ok: "(\<exists>c'. setContainerResources c = Ok c') \<longleftrightarrow> knownContainer c"
  using lookupRequirements_Ok [of dfResourceRequirements "ct_Name c"]
  by (auto simp: setContainerResources_def bindO_Ok df_GetResourceRequirements_def knownContainer_def)

lemma setContainerResources_no_error: "setContainerResources c \<noteq> Err e"
  by (auto simp: setContainerResources_def df_GetResourceRequirements_def lookupRequirements_def bindO_def
      split: option.splits outcome.splits)

lemma mapO_no_error: "(\<And>x e. f x \<noteq> Err e) \<Longrightarrow> mapO f xs \<noteq> Err e"
  using mapO_Err [of f xs e] by auto

lemma setDeploymentResources_no_error: "setDeploymentResources d \<noteq> Err e"
  using mapO_no_error [of setContainerResources, OF setContainerResources_no_error]
  by (auto simp: setDeploymentResources_def bindO_def split: outcome.splits)

lemma setDeploymentResources_Ok:
  "(\<exists>d'. setDeploymentResources d = Ok d') \<longleftrightarrow> list_all knownContainer (sd_Containers d)"
  using mapO_total [of "sd_Containers d" setContainerResources knownContainer, OF setContainerResources_Ok
      setContainerResources_no_error]
  by (auto simp: setDeploymentResources_def bindO_Ok)

definition knownContainers :: "obj \<Rightarrow> bool" where
  "knownContainers csv \<longleftrightarrow> list_all (\<lambda>d. list_all knownContainer (sd_Containers d)) (csvDeployments csv)"

lemma csv_total: "(\<exists>csv'. fillCSV csv = Ok csv') \<longleftrightarrow> knownContainers csv"
  unfolding knownContainers_def
  using mapO_total [of "csvDeployments csv" setDeploymentResources, OF setDeploymentResources_Ok
      setDeploymentResources_no_error]
  by (auto simp: fillCSV_def bindO_Ok simp del: csvDeployments.simps)


section \<open>When a run can crash\<close>

text \<open>The two answers after which the process can end.\<close>

definition appearedCRD :: "call \<Rightarrow> bool" where
  "appearedCRD c \<longleftrightarrow> (\<exists>key ob. c = CGet KCustomResourceDefinition key (Inr ob))"

definition unknownContainers :: "call \<Rightarrow> bool" where
  "unknownContainers c \<longleftrightarrow> (\<exists>k key csv. c = CGet k key (Inr csv) \<and>
\<not> knownContainers csv)"

definition endsProcess :: "call \<Rightarrow> bool" where
  "endsProcess c \<longleftrightarrow> appearedCRD c \<or> unknownContainers c"

lemma crashes_owned_at:
  assumes h: "\<And>ob msg. h r ob \<noteq> Crash msg" and crash: "fst (createOrUpdateOwned x field upd h r) = Crash msg"
  shows False
proof -
  have "withOwner (ownBy True r) (h r) o1 \<noteq> Crash m" for o1 m by (simp add: withOwner_def h split: sum.split)
  then have "crashes_if (\<lambda>_. False) (CreateOrUpdate x (field r) (\<lambda>ob. liftOutcome (withOwner (ownBy True r) (h r) ob)))"
    by (intro crashes_if_CreateOrUpdate crashes_if_liftOutcome emits_liftOutcome)
  then have "fst (CreateOrUpdate x (field r) (\<lambda>ob. liftOutcome (withOwner (ownBy True r) (h r) ob)) r) \<noteq> Crash m" for m
    by (auto simp: crashes_if_def)
  with crash show False
    by (auto simp: createOrUpdateOwned_def createOrUpdate_def gets_def bindM_step modify_def split: prod.splits outcome.splits)
qed

lemma crashes_owned: "(\<And>r ob msg. h r ob \<noteq> Crash msg) \<Longrightarrow> crashes_if B (createOrUpdateOwned x field upd h)"
  unfolding crashes_if_def using crashes_owned_at by blast

lemma crashes_requireCRD:
  "crashes_if endsProcess (requireCRD (x :: ('w, 'y) client_scheme) crds name :: (('w, 'z) offering_scheme, unit) prog)"
  unfolding requireCRD_def HandleMissingWatch_def
proof (intro crashes_if_if crashes_if_simple crashes_if_bindM_log)
  fix s :: "('w, 'z) offering_scheme" and ob
  assume "fst (client_get x KCustomResourceDefinition (name, '''') s) = Ok ob"
  then show "(\<exists>c\<in>set (issued (client_get x KCustomResourceDefinition (name, '''')) s). endsProcess c) \<or>
      crashes_if endsProcess (crash (''a watch is missing for resource type '' @ name @ '', restarting agent''))"
    by (auto simp: client_get_log endsProcess_def appearedCRD_def)
qed (auto intro: crashes_if_client emits_client_get emits_crash)

lemma fillCSV_no_crash: "knownContainers csv \<Longrightarrow> fillCSV csv \<noteq> Crash msg"
  using csv_total [of csv] by auto

text \<open>The closure that \<open>dfReconcileCSV\<close> hands to \<open>GetAndUpdate\<close>.\<close>

definition csvClosure :: "('w, 'z) offering_scheme \<Rightarrow> obj \<Rightarrow> ('s, obj) prog" where
  "csvClosure r ob =
     bindM (wrapErr ''unable to set ownerRef on ocs csv'' (liftSum (ownBy False r ob)))
       (\<lambda>ob. liftOutcome (fillCSV ob))"

lemma csvClosure_no_crash:
  assumes "knownContainers ob"
  shows "fst (csvClosure r ob s) \<noteq> Crash msg"
proof (cases "ownBy False r ob")
  case (Inr o1)
  then have "knownContainers o1" using assms by (simp add: knownContainers_def ownBy_frame)
  with Inr show ?thesis
    by (simp add: csvClosure_def liftSum_def bindM_step wrapErr_def ret_def liftOutcome_def fillCSV_no_crash)
qed (simp add: csvClosure_def liftSum_def bindM_step wrapErr_def fail_def)

lemma extends_csvClosure: "extends (csvClosure r ob)"
  unfolding csvClosure_def by (intro emits_rules)

lemma crashes_GetAndUpdate_csv:
  "crashes_if endsProcess
     (GetAndUpdate (x :: ('w, 'y) client_scheme) csv (csvClosure r) :: (('w, call, 'z) env_scheme, obj) prog)"
  unfolding GetAndUpdate_def
proof (rule crashes_if_bindM_log)
  fix s :: "('w, call, 'z) env_scheme" and ex
  let ?k = "bindM (mutate (csvClosure r) (ObjectKeyFromObject ex) ex) (\<lambda>ob'.
       if Semantic_DeepEqual ex ob' then ret ob' else client_update x ob')
       ::
      (('w, call, 'z) env_scheme, obj) prog"
  assume ok: "fst (client_get x (kind_of csv) (ObjectKeyFromObject csv) s) = Ok ex"
  show "(\<exists>c\<in>set (issued (client_get x (kind_of csv) (ObjectKeyFromObject csv)) s). endsProcess c) \<or>
      crashes_if endsProcess ?k"
  proof (cases "knownContainers ex")
    case True
    then have "crashes_if endsProcess (csvClosure r ex)" by (simp add: crashes_if_def csvClosure_no_crash)
    then have "crashes_if endsProcess ?k"
      unfolding mutate_def
      by (intro crashes_if_rules crashes_if_client extends_csvClosure emits_rules emits_client_update; simp)
    then show ?thesis ..
  next
    case False
    with ok show ?thesis by (auto simp: client_get_log endsProcess_def unknownContainers_def)
  qed
qed (unfold mutate_def, (intro crashes_if_client emits_rules emits_client_get emits_client_update
      extends_csvClosure; simp)+)

lemma dfReconcileCSV_split:
  "dfReconcileCSV x =
     bindM (wrapErr ''unable to find OCS CSV'' (offeringCSVByPrefix x ocsOperatorName)) (\<lambda>csv.
     bindM (gets (\<lambda>r. r)) (\<lambda>r.
     bindM (wrapErr ''failed to update OCS CSV'' (GetAndUpdate x csv (csvClosure r))) (\<lambda>_. ret ())))"
  unfolding dfReconcileCSV_def csvClosure_def ..

lemma extends_GetAndUpdate: "(\<And>o1. extends (f o1)) \<Longrightarrow> extends (GetAndUpdate x ob f)"
  unfolding GetAndUpdate_def mutate_def by (intro emits_rules emits_client_get emits_client_update; simp)

lemma crashes_csv:
  "crashes_if B (csvInNamespace x ns name)" "crashes_if B (offeringCSVByPrefix x name)"
  "extends (csvInNamespace x ns name)" "extends (offeringCSVByPrefix x name)"
  unfolding offeringCSVByPrefix_def csvInNamespace_def
  by (intro crashes_if_rules crashes_if_client emits_rules emits_client_list; simp)+

lemma crashes_dfReconcileCSV: "crashes_if endsProcess (dfReconcileCSV x)"
  unfolding dfReconcileCSV_split
  by (intro crashes_if_rules crashes_csv crashes_GetAndUpdate_csv extends_GetAndUpdate extends_csvClosure emits_rules)

lemma nodelete_dfReconcileCSV: "nodelete (dfReconcileCSV x)"
  unfolding dfReconcileCSV_def by (intro nodelete_rules)

lemma nodelete_rook: "nodelete (reconcileRookCephOperatorConfig x)"
  unfolding reconcileRookCephOperatorConfig_def by (intro nodelete_rules emits_modify; simp)

lemma nodelete_ocs_init: "nodelete (reconcileOCSInitialization x)"
  unfolding reconcileOCSInitialization_def by (intro nodelete_rules emits_modify; simp)

lemma crashes_deleteObj: "crashes_if B (deleteObj x k key)"
  by (simp add: crashes_if_def deleteObj_no_crash)

lemma crashes_forEach:
  "(\<And>y. crashes_if B (f y)) \<Longrightarrow> (\<And>y. extends (f y)) \<Longrightarrow> crashes_if B (forEach ys f)"
  by (induction ys) (auto intro!: crashes_if_simple crashes_if_thenM emits_forEach)

lemma disableCSI_no_crash: "disableCSI ob \<noteq> Crash msg"
  by (simp add: disableCSI_def goMapSet_def Let_def split: option.split)

lemma fills_no_crash:
  "fillBody b ob \<noteq> Crash msg" "fillStorageCluster n ob \<noteq> Crash msg" "fillStorageClient spec ob \<noteq> Crash msg"
  "fillStorageClassClaim ty r ob \<noteq> Crash msg"
  by (simp_all add: fillBody_def fillStorageCluster_eq fillStorageClient_def fillStorageClassClaim_def)

lemma crashes_labelAll: "crashes_if B (labelAll x k ns msg)"
  unfolding labelAll_def
  by (intro crashes_if_rules crashes_if_client crashes_forEach emits_rules emits_client_list emits_client_update; simp)

lemma crashes_ocs_init: "crashes_if B (reconcileOCSInitialization x)"
  unfolding reconcileOCSInitialization_def GetAndUpdate_def mutate_def
  by (intro crashes_if_rules crashes_if_client emits_rules emits_client_get emits_client_update emits_modify; simp)

lemma crashes_rook: "crashes_if B (reconcileRookCephOperatorConfig x)"
  unfolding reconcileRookCephOperatorConfig_def
  by (intro crashes_if_rules crashes_if_client crashes_if_liftOutcome disableCSI_no_crash emits_rules emits_client_get
      emits_client_update emits_modify; simp)

lemma crashes_dfInstall: "crashes_if endsProcess (dfInstall x)"
  unfolding dfInstall_def reconcileOnboardingValidationSecret_def reconcileStorageCluster_def
    reconcileMonitoringResources_def reconcileCephIngressNetworkPolicy_def reconcileProviderAPIServerNetworkPolicy_def
  by (intro crashes_if_rules crashes_owned crashes_labelAll crashes_dfReconcileCSV crashes_ocs_init crashes_rook
      fills_no_crash emits_rules emits_extends [OF nodelete_owned] emits_extends [OF nodelete_labelAll]
      emits_extends [OF nodelete_dfReconcileCSV] emits_extends [OF nodelete_rook] emits_extends [OF nodelete_ocs_init]; simp)

lemma crashes_dfcInstall: "crashes_if B (dfcInstall x)"
  unfolding dfcInstall_def dfcReconcileCSV_def reconcileStorageClient_def reconcileDefaultBlockStorageClassClaim_def
    reconcileDefaultFSStorageClassClaim_def reconcileStorageClassClaim_def reconcileCSIKMSConnectionDetailsConfigMap_def
  by (intro crashes_if_rules crashes_csv crashes_if_client crashes_owned crashes_if_createOrUpdate crashes_if_liftOutcome
      fills_no_crash emits_rules emits_extends [OF nodelete_owned] emits_client_update extends_createOrUpdate
      emits_liftOutcome; simp)

lemma crashes_dfUninstall: "crashes_if B (dfUninstall x)"
  unfolding dfUninstall_split consumersCheck_def
  by (intro crashes_if_rules crashes_if_client crashes_deleteObj emits_rules emits_client_get emits_client_list
      emits_deleteObj emits_modify; simp)

lemma crashes_phases:
  "crashes_if endsProcess (dfReconcilePhases x)" "crashes_if endsProcess (dfcReconcilePhases x)"
  unfolding dfReconcilePhases_def dfcReconcilePhases_def
  by (intro crashes_if_rules crashes_requireCRD crashes_dfInstall crashes_dfcInstall crashes_dfUninstall emits_rules
      emits_extends [OF nodelete_requireCRD] emits_extends [OF nodelete_dfInstall]
      emits_extends [OF nodelete_dfcInstall] emits_weaken [OF emits_dfUninstall]; simp)+

lemma crashes_if_embedded:
  assumes "crashes_if B m" and "\<And>s. calls (enter s) = calls s" and "\<And>t. calls (leave t) = calls t"
  shows "crashes_if B (embedded enter leave m)"
  using assms(1) unfolding crashes_if_def issued_embedded [OF assms(2,3)] by (simp add: embedded_def split_beta)

lemma crashes_plugins:
  "crashes_if endsProcess (dfReconcile x off dspec)" "crashes_if endsProcess (dfcReconcile x off cspec)"
  unfolding dfReconcile_def dfcReconcile_def
  by (intro crashes_if_embedded crashes_phases; simp)+

section \<open>Crashes of a run\<close>

text \<open>
  \<open>crash_at B m s\<close>: if \<open>m\<close> crashes from \<open>s\<close>, it has issued a call that satisfies \<open>B\<close>.
\<close>

definition crash_at :: "('c \<Rightarrow> bool) \<Rightarrow> (('w, 'c, 'z) env_scheme, 'a) prog \<Rightarrow> ('w, 'c, 'z) env_scheme \<Rightarrow> bool" where
  "crash_at B m s \<longleftrightarrow> (\<forall>msg. fst (m s) = Crash msg \<longrightarrow> (\<exists>c\<in>set (issued m s). B c))"

lemma crashes_if_at: "crashes_if B m \<Longrightarrow> crash_at B m s"
  by (auto simp: crashes_if_def crash_at_def)

lemma crash_at_wrapErr: "crash_at B m s \<Longrightarrow> crash_at B (wrapErr msg m) s"
  by (simp add: crash_at_def)

lemma crash_at_thenM:
  assumes m: "crash_at B m s" and k: "\<And>a. fst (m s) = Ok a \<Longrightarrow> crash_at B k (snd (m s))"
    and ext: "extends m" "extends k"
  shows "crash_at B (thenM m k) s"
proof (cases "m s")
  case (Pair r s1)
  have log: "issued (thenM m k) s = issued m s @ (case r of Ok a \<Rightarrow> issued k s1 | _ \<Rightarrow> [])"
    using issued_thenM [OF ext, of s] Pair by (cases r) simp_all
  show ?thesis
    using m k Pair by (cases r) (auto simp: crash_at_def log thenM_step)
qed

text \<open>What admission keeps of an offering: its kind is one of the two.\<close>

definition knownKind :: "obj \<Rightarrow> bool" where
  "knownKind off \<longleftrightarrow> mfo_Kind (offeringSpecOf off) \<in> {KindDataFoundation, KindDataFoundationClient}"

lemma fillSubscription_no_crash: "knownKind (managedFusionOffering r) \<Longrightarrow> fillSubscription r ob \<noteq> Crash msg"
  by (auto simp: knownKind_def fillSubscription_def pluginGetDesiredSubscriptionSpec_def Let_def split: option.split)

lemma crash_subscription:
  "knownKind (managedFusionOffering s) \<Longrightarrow> crash_at B (reconcileSubscription x) s"
  unfolding reconcileSubscription_def crash_at_def fst_wrapErr
  using crashes_owned_at [where h = fillSubscription, OF fillSubscription_no_crash] by blast

lemma crash_operatorResources:
  assumes "knownKind (managedFusionOffering s)"
  shows "crash_at B (operatorResources x) s"
  unfolding operatorResources_def
proof (intro crash_at_thenM)
  show "crash_at B (reconcileOperatorGroup x) s" "crash_at B (reconcileCatalogSource x) s1" for s1
    unfolding reconcileOperatorGroup_def reconcileCatalogSource_def
    by (intro crashes_if_at crashes_if_wrapErr crashes_owned fills_no_crash)+
  have frame: "emits (\<lambda>s. managedFusionOffering s = off) (\<lambda>_. True) (reconcileOperatorGroup x)"
    "emits (\<lambda>s. managedFusionOffering s = off) (\<lambda>_. True) (reconcileCatalogSource x)" for off
    unfolding reconcileOperatorGroup_def reconcileCatalogSource_def
    by (intro emits_rules frame_owned; simp add: env_stable_def)+
  have "managedFusionOffering (snd (reconcileCatalogSource x (snd (reconcileOperatorGroup x s)))) = managedFusionOffering s"
    using emits_inv [OF frame(1)] emits_inv [OF frame(2)] by blast
  then show "crash_at B (reconcileSubscription x) (snd (reconcileCatalogSource x (snd (reconcileOperatorGroup x s))))"
    using assms by (intro crash_subscription) simp
qed (unfold reconcileOperatorGroup_def reconcileCatalogSource_def reconcileSubscription_def,
    (intro emits_rules emits_extends [OF nodelete_owned]; simp)+)

lemma crash_pluginPhase: "crash_at endsProcess (pluginPhase x) s"
proof -
  let ?r = "\<lambda>spec. pluginReconcile x (managedFusionOffering s) spec"
  obtain spec err where yaml: "unmarshalOfferingSpec x (mfo_Config (offeringSpecOf (managedFusionOffering s)))
      (pluginGetDesiredOfferingSpec s) = (spec, err)"
    by (cases "unmarshalOfferingSpec x (mfo_Config (offeringSpecOf (managedFusionOffering s)))
      (pluginGetDesiredOfferingSpec s)")
  have "crashes_if endsProcess (?r spec)"
    using yaml crashes_plugins
    by (auto simp: pluginReconcile_def Let_def pluginGetDesiredOfferingSpec_def KindDataFoundation_def
        KindDataFoundationClient_def apfst_def map_prod_def crashes_if_simple simp del: offeringSpecOf.simps split: prod.splits if_splits)
  then have c: "crash_at endsProcess (wrapErr ''an error was encountered during reconcile'' (?r spec)) s"
    by (intro crash_at_wrapErr crashes_if_at)
  have "pluginPhase x s = (case err of
        Some e \<Rightarrow> fail (Errorf ''invalid yaml found in ManagedFusionOffering config'' e)
      | None \<Rightarrow> wrapErr ''an error was encountered during reconcile'' (?r spec)) s"
    using yaml by (simp add: pluginPhase_def gets_def bindM_step)
  then have "crash_at endsProcess (pluginPhase x) s = crash_at endsProcess (case err of
        Some e \<Rightarrow> fail (Errorf ''invalid yaml found in ManagedFusionOffering config'' e)
      | None \<Rightarrow> wrapErr ''an error was encountered during reconcile'' (?r spec)) s"
    by (simp add: crash_at_def issued_def)
  with c show ?thesis by (cases err) (simp_all add: crash_at_def fail_def)
qed

lemma crashes_removalPhase: "crashes_if B (removalPhase x)"
  unfolding removalPhase_def pluginIsReadyToBeRemoved_def dfIsReadyToBeRemoved_def removeOfferingFinalizer_def
    storeOffering_def
  by (intro crashes_if_rules crashes_if_client crashes_deleteObj emits_rules emits_client_get emits_client_update
      emits_deleteObj emits_modify; simp)

lemma crashes_offeringFinalizerPhase: "crashes_if B (offeringFinalizerPhase x)"
  unfolding offeringFinalizerPhase_def storeOffering_def
  by (intro crashes_if_rules crashes_if_client emits_rules emits_client_update emits_modify; simp)

text \<open>The finalizer's update keeps the kind.\<close>

lemma offeringFinalizerPhase_known:
  assumes keeps: "\<And>ob w ob'. fst (api_Update x ob w) = Inr ob' \<Longrightarrow> body ob' = body ob"
  shows "emits (\<lambda>s. knownKind (managedFusionOffering s)) (\<lambda>_. True) (offeringFinalizerPhase x)"
proof -
  let ?I = "\<lambda>s. knownKind (managedFusionOffering s)"
  have I: "env_stable ?I" by (simp add: env_stable_def)
  have up: "yields knownKind (client_update x off)" if "knownKind off" for off
    using that keeps [of off] by (intro client_update_yields) (simp add: decodeAs_body knownKind_def)
  have store: "emits ?I (\<lambda>_. True) (storeOffering x msg p)" if "knownKind (snd p)" for msg p
  proof (cases p)
    case (Pair changed off)
    have "emits ?I (\<lambda>_. True) (bindM (wrapErr msg (client_update x off)) (\<lambda>off'. modify (managedFusionOffering_update (\<lambda>_. off'))))"
      by (rule emits_bindM_yields [OF emits_wrapErr [OF emits_client_update [OF I TrueI]]
            yields_wrapErr [OF up]])
        (use that Pair in \<open>auto intro!: emits_modify\<close>)
    with Pair show ?thesis by (auto simp: storeOffering_def intro: emits_ret)
  qed
  have "knownKind (snd (AddFinalizer off f)) = knownKind off" for off f
    by (simp add: knownKind_def AddFinalizer_def)
  then show ?thesis
    unfolding offeringFinalizerPhase_def
    by (intro emits_bindM_post [where P = "\<lambda>p. knownKind (snd p)", OF emits_gets])
      (simp_all add: gets_def store, metis)
qed

lemma crash_operatorPhase:
  assumes known: "knownKind (managedFusionOffering s)"
    and keeps: "\<And>ob w ob'. fst (api_Update x ob w) = Inr ob' \<Longrightarrow> body ob' = body ob"
  shows "crash_at B (operatorPhase x) s"
  unfolding operatorPhase_split
proof (rule crash_at_thenM [OF crashes_if_at [OF crashes_offeringFinalizerPhase] _
      extends_offeringFinalizerPhase extends_operatorResources])
  fix a assume ok: "fst (offeringFinalizerPhase x s) = Ok a"
  have ok': "fst (offeringFinalizerPhase x s) = Ok ()" using ok by simp
  have "knownKind (managedFusionOffering (snd (offeringFinalizerPhase x s)))"
    by (rule emits_inv [OF offeringFinalizerPhase_known known]) (rule keeps)
  then show "crash_at B (operatorResources x) (snd (offeringFinalizerPhase x s))"
    by (rule crash_operatorResources)
qed

end
