(* ===== verification/Offering_Props.thy ===== *)
theory Offering_Props
  imports Mem_Offering Offering_Outcomes
begin

text \<open>
  Properties of the offering's reconciler.
\<close>

section \<open>Removal of an offering\<close>

lemma offeringReconcile_namespace:
  assumes "CDelete KNamespace key res \<in> set (issued (offeringReconcile x ns n) r)"
  shows "\<exists>off e rest. issued (offeringReconcile x ns n) r =
      CGet KManagedFusionOffering (n, ns) (Inr off) #
      CGet KStorageCluster (storageClusterName, Namespace (meta off)) (Inl e) # rest \<and>
    IsNotFound e \<and> \<not> IsZero (DeletionTimestamp (meta off)) \<and> key = (ns, '''')"
proof (cases rule: offeringReconcile_issued [of x ns n r])
  case stop
  with assms show ?thesis by simp
next
  case run: (phases off s)
  let ?del = "CDelete KNamespace key res"
  have in_phases: "?del \<in> set (issued (offeringPhases x) s)" using assms run(8) by simp
  have plugin: "?del \<notin> set (issued (pluginPhase x) t)" for t
    by (auto dest!: emits_issued [OF emits_pluginPhase TrueI])
  have operator: "?del \<notin> set (issued (operatorPhase x) t)" for t
    by (auto dest!: emits_issued [OF nodelete_operatorPhase TrueI])
  have del: "\<not> IsZero (DeletionTimestamp (meta off))" and removal: "?del \<in> set (issued (removalPhase x) s)"
    using in_phases run(1) plugin operator
    by (auto simp: offeringPhases_issued Let_def split: if_splits outcome.splits)
  obtain rest where rest: "issued (removalPhase x) s = CGet KStorageCluster
       (storageClusterName, Namespace (meta off)) (clusterAnswer x s) # rest"
    "rest \<noteq> [] \<Longrightarrow> \<exists>e. clusterAnswer x s = Inl e \<and> IsNotFound e"
    "list_all (removalCall ns) rest"
    using removalPhase_issued [of x s] run(1,2) by metis
  then have in_rest: "?del \<in> set rest" using removal by simp
  then have "removalCall ns ?del" "rest \<noteq> []" using rest(3) by (auto simp: list_all_iff)
  then obtain e where "clusterAnswer x s = Inl e" "IsNotFound e" "key = (ns, '''')"
    using rest(2) by (auto simp: removalCall_def)
  with run(1,8) del rest(1) show ?thesis by (auto simp: offeringPhases_issued Let_def)
qed

text \<open>
  C15: a run of the offering's reconciler deletes the offering's namespace only when the
  offering it has read is terminating and the very next call, the look at the storage
  cluster, was answered with not-found.
\<close>

theorem offering_namespace_deleted_last:
  assumes "CDelete KNamespace key res \<in> set (issued (offeringReconcile x ns n) r)"
  shows "\<exists>off e rest. issued (offeringReconcile x ns n) r =
      CGet KManagedFusionOffering (n, ns) (Inr off) #
      CGet KStorageCluster (storageClusterName, Namespace (meta off)) (Inl e) # rest \<and>
    IsNotFound e \<and> \<not> IsZero (DeletionTimestamp (meta off)) \<and> key = (ns, '''')"
  using assms by (rule offeringReconcile_namespace)

lemma offering_namespace_deleted_last_witness:
  "\<exists>off e rest key. offeringRun sampleOfferingHost clusterGone =
      CGet KManagedFusionOffering (''off'', ''ns'') (Inr off) #
      CGet KStorageCluster (storageClusterName, Namespace (meta off)) (Inl e) # rest \<and>
    IsNotFound e \<and> \<not> IsZero (DeletionTimestamp (meta off)) \<and> key = (''ns'', '''')"
proof -
  obtain key res where "CDelete KNamespace key res \<in> set (offeringRun sampleOfferingHost clusterGone)"
    by (rule deletesKindE [OF removed_run])
  from offering_namespace_deleted_last [OF this] show ?thesis by blast
qed


text \<open>
  C16: a run deletes the storage cluster only after the server has told it that the offering is
  terminating, that exactly this storage cluster is in phase Ready, and that there is not a
  single storage consumer, in calls that come before the delete.
\<close>

theorem storage_cluster_deleted_safely:
  assumes "issued (offeringReconcile x ns n) r = pre @ CDelete KStorageCluster key res # post"
  shows "\<exists>k sc off c. CGet KStorageCluster k (Inr sc) \<in> set pre \<and>
    storageClusterPhase sc = ''Ready'' \<and> ObjectKeyFromObject sc = key \<and>
    CList KStorageConsumer None (Some 1) (Inr []) \<in> set pre \<and>
    c \<in> set pre \<and> answersOffering off c \<and> \<not> IsZero (DeletionTimestamp (meta off))"
proof -
  have guards: "\<exists>g\<in>set pre. clusterReady key g" "\<exists>g\<in>set pre. noConsumers g" "\<exists>g\<in>set pre. terminatingOffering g"
    using guarded_before [OF guarded_offeringReconcile [OF dfUninstall_ready] assms]
      guarded_before [OF guarded_offeringReconcile [OF dfUninstall_consumers] assms]
      guarded_before [OF offeringReconcile_terminating assms] by simp_all
  then show ?thesis
    unfolding clusterReady_def noConsumers_def terminatingOffering_def by blast
qed


lemma storage_cluster_deleted_safely_witness:
  "\<exists>pre key res post k sc off c.
    offeringRun sampleOfferingHost clusterLeft = pre @ CDelete KStorageCluster key res # post \<and>
    CGet KStorageCluster k (Inr sc) \<in> set pre \<and> storageClusterPhase sc = ''Ready'' \<and>
    ObjectKeyFromObject sc = key \<and> CList KStorageConsumer None (Some 1) (Inr []) \<in> set pre \<and>
    c \<in> set pre \<and> answersOffering off c \<and> \<not> IsZero (DeletionTimestamp (meta off))"
proof -
  obtain key res where "CDelete KStorageCluster key res \<in> set (offeringRun sampleOfferingHost clusterLeft)"
    by (rule deletesKindE [OF cluster_run])
  then obtain pre post where run:
    "offeringRun sampleOfferingHost clusterLeft = pre @ CDelete KStorageCluster key res # post"
    by (blast dest: split_list)
  from storage_cluster_deleted_safely [OF this] run show ?thesis by blast
qed


section \<open>What is created\<close>

lemma creates_pluginPhase: "emits (\<lambda>_. True) (creates_in (dfCreates \<union> dfcCreates)) (pluginPhase x)"
proof -
  have "emits (\<lambda>_. True) (creates_in (dfCreates \<union> dfcCreates)) (pluginReconcile x off spec)" for off spec
    unfolding pluginReconcile_def Let_def
    by (intro emits_if)
      (auto intro!: emits_ret emits_crash emits_weaken [OF kinded_plugins(1)] emits_weaken [OF kinded_plugins(2)]
          elim: creates_in_mono split: offeringSpec.split)
  then show ?thesis unfolding pluginPhase_def by (intro emits_rules)
qed

lemma creates_removalPhase: "emits (\<lambda>_. True) (creates_in {}) (removalPhase x)"
  unfolding removalPhase_def pluginIsReadyToBeRemoved_def dfIsReadyToBeRemoved_def removeOfferingFinalizer_def
    storeOffering_def
  by (intro kinded_rules emits_modify; simp)

lemma creates_offeringFinalizerPhase: "emits (\<lambda>_. True) (creates_in {}) (offeringFinalizerPhase x)"
  unfolding offeringFinalizerPhase_def storeOffering_def by (intro kinded_rules emits_modify; simp)

lemma offeringFinalizerPhase_kinds: "emits operatorKinds (\<lambda>_. True) (offeringFinalizerPhase x)"
  unfolding offeringFinalizerPhase_def storeOffering_def
  by (intro emits_rules emits_client_update emits_modify; simp add: operatorKinds_def)

lemma operatorPhase_creates:
  assumes kinds: "operatorKinds s" and c: "CCreate ob res \<in> set (issued (operatorPhase x) s)"
  shows "kind_of ob \<in> operatorCreates \<and>
    (managedFusionFinalizer \<in> set (Finalizers (meta (managedFusionOffering s))) \<or>
     (\<exists>off' ans later. issued (operatorPhase x) s = CUpdate off' (Inr ans) # later \<and>
        managedFusionFinalizer \<in> set (Finalizers (meta off'))))"
proof -
  let ?f = "offeringFinalizerPhase x" and ?r = "operatorResources x"
  have log: "issued (operatorPhase x) s =
      issued ?f s @ (case fst (?f s) of Ok _ \<Rightarrow> issued ?r (snd (?f s)) | _ \<Rightarrow> [])"
    unfolding operatorPhase_split
    by (rule issued_thenM [OF extends_offeringFinalizerPhase extends_operatorResources])
  have "CCreate ob res \<notin> set (issued ?f s)"
    using emits_issued [OF creates_offeringFinalizerPhase TrueI, of "CCreate ob res" x s] by auto
  with c log have ok: "fst (?f s) = Ok ()" and in_r: "CCreate ob res \<in> set (issued ?r (snd (?f s)))"
    by (auto split: outcome.splits)
  have "creates_in operatorCreates (CCreate ob res)"
    by (rule emits_issued [OF kinded_operatorResources emits_inv [OF offeringFinalizerPhase_kinds kinds] in_r])
  with offeringFinalizerPhase_run [OF ok] log ok show ?thesis by auto
qed

text \<open>
  C17: the operator group, the catalog source and the subscription of an offering are created only
  for a stored offering that is not terminating and that carries the agent's finalizer: it had
  the finalizer when it was read, or the next call of the run wrote it and was accepted.
\<close>

theorem operator_installed_after_finalizer:
  assumes c: "CCreate ob res \<in> set (issued (offeringReconcile x ns n) r)"
    and k: "kind_of ob \<in> {KOperatorGroup, KCatalogSource, KSubscription}"
  shows "\<exists>off rest. issued (offeringReconcile x ns n) r = CGet KManagedFusionOffering (n, ns) (Inr off) # rest \<and>
    IsZero (DeletionTimestamp (meta off)) \<and> UID (meta off) \<noteq> '''' \<and>
    (managedFusionFinalizer \<in> set (Finalizers (meta off)) \<or>
     (\<exists>off' ans later. rest = CUpdate off' (Inr ans) # later \<and>
        managedFusionFinalizer \<in> set (Finalizers (meta off'))))"
proof (cases rule: offeringReconcile_issued [of x ns n r])
  case stop
  with c show ?thesis by simp
next
  case run: (phases off s)
  have in_phases: "CCreate ob res \<in> set (issued (offeringPhases x) s)" using c run(8) by simp
  have plugin: "CCreate ob res \<notin> set (issued (pluginPhase x) t)" for t
    using emits_issued [OF creates_pluginPhase TrueI, of "CCreate ob res" x t] k
    by (auto simp: dfCreates_def dfcCreates_def)
  have removal: "CCreate ob res \<notin> set (issued (removalPhase x) s)"
    using emits_issued [OF creates_removalPhase TrueI, of "CCreate ob res" x s] by auto
  have live: "IsZero (DeletionTimestamp (meta off))" "UID (meta off) \<noteq> ''''"
    and op: "CCreate ob res \<in> set (issued (operatorPhase x) s)"
    using in_phases run(1) plugin removal
    by (auto simp: offeringPhases_issued Let_def split: if_splits outcome.splits)
  obtain more where "issued (offeringPhases x) s = issued (operatorPhase x) s @ more"
    using live run(1) by (simp add: offeringPhases_issued Let_def)
  with operatorPhase_creates [OF run(9) op] run live show ?thesis by auto
qed

lemma operator_installed_after_finalizer_witness:
  "\<exists>off rest. offeringRun offeringRefusingHost newOffering =
      CGet KManagedFusionOffering (''off'', ''ns'') (Inr off) # rest \<and>
    IsZero (DeletionTimestamp (meta off)) \<and> UID (meta off) \<noteq> '''' \<and>
    (managedFusionFinalizer \<in> set (Finalizers (meta off)) \<or>
     (\<exists>off' ans later. rest = CUpdate off' (Inr ans) # later \<and>
        managedFusionFinalizer \<in> set (Finalizers (meta off'))))"
proof -
  obtain ob res where run: "CCreate ob res \<in> set (offeringRun offeringRefusingHost newOffering)"
    and "kind_of ob = KOperatorGroup"
    by (rule createsKindE [OF operator_run])
  then have "kind_of ob \<in> {KOperatorGroup, KCatalogSource, KSubscription}" by simp
  from operator_installed_after_finalizer [OF run this] show ?thesis .
qed

text \<open>
  C18: a run of the offering's reconciler creates objects of nine kinds only: those of the operator
  lifecycle manager and of the two plugins. In particular it never creates a namespace, a
  cluster service version or a custom resource definition.
\<close>

theorem offering_creates_kinds:
  assumes c: "CCreate ob res \<in> set (issued (offeringReconcile x ns n) r)"
  shows "kind_of ob \<in> {KOperatorGroup, KCatalogSource, KSubscription, KSecret, KStorageCluster, KNetworkPolicy,
    KStorageClient, KStorageClassClaim, KConfigMap}"
proof (cases rule: offeringReconcile_issued [of x ns n r])
  case stop
  with c show ?thesis by simp
next
  case run: (phases off s)
  have "creates_in (dfCreates \<union> dfcCreates) (CCreate ob res)" if "CCreate ob res \<in> set (issued (pluginPhase x) t)" for t
    using that by (rule emits_issued [OF creates_pluginPhase TrueI])
  moreover have "kind_of ob \<in> operatorCreates" if "CCreate ob res \<in> set (issued (operatorPhase x) s)"
    using operatorPhase_creates [OF run(9) that] by simp
  moreover have "CCreate ob res \<notin> set (issued (removalPhase x) s)"
    using emits_issued [OF creates_removalPhase TrueI, of "CCreate ob res" x s] by auto
  moreover have "CCreate ob res \<in> set (issued (offeringPhases x) s)" using c run(8) by simp
  ultimately show ?thesis
    using run(1) by (auto simp: offeringPhases_issued Let_def operatorCreates_def dfCreates_def dfcCreates_def
        split: if_splits outcome.splits)
qed

lemma offering_creates_kinds_witness:
  "\<exists>ob res. CCreate ob res \<in> set (offeringRun offeringRefusingHost newOffering) \<and>
    kind_of ob \<in> {KOperatorGroup, KCatalogSource, KSubscription, KSecret, KStorageCluster, KNetworkPolicy,
      KStorageClient, KStorageClassClaim, KConfigMap}"
proof -
  obtain ob res where run: "CCreate ob res \<in> set (offeringRun offeringRefusingHost newOffering)"
    by (rule createsKindE [OF operator_run])
  from offering_creates_kinds [OF this] run show ?thesis by blast
qed



text \<open>
  C25: what can end the process. When the server only hands out offerings of the two kinds (its
  admission checks the kind) and its answers to updates keep the contents, a run of the offering's reconciler
  crashes only after it has read a custom resource definition that was missing when the
  process started, which is the restart the code wants, or after it has read a cluster service version
  with a container that is not in the table of resources.
\<close>

theorem offering_crashes_only_after:
  assumes known: "\<And>key w ob. fst (api_Get x KManagedFusionOffering key w) = Inr ob \<Longrightarrow> knownKind ob"
    and keeps: "\<And>ob w ob'. fst (api_Update x ob w) = Inr ob' \<Longrightarrow> body ob' = body ob"
    and crash: "fst (offeringReconcile x ns n r) = Crash msg"
  shows "\<exists>c\<in>set (issued (offeringReconcile x ns n) r). appearedCRD c \<or> unknownContainers c"
proof (cases rule: offeringReconcile_issued [of x ns n r])
  case (stop e)
  with crash show ?thesis by (simp split: if_splits)
next
  case run: (phases off s)
  obtain ob where ob: "fst (api_Get x KManagedFusionOffering (n, ns) (world r)) = Inr ob"
    "off = decodeAs KManagedFusionOffering ob"
    using run(5) by (cases "fst (api_Get x KManagedFusionOffering (n, ns) (world r))") auto
  from known [OF ob(1)] have "kind_of ob = KManagedFusionOffering"
    by (cases "body ob") (auto simp: knownKind_def kind_of_def KindDataFoundation_def KindDataFoundationClient_def)
  with ob known [OF ob(1)] run(1) have kind: "knownKind (managedFusionOffering s)" by (simp add: decodeAs_def)
  let ?first = "if \<not> IsZero (DeletionTimestamp (meta off)) then removalPhase x
                else if UID (meta off) \<noteq> '''' then operatorPhase x else ret ()"
  have "crash_at endsProcess (operatorPhase x) s" by (rule crash_operatorPhase [OF kind]) (rule keeps)
  then have first: "crash_at endsProcess ?first s"
    by (simp add: crashes_if_at [OF crashes_removalPhase] crashes_if_at [OF crashes_if_simple(1)])
  have ext: "extends ?first"
    by (intro emits_if extends_removalPhase extends_operatorPhase emits_ret)
  have "crash_at endsProcess (thenM ?first (pluginPhase x)) s"
    by (rule crash_at_thenM [OF first crash_pluginPhase ext extends_pluginPhase])
  moreover have "offeringPhases x s = thenM ?first (pluginPhase x) s"
    using run(1) by (simp add: offeringPhases_def gets_def bindM_step)
  then have "issued (offeringPhases x) s = issued (thenM ?first (pluginPhase x)) s"
    and "fst (offeringPhases x s) = fst (thenM ?first (pluginPhase x) s)" by (simp_all add: issued_def)
  moreover have "fst (offeringPhases x s) = Crash msg" using crash run(7) by simp
  ultimately obtain c where "c \<in> set (issued (offeringPhases x) s)" "endsProcess c"
    unfolding crash_at_def by metis
  with run(8) show ?thesis by (auto simp: endsProcess_def)
qed

lemma offering_crashes_only_after_witness:
  "\<exists>c\<in>set (issued (offeringReconcile restartHost ''ns'' ''off'') clusterGone). appearedCRD c \<or> unknownContainers c"
proof -
  obtain msg where crash: "fst (offeringReconcile restartHost ''ns'' ''off'' clusterGone) = Crash msg"
    using restart_run by blast
  show ?thesis
  proof (rule offering_crashes_only_after [OF _ _ crash])
    show "knownKind ob" if "fst (api_Get restartHost KManagedFusionOffering key w) = Inr ob" for key w ob
      using that by (auto simp: restartHost_def knownKind_def sampleOffering_def split: if_splits)
    show "body ob' = body ob" if "fst (api_Update restartHost ob w) = Inr ob'" for ob w ob'
      using that by (simp add: restartHost_def sampleOfferingHost_def mem_Update_def split: if_splits)
  qed
qed

end
