(* ===== verification/AWS_Gather.thy ===== *)
theory AWS_Gather
  imports Controllers "HOL-Library.Word"
begin

text \<open>
  The process that reads the address ranges of the VPC from the metadata service and saves them in a
  config map, \<open>cmd/awsDataGather/main.go\<close>: its start, one round of its loop, any number of rounds.
\<close>

section \<open>Saving the data\<close>

text \<open>The closure of \<open>CreateOrUpdate\<close>: the deployment becomes the only owner.\<close>

definition deploymentOwner :: "obj \<Rightarrow> OwnerReference" where
  "deploymentOwner deployment =
     \<lparr>or_APIVersion = ''apps/v1'', or_Kind = ''Deployment'', or_Name = Name (meta deployment),
      or_UID = UID (meta deployment), or_Controller = None, or_BlockOwnerDeletion = None\<rparr>"

definition fillDataConfigMap :: "obj \<Rightarrow> string \<Rightarrow> obj \<Rightarrow> obj outcome" where
  [prog_unfold]: "fillDataConfigMap deployment cidr ob =
     Ok (setBody (ConfigMap (Some (fmupd CIDRKey cidr fmempty)))
           (setOwners [deploymentOwner deployment] ob))"

definition gatherAndSaveData ::
  "('w, 'y) host_scheme \<Rightarrow> string \<Rightarrow> obj \<Rightarrow> (('w, call, 'z) env_scheme, unit) prog" where
  [prog_unfold]: "gatherAndSaveData x imdsServer deployment =
     bindM (wrapErr ''Failed to get VPC IPv4 CIDR'' (IMDSFetchIPv4CIDR x imdsServer)) (\<lambda>cidr.
     bindM (wrapErr ''Failed to create configmap''
              (CreateOrUpdate x (named KConfigMap IMDSConfigMapName (Namespace (meta deployment)))
                 (\<lambda>ob. liftOutcome (fillDataConfigMap deployment cidr ob)))) (\<lambda>_.
     ret ()))"

section \<open>The loop\<close>

text \<open>A \<open>time.Duration\<close> is a signed 64-bit integer.\<close>

type_synonym duration = "64 word"

definition maxSleep :: duration where
  [const_defs]: "maxSleep = 300"

definition timeSecond :: duration where
  [const_defs]: "timeSecond = 1000000000"

text \<open>One round of the loop: it returns the next value of \<open>backoff\<close>.\<close>

definition nextBackoff :: "duration \<Rightarrow> duration" where
  "nextBackoff backoff = (let b = 2 * backoff in if maxSleep <s b then maxSleep else b)"

definition gatherRound ::
  "('w, 'y) host_scheme \<Rightarrow> obj \<Rightarrow> duration \<Rightarrow> (('w, call, 'z) env_scheme, duration) prog" where
  "gatherRound x deployment backoff =
     bindM (tryM (gatherAndSaveData x IMDSv1Server deployment)) (\<lambda>r.
       case r of
         Inr _ \<Rightarrow> thenM (host_sleep x (sint (maxSleep * timeSecond))) (ret 1)
       | Inl err \<Rightarrow> thenM (host_sleep x (sint (backoff * timeSecond))) (ret (nextBackoff backoff)))"

text \<open>The loop has no exit; \<open>gatherRounds n\<close> is its first \<open>n\<close> rounds.\<close>

primrec gatherRounds ::
  "nat \<Rightarrow> ('w, 'y) host_scheme \<Rightarrow> obj \<Rightarrow> duration \<Rightarrow> (('w, call, 'z) env_scheme, duration) prog" where
  "gatherRounds 0 x deployment backoff = ret backoff"
| "gatherRounds (Suc n) x deployment backoff =
     bindM (gatherRound x deployment backoff) (gatherRounds n x deployment)"

section \<open>Start of the process\<close>

text \<open>\<open>os.Exit(1)\<close> is a crash: the process ends.\<close>

definition gatherStart ::
  "('w, 'y) host_scheme \<Rightarrow> (string \<Rightarrow> string option) \<Rightarrow> (('w, call, 'z) env_scheme, obj) prog" where
  "gatherStart x LookupEnv =
     (case LookupEnv ''NAMESPACE'' of
        None \<Rightarrow> crash ''NAMESPACE environment variable not found''
      | Some ns \<Rightarrow>
     (case LookupEnv ''POD_NAME'' of
        None \<Rightarrow> crash ''POD_NAME environment variable not found''
      | Some podName \<Rightarrow>
     (case DeploymentNameFromPodName podName of
        Inl err \<Rightarrow> crash ''Could not determine deployment name from pod name''
      | Inr deploymentName \<Rightarrow>
     bindM (tryM (client_get x KDeployment (deploymentName, ns))) (\<lambda>got.
       case got of
         Inl err \<Rightarrow> crash ''Failed to find deployment''
       | Inr deployment \<Rightarrow> ret deployment))))"

definition gatherMain ::
  "nat \<Rightarrow> ('w, 'y) host_scheme \<Rightarrow> (string \<Rightarrow> string option) \<Rightarrow> (('w, call, 'z) env_scheme, duration) prog" where
  "gatherMain n x LookupEnv =
     bindM (gatherStart x LookupEnv) (\<lambda>deployment. gatherRounds n x deployment 1)"

section \<open>The closure meets the contract\<close>

interpretation data_config_map: pure_mutator KConfigMap "fillDataConfigMap deployment cidr" for deployment cidr
  by unfold_locales
    (auto simp: fillDataConfigMap_def kind_of_def ObjectKeyFromObject_def stamp_def setOwners_def setBody_def)

section \<open>Back-off\<close>

text \<open>The value of \<open>backoff\<close> after \<open>k\<close> failures, as a number.\<close>

definition backoffOf :: "nat \<Rightarrow> duration" where
  "backoffOf k = word_of_int (min (2 ^ k) 300)"

lemma sint_small:
  "- (2 ^ 63) \<le> n \<Longrightarrow> n < 2 ^ 63 \<Longrightarrow> sint (word_of_int n :: 64 word) = n"
  by (simp add: sint_sbintrunc' signed_take_bit_int_eq_self)

lemma nextBackoff_value:
  assumes "0 \<le> b" and "b \<le> 300"
  shows "nextBackoff (word_of_int b) = word_of_int (min (2 * b) 300)"
proof -
  have "2 * (word_of_int b :: duration) = word_of_int (2 * b)" by simp
  moreover have "sint (word_of_int (2 * b) :: duration) = 2 * b" using assms by (intro sint_small) auto
  ultimately show ?thesis
    by (auto simp: nextBackoff_def Let_def word_sless_alt maxSleep_def min_def not_less)
qed

lemma nextBackoff_backoffOf: "nextBackoff (backoffOf k) = backoffOf (Suc k)"
  by (simp add: backoffOf_def nextBackoff_value min_def)

lemma sleep_value:
  assumes "0 \<le> b" and "b \<le> 300"
  shows "sint (word_of_int b * timeSecond) = b * 1000000000"
proof -
  have "(word_of_int b :: duration) * timeSecond = word_of_int (b * 1000000000)"
    by (simp add: timeSecond_def)
  with sint_small [of "b * 1000000000"] assms show ?thesis by simp
qed

lemma maxSleep_value: "sint (maxSleep * timeSecond) = 300000000000"
  using sleep_value [of 300] by (simp add: maxSleep_def)

section \<open>What a round does\<close>

fun sleepOf :: "call \<Rightarrow> int option" where
  "sleepOf (CSleep d) = Some d"
| "sleepOf c = None"

text \<open>The durations a log sleeps for, in order.\<close>

primrec sleeps :: "call list \<Rightarrow> int list" where
  "sleeps [] = []"
| "sleeps (c # cs) = (case sleepOf c of Some d \<Rightarrow> d # sleeps cs | None \<Rightarrow> sleeps cs)"

lemma sleeps_append [simp]: "sleeps (xs @ ys) = sleeps xs @ sleeps ys"
  by (induction xs) (simp_all split: option.split)

lemma sleeps_none: "(\<And>c. c \<in> set cs \<Longrightarrow> sleepOf c = None) \<Longrightarrow> sleeps cs = []"
  by (induction cs) simp_all

lemma gather_awake: "emits (\<lambda>_. True) (\<lambda>c. sleepOf c = None) (gatherAndSaveData x server deployment)"
proof -
  have puts: "sleepOf c = None" if "puts_at k key c" for k key c using that by (cases c) simp_all
  show ?thesis
    unfolding gatherAndSaveData_def fillDataConfigMap_def
    by (intro emits_rules emits_IMDSFetchIPv4CIDR emits_CreateOrUpdate yields_liftOutcome)
      (auto intro: puts)
qed

lemma extends_gather: "extends (gatherAndSaveData x server deployment)"
  by (rule emits_extends [OF gather_awake])

lemma gather_no_crash: "fst (gatherAndSaveData x server deployment s) \<noteq> Crash msg"
proof -
  have "crashes_if (\<lambda>_. False) (IMDSFetchIPv4CIDR x server)"
    unfolding crashes_if_def by (auto simp: prog_unfold split: prod.splits sum.splits)
  then have "fst (IMDSFetchIPv4CIDR x server s) \<noteq> Crash m" for s m by (auto simp: crashes_if_def)
  then show ?thesis
    by (auto simp: prog_unfold split: prod.splits sum.splits outcome.splits)
qed

lemma sleep_run:
  "thenM (host_sleep x d) (ret b) s =
     (Ok b, s\<lparr>world := time_Sleep x d (world s), calls := calls s @ [CSleep d]\<rparr>)"
  by (simp add: prog_unfold)

lemma gatherRound_run:
  obtains (saved) s1 where "fst (gatherAndSaveData x IMDSv1Server deployment s) = Ok ()"
      and "gatherRound x deployment backoff s = (Ok 1, s1)"
      and "sleeps (issued (gatherRound x deployment backoff) s) = [300000000000]"
  | (failed) e s1 where "fst (gatherAndSaveData x IMDSv1Server deployment s) = Err e"
      and "gatherRound x deployment backoff s = (Ok (nextBackoff backoff), s1)"
      and "sleeps (issued (gatherRound x deployment backoff) s) = [sint (backoff * timeSecond)]"
proof -
  let ?g = "gatherAndSaveData x IMDSv1Server deployment"
  obtain r s' where g: "?g s = (r, s')" by (cases "?g s")
  have log: "calls s' = calls s @ issued ?g s"
    using calls_issued [OF extends_gather TrueI, of x IMDSv1Server deployment s] g by simp
  have awake: "sleeps (issued ?g s) = []"
    by (rule sleeps_none) (rule emits_issued [OF gather_awake TrueI])
  show thesis
  proof (cases r)
    case (Ok u)
    then have eq: "gatherRound x deployment backoff s =
        (Ok 1, s'\<lparr>world := time_Sleep x (sint (maxSleep * timeSecond)) (world s'),
                   calls := calls s' @ [CSleep (sint (maxSleep * timeSecond))]\<rparr>)"
      using g by (simp add: gatherRound_def bindM_step tryM_def sleep_run)
    moreover have "sleeps (issued (gatherRound x deployment backoff) s) = [300000000000]"
      using log awake by (simp add: issued_def [of "gatherRound x deployment backoff"] eq maxSleep_value)
    ultimately show ?thesis using Ok g by (intro saved) simp_all
  next
    case (Err e)
    then have eq: "gatherRound x deployment backoff s =
        (Ok (nextBackoff backoff), s'\<lparr>world := time_Sleep x (sint (backoff * timeSecond)) (world s'),
                   calls := calls s' @ [CSleep (sint (backoff * timeSecond))]\<rparr>)"
      using g by (simp add: gatherRound_def bindM_step tryM_def sleep_run)
    moreover have "sleeps (issued (gatherRound x deployment backoff) s) = [sint (backoff * timeSecond)]"
      using log awake by (simp add: issued_def [of "gatherRound x deployment backoff"] eq)
    ultimately show ?thesis using Err g by (intro failed) simp_all
  next
    case (Crash m)
    with g gather_no_crash [of x IMDSv1Server deployment s m] show ?thesis by simp
  qed
qed

lemma extends_gatherRound: "extends (gatherRound x deployment backoff)"
  unfolding gatherRound_def host_sleep_def
  by (intro emits_rules extends_gather emits_callM) simp_all

lemma extends_gatherRounds: "extends (gatherRounds n x deployment backoff)"
  by (induction n arbitrary: backoff) (auto intro!: emits_rules extends_gatherRound)

lemma issued_gatherRounds:
  assumes "gatherRound x deployment backoff s = (Ok b, s1)"
  shows "issued (gatherRounds (Suc n) x deployment backoff) s =
    issued (gatherRound x deployment backoff) s @ issued (gatherRounds n x deployment b) s1"
  using assms issued_bindM [OF extends_gatherRound extends_gatherRounds,
        of x deployment backoff "\<lambda>_. n" "\<lambda>_. x" "\<lambda>_. deployment" "\<lambda>b. b" s]
  by simp

section \<open>The text the metadata service hands out\<close>

text \<open>
  \<open>answersIMDS x server mac text w w'\<close>: asked for the hardware address and then for the
  ranges, the metadata service at \<open>server\<close> answers with these bodies, under some status codes.
\<close>

definition answersIMDS :: "('w, 'y) host_scheme \<Rightarrow> string \<Rightarrow> string \<Rightarrow> string \<Rightarrow> 'w \<Rightarrow> 'w \<Rightarrow> bool" where
  "answersIMDS x server mac text w w' \<longleftrightarrow>
     (\<exists>code1 code2 w1.
        http_Get x (server @ ''/latest/meta-data/mac'') w = (Inr (code1, Inr mac), w1) \<and>
        http_Get x (server @ ''/latest/meta-data/network/interfaces/macs/'' @ mac @
                    ''/vpc-ipv4-cidr-blocks'') w1 = (Inr (code2, Inr text), w'))"

lemma IMDSFetch_run:
  assumes "answersIMDS x server mac text (world s) w'"
  obtains s' where "IMDSFetchIPv4CIDR x server s = (Ok (ReplaceAll text (CHR 0x0A) (CHR 0x3B)), s')"
    and "world s' = w'"
  using assms by (auto simp: answersIMDS_def prog_unfold)

text \<open>A new config map is created with the ranges in one line.\<close>

lemma gather_creates:
  assumes imds: "answersIMDS x server mac text (world s) w'"
    and missing: "fst (api_Get x KConfigMap (IMDSConfigMapName, Namespace (meta deployment)) w') = Inl e" "IsNotFound e"
  shows "\<exists>ob res. CCreate ob res \<in> set (issued (gatherAndSaveData x server deployment) s) \<and>
    kind_of ob = KConfigMap \<and> ObjectKeyFromObject ob = (IMDSConfigMapName, Namespace (meta deployment)) \<and>
    configMapData ob = Some (fmupd CIDRKey (ReplaceAll text (CHR 0x0A) (CHR 0x3B)) fmempty)"
proof -
  let ?t = "ReplaceAll text (CHR 0x0A) (CHR 0x3B)"
  let ?cm = "named KConfigMap IMDSConfigMapName (Namespace (meta deployment))"
  let ?ob = "setBody (ConfigMap (Some (fmupd CIDRKey ?t fmempty))) (setOwners [deploymentOwner deployment] ?cm)"
  let ?m = "CreateOrUpdate x ?cm (\<lambda>ob. liftOutcome (fillDataConfigMap deployment ?t ob))"
  obtain s' where fetch: "IMDSFetchIPv4CIDR x server s = (Ok ?t, s')" and w': "world s' = w'"
    using IMDSFetch_run [OF imds] .
  have key: "ObjectKeyFromObject ?ob = (IMDSConfigMapName, Namespace (meta deployment))"
    by (simp add: ObjectKeyFromObject_def named_def)
  obtain w2 where "api_Get x KConfigMap (IMDSConfigMapName, Namespace (meta deployment)) (world s') = (Inl e, w2)"
    using missing(1) w' by (cases "api_Get x KConfigMap (IMDSConfigMapName, Namespace (meta deployment)) w'") simp
  then have "CCreate ?ob (map_sum id (decodeAs KConfigMap) (fst (api_Create x ?ob w2))) \<in> set (issued ?m s')"
    using missing(2) by (intro data_config_map.CreateOrUpdate_creates [where e = e]) (simp_all add: fillDataConfigMap_def)
  then obtain res where res: "CCreate ?ob res \<in> set (issued ?m s')" by blast
  let ?n = "\<lambda>cidr. bindM (wrapErr ''Failed to create configmap''
              (CreateOrUpdate x ?cm (\<lambda>ob. liftOutcome (fillDataConfigMap deployment cidr ob)))) (\<lambda>_. ret ())"
  have ext: "extends (CreateOrUpdate x ?cm (\<lambda>ob. liftOutcome (fillDataConfigMap deployment cidr ob)))" for cidr
    by (rule emits_extends [OF data_config_map.CreateOrUpdate_calls]) simp
  have extF: "extends (IMDSFetchIPv4CIDR x server)" by (rule emits_IMDSFetchIPv4CIDR) simp_all
  have "issued (gatherAndSaveData x server deployment) s = issued (IMDSFetchIPv4CIDR x server) s @ issued (?n ?t) s'"
    unfolding gatherAndSaveData_def
    by (subst issued_bindM) (auto intro!: emits_rules ext extF simp: wrapErr_Ok [where m = "IMDSFetchIPv4CIDR x server", OF fetch])
  moreover have "issued (?n ?t) s' = issued ?m s'"
    by (subst issued_bindM) (auto intro!: emits_rules ext split: outcome.split)
  ultimately have "CCreate ?ob res \<in> set (issued (gatherAndSaveData x server deployment) s)" using res by simp
  then show ?thesis using key by (intro exI [of _ ?ob] exI [of _ res]) (simp add: kind_of_def setBody_def)
qed

end
