(* ===== verification/AWS_Props.thy ===== *)
theory AWS_Props
  imports AWS_Gather Mem_Server
begin

text \<open>
  Properties of the process that gathers the data of the cloud provider, alone and with the agent.
\<close>

section \<open>Back-off\<close>

text \<open>
  C20: as long as every attempt to gather the data fails, the process sleeps 1, 2, 4, \<open>\<dots>\<close>, 256 and
  then 300 seconds between the attempts, whatever the world does.
\<close>

theorem gather_backoff:
  assumes fails: "\<And>s :: ('w, call, 'z) env_scheme. \<exists>e. fst (gatherAndSaveData x IMDSv1Server deployment s) = Err e"
  shows "sleeps (issued (gatherRounds n x deployment (backoffOf j)) (s :: ('w, call, 'z) env_scheme)) =
    map (\<lambda>k. min (2 ^ k) 300 * 1000000000) [j..<j + n]"
proof (induction n arbitrary: j s)
  case (Suc n)
  show ?case
  proof (cases rule: gatherRound_run [of x deployment s "backoffOf j"])
    case (saved s1)
    with fails [of s] show ?thesis by simp
  next
    case (failed e s1)
    have "sint (backoffOf j * timeSecond) = min (2 ^ j) 300 * 1000000000"
      unfolding backoffOf_def by (rule sleep_value) simp_all
    moreover have "[j..<j + Suc n] = j # [Suc j..<Suc j + n]" by (simp add: upt_conv_Cons)
    ultimately show ?thesis
      using failed(3) Suc [of "Suc j" s1]
      by (simp only: issued_gatherRounds [OF failed(2)] nextBackoff_backoffOf sleeps_append list.map append_Cons append_Nil)
  qed
qed simp

lemma gather_backoff_witness:
  "sleeps (issued (gatherRounds 11 sampleHost bareCSV (backoffOf 0)) \<lparr>world = [], calls = []\<rparr>) =
    map (\<lambda>s. s * 1000000000) [1, 2, 4, 8, 16, 32, 64, 128, 256, 300, 300]"
proof -
  have "\<exists>e. fst (gatherAndSaveData sampleHost IMDSv1Server bareCSV s) = Err e" for s :: "(store, call, unit) env_scheme"
    by (simp add: prog_unfold sampleHost_def memHost_def)
  from gather_backoff [OF this, of 11 0] show ?thesis by (simp add: upt_rec)
qed

lemma gatherRounds_sleeps:
  assumes "1 \<le> k" and "k \<le> 300" and "b = word_of_int k"
  shows "list_all (\<lambda>d. 1000000000 \<le> d \<and> d \<le> 300000000000) (sleeps (issued (gatherRounds n x deployment b) s))"
  using assms
proof (induction n arbitrary: k b s)
  case (Suc n)
  show ?case
  proof (cases rule: gatherRound_run [of x deployment s b])
    case (saved s1)
    with Suc.IH [of 1 1 s1] show ?thesis
      by (simp add: issued_gatherRounds [OF saved(2)] del: gatherRounds.simps)
  next
    case (failed e s1)
    have "nextBackoff b = word_of_int (min (2 * k) 300)" "sint (b * timeSecond) = k * 1000000000"
      using Suc.prems by (simp_all add: nextBackoff_value sleep_value)
    with failed(3) Suc.IH [of "min (2 * k) 300" "nextBackoff b" s1] Suc.prems(1,2) show ?thesis
      by (simp add: issued_gatherRounds [OF failed(2)] del: gatherRounds.simps)
  qed
qed simp

text \<open>
  C21: every sleep of the process lasts between one second and five minutes, in every run of
  any length: the doubling of the 64-bit \<open>backoff\<close> and its product with a second never wrap.
\<close>

theorem gather_sleep_bounds:
  "list_all (\<lambda>d. 1000000000 \<le> d \<and> d \<le> 300000000000) (sleeps (issued (gatherMain n x LookupEnv) s))"
proof -
  have start: "emits (\<lambda>_. True) (\<lambda>c. sleepOf c = None) (gatherStart x LookupEnv)"
    unfolding gatherStart_def by (auto intro!: emits_rules emits_client_get split: option.split)
  have "issued (gatherMain n x LookupEnv) s = issued (gatherStart x LookupEnv) s @
      (case fst (gatherStart x LookupEnv s) of
         Ok d \<Rightarrow> issued (gatherRounds n x d 1) (snd (gatherStart x LookupEnv s)) | _ \<Rightarrow> [])"
    unfolding gatherMain_def by (rule issued_bindM [OF emits_extends [OF start] extends_gatherRounds])
  moreover have "sleeps (issued (gatherStart x LookupEnv) s) = []"
    by (rule sleeps_none) (rule emits_issued [OF start TrueI])
  ultimately show ?thesis by (auto intro!: gatherRounds_sleeps [of 1] split: outcome.split)
qed

section \<open>Errors\<close>

text \<open>
  C22: once the deployment is found the process never ends: whatever the metadata service and
  the API server answer, every round ends with a sleep and a next value of \<open>backoff\<close>.
\<close>

theorem gather_never_ends:
  "\<exists>b. fst (gatherRounds n x deployment backoff s) = Ok b \<and>
    length (sleeps (issued (gatherRounds n x deployment backoff) s)) = n"
proof (induction n arbitrary: backoff s)
  case (Suc n)
  obtain b s1 where run: "gatherRound x deployment backoff s = (Ok b, s1)"
    and "length (sleeps (issued (gatherRound x deployment backoff) s)) = 1"
    by (rule gatherRound_run [of x deployment s backoff]) auto
  moreover have "gatherRounds (Suc n) x deployment backoff s = gatherRounds n x deployment b s1"
    by (simp add: bindM_step run)
  ultimately show ?case using Suc [of b s1]
    by (simp only: issued_gatherRounds [OF run] sleeps_append length_append) simp
qed (simp_all add: issued_def ret_def)

text \<open>
  C23: all the process ever writes is the config map of the address ranges in its deployment's
  namespace: with one entry, without a line break in it, and owned by the deployment alone.
\<close>

theorem gather_writes_config_map:
  "list_all (writes_only (\<lambda>ob. ObjectKeyFromObject ob = (IMDSConfigMapName, Namespace (meta deployment)) \<and>
      kind_of ob = KConfigMap \<and> OwnerReferences (meta ob) = [deploymentOwner deployment] \<and>
      (\<exists>text. CHR 0x0A \<notin> set text \<and> configMapData ob = Some (fmupd CIDRKey text fmempty))))
    (issued (gatherRounds n x deployment backoff) s)"
  (is "list_all (writes_only ?P) _")
proof -
  let ?cm = "named KConfigMap IMDSConfigMapName (Namespace (meta deployment))"
  let ?cou = "\<lambda>cidr. CreateOrUpdate x ?cm (\<lambda>ob. liftOutcome (fillDataConfigMap deployment cidr ob))"
  let ?Q = "\<lambda>ob. OwnerReferences (meta ob) = [deploymentOwner deployment] \<and>
      (\<exists>text. CHR 0x0A \<notin> set text \<and> configMapData ob = Some (fmupd CIDRKey text fmempty))"
  have content: "emits (\<lambda>_. True) (writes_only ?Q) (?cou cidr)" if "CHR 0x0A \<notin> set cidr" for cidr
    using that by (intro emits_CreateOrUpdate_writes) (auto intro!: emits_rules yields_liftOutcome simp: fillDataConfigMap_def)
  have keyed: "emits (\<lambda>_. True) (reads_or_puts {(KConfigMap, (IMDSConfigMapName, Namespace (meta deployment)))}) (?cou cidr)" for cidr
    using data_config_map.CreateOrUpdate_calls [of ?cm x deployment cidr] by simp
  have both: "emits (\<lambda>_. True) (writes_only ?P) (?cou cidr)" if "CHR 0x0A \<notin> set cidr" for cidr
    by (rule emits_weaken [OF emits_both [OF content [OF that] keyed]])
      (auto simp: writes_only_def reads_or_puts_def split: call.splits)
  have unbroken: "yields (\<lambda>t. CHR 0x0A \<notin> set t) (IMDSFetchIPv4CIDR x server)" for server
    unfolding IMDSFetchIPv4CIDR_def
    by (intro yields_bindM [OF yields_any] yields_ret ReplaceAll_gone) simp
  have fetch: "emits (\<lambda>_. True) (writes_only ?P) (wrapErr msg (IMDSFetchIPv4CIDR x server))" for msg server
    by (intro emits_wrapErr emits_IMDSFetchIPv4CIDR) (simp_all add: writes_only_def)
  have gather: "emits (\<lambda>_. True) (writes_only ?P) (gatherAndSaveData x server deployment)" for server
    unfolding gatherAndSaveData_def
    by (rule emits_bindM_yields [OF fetch yields_wrapErr [OF unbroken]]) (intro emits_rules both)
  have round: "emits (\<lambda>_. True) (writes_only ?P) (gatherRound x deployment b)" for b
    unfolding gatherRound_def host_sleep_def
    by (intro emits_rules gather emits_callM) (simp_all add: writes_only_def)
  have "emits (\<lambda>_. True) (writes_only ?P) (gatherRounds n x deployment backoff)"
    by (induction n arbitrary: backoff) (auto intro!: emits_rules round simp del: configMapData.simps)
  then show ?thesis unfolding list_all_iff by (intro ballI) (rule emits_issued [OF _ TrueI])
qed

section \<open>From the metadata service to the firewall\<close>

text \<open>
  C19: end to end. When the metadata service answers with the address ranges of the VPC, one per
  line and whatever the status codes, and there is no config map yet, the process
  creates one; and an agent that reads it back computes the firewall rules that allow exactly
  its three fixed destinations, these ranges in this order, and the mail host, and deny the rest.
\<close>

theorem ranges_reach_firewall:
  assumes ranges: "ranges \<noteq> []" "\<And>c. c \<in> set ranges \<Longrightarrow> c \<noteq> [] \<and> CHR 0x0A \<notin> set c \<and> CHR 0x3B \<notin> set c"
    and imds: "answersIMDS x server mac (Join ranges [CHR 0x0A]) (world s) w'"
    and missing: "fst (api_Get x KConfigMap (IMDSConfigMapName, Namespace (meta deployment)) w') = Inl e" "IsNotFound e"
    and stored: "\<And>ob res. CCreate ob res \<in> set (issued (gatherAndSaveData x server deployment) s) \<Longrightarrow>
      fst (api_Get y KConfigMap (IMDSConfigMapName, agentNamespace r) (world r)) = Inr ob"
    and mail: "ParseRequestURI (smtp_Endpoint (smtpConfigData r)) = Inr u" "Hostname u \<noteq> ''''"
  shows "fst (getEgressFirewallDesiredState y r) = Ok
     ([allowRule (toDNS ''events.pagerduty.com''), allowRule (toDNS RemoteWriteDNSName),
       allowRule (toCIDR ''100.64.0.0/16'')] @ map (\<lambda>c. allowRule (toCIDR c)) ranges @
      [allowRule (toDNS (Hostname u)), denyRule (toCIDR ''0.0.0.0/0'')])"
proof -
  have joined: "ReplaceAll (Join ranges [CHR 0x0A]) (CHR 0x0A) (CHR 0x3B) = Join ranges [CHR 0x3B]"
    using ranges(2) by (intro ReplaceAll_Join) blast
  have split: "Split (Join ranges [CHR 0x3B]) (CHR 0x3B) = ranges"
    using ranges by (intro Split_Join) blast+
  have filtered: "filter (\<lambda>c. c \<noteq> []) ranges = ranges" using ranges(2) by (simp add: filter_id_conv)
  obtain ob res where created: "CCreate ob res \<in> set (issued (gatherAndSaveData x server deployment) s)"
    and kind: "kind_of ob = KConfigMap"
    and data: "configMapData ob = Some (fmupd CIDRKey (Join ranges [CHR 0x3B]) fmempty)"
    using gather_creates [OF imds missing] joined by auto
  have "decodeAs KConfigMap ob = ob" using kind by (simp add: decodeAs_def)
  then have "fst (getEgressFirewallDesiredState y r) = Ok (desiredEgress (Join ranges [CHR 0x3B]) (Hostname u))"
    using stored [OF created] mail data
    by (cases "api_Get y KConfigMap (IMDSConfigMapName, agentNamespace r) (world r)")
      (simp add: prog_unfold goMapGet_def del: configMapData.simps)
  then show ?thesis by (simp add: desiredEgress_eq desiredAllows_def split filtered)
qed

text \<open>A metadata service that is there, beside an empty API server, and the agent after it.\<close>

definition awsHost :: "store agent_host" where
  "awsHost = sampleHost\<lparr>http_Get := (\<lambda>url w.
     if url = IMDSv1Server @ ''/latest/meta-data/mac'' then (Inr (200, Inr ''0a:1b''), w)
     else (Inr (200, Inr (''10.0.0.0/16'' @ [CHR 0x0A] @ ''10.1.0.0/16'')), w))\<rparr>"

definition gathered :: "(store, call) env" where
  "gathered = snd (gatherAndSaveData awsHost IMDSv1Server bareCSV \<lparr>world = [], calls = []\<rparr>)"

lemma gathered_stored:
  "CCreate ob res \<in> set (issued (gatherAndSaveData awsHost IMDSv1Server bareCSV) \<lparr>world = [], calls = []\<rparr>) \<Longrightarrow>
   fst (api_Get awsHost KConfigMap (IMDSConfigMapName, ''ns'') (world gathered)) = Inr ob"
  by (auto simp: gathered_def issued_def prog_unfold awsHost_def const_defs eval_server eval_objects bareCSV_def)

lemma ranges_reach_firewall_witness:
  "fst (getEgressFirewallDesiredState awsHost
      ((freshAgent ''ns'' [] (world gathered))\<lparr>smtpConfigData := sampleSmtp\<rparr>)) = Ok
     ([allowRule (toDNS ''events.pagerduty.com''), allowRule (toDNS RemoteWriteDNSName),
       allowRule (toCIDR ''100.64.0.0/16'')] @ map (\<lambda>c. allowRule (toCIDR c)) [''10.0.0.0/16'', ''10.1.0.0/16''] @
      [allowRule (toDNS (Hostname \<lparr>url_Scheme = ''smtp'', url_Opaque = '''', url_Host = ''h:25''\<rparr>)),
       denyRule (toCIDR ''0.0.0.0/0'')])"
proof (rule ranges_reach_firewall [where x = awsHost and server = IMDSv1Server and mac = "''0a:1b''" and w' = "[]"
      and s = "\<lparr>world = [], calls = []\<rparr>" and deployment = bareCSV and e = "StatusError ReasonNotFound ''not found''"])
  show "ParseRequestURI (smtp_Endpoint (smtpConfigData
      ((freshAgent ''ns'' [] (world gathered))\<lparr>smtpConfigData := sampleSmtp\<rparr>))) =
      Inr \<lparr>url_Scheme = ''smtp'', url_Opaque = '''', url_Host = ''h:25''\<rparr>"
    by (simp add: sampleSmtp_def) code_simp
  show "Hostname \<lparr>url_Scheme = ''smtp'', url_Opaque = '''', url_Host = ''h:25''\<rparr> \<noteq> ''''" by code_simp
qed (use gathered_stored in \<open>auto simp: answersIMDS_def awsHost_def const_defs mem_Get_def\<close>)

end
