(* ===== verification/DF_Props.thy ===== *)
theory DF_Props
  imports Mem_Offering Offering_Outcomes
begin

text \<open>
  Properties of the two plugins, the data foundation and its client.
\<close>

section \<open>Device sets\<close>

lemma bitLength_le: "n < 2 ^ k \<Longrightarrow> bitLength n \<le> k"
proof (induction n arbitrary: k rule: bitLength.induct)
  case (1 n)
  show ?case
  proof (cases "n = 0")
    case False
    then obtain j where k: "k = Suc j" using "1.prems" by (cases k) auto
    with "1.prems" have "n div 2 < 2 ^ j" by simp
    from "1.IH" [OF False this] False k show ?thesis by (subst bitLength.simps) simp
  qed (simp add: bitLength.simps)
qed

lemma bitLength_eq: "2 ^ k \<le> n \<Longrightarrow> n < 2 ^ Suc k \<Longrightarrow> bitLength n = Suc k"
proof (induction k arbitrary: n)
  case 0
  then have "n = 1" by simp
  then show ?case by (simp add: bitLength.simps)
next
  case (Suc k)
  from Suc.prems have "2 ^ k \<le> n div 2" "n div 2 < 2 ^ Suc k" by auto
  with Suc.IH [of "n div 2"] Suc.prems show ?case by (subst bitLength.simps) auto
qed

lemma float64_exact:
  assumes "0 \<le> n" and "n \<le> 2 ^ 53"
  shows "float64_of_int n = n"
proof (cases "n = 2 ^ 53")
  case True
  have "bitLength (2 ^ 53) = 54" by (rule bitLength_eq [of 53, simplified]) simp_all
  with True show ?thesis by (simp add: float64_of_int_def roundShift_def)
next
  case False
  then have "bitLength (nat n) \<le> 53" using assms by (intro bitLength_le) (simp add: nat_less_iff)
  then show ?thesis using assms by (auto simp: float64_of_int_def Let_def roundShift_def sgn_if)
qed

lemma deviceSetCountFor_exact:
  assumes "0 \<le> n" and "n \<le> 2 ^ 53"
  shows "deviceSetCountFor n = (n + 3) div 4"
  using assms by (simp add: deviceSetCountFor_def float64_exact ceilQuarter_def OSDSizeInTiB_def)

text \<open>
  C26: up to \<open>2 ^ 53\<close> TiB the number of device sets is the exact quotient rounded up: the sets hold
  the capacity asked for, and one set less would not.
\<close>

theorem device_count_sufficient:
  assumes "0 < n" and "n \<le> 2 ^ 53"
  shows "int OSDSizeInTiB * (deviceSetCountFor n - 1) < n \<and> n \<le> int OSDSizeInTiB * deviceSetCountFor n"
  using assms by (simp add: deviceSetCountFor_exact OSDSizeInTiB_def) presburger

lemma device_count_sufficient_witness:
  "int OSDSizeInTiB * (deviceSetCountFor 5 - 1) < 5 \<and> 5 \<le> int OSDSizeInTiB * deviceSetCountFor 5"
  by (rule device_count_sufficient) simp_all


section \<open>The storage cluster\<close>

text \<open>
  C28: the storage cluster is never scaled down: every update that the operation issues follows the
  read of the cluster, sets the larger of the number of device sets read and the number the
  capacity needs, and leaves the rest of the specification as in the template.
\<close>

theorem storage_cluster_never_shrinks:
  assumes k: "kind_of (storageCluster r) = KStorageCluster"
    and w: "CUpdate ob res \<in> set (issued (reconcileStorageCluster x) r)"
  shows "\<exists>ex. issued (reconcileStorageCluster x) r =
      [CGet KStorageCluster (ObjectKeyFromObject (storageCluster r)) (Inr ex), CUpdate ob res] \<and>
    storageClusterSpecOf ob = clusterWithCount (max (deviceSetCountFor (UsableCapacityInTiB (dfSpec r)))
      (currentDeviceSetCount (sc_StorageDeviceSets (storageClusterSpecOf ex)))) \<and>
    0 < UsableCapacityInTiB (dfSpec r)"
proof -
  let ?m = "createOrUpdateOwned x storageCluster storageCluster_update
            (\<lambda>r. fillStorageCluster (UsableCapacityInTiB (dfSpec r)))"
  have log: "issued (reconcileStorageCluster x) r =
      (if UsableCapacityInTiB (dfSpec r) \<le> 0 then [] else issued ?m r)"
    unfolding reconcileStorageCluster_def by (auto simp: issued_def gets_def bindM_step fail_def wrapErr_def split: prod.split outcome.split)
  with w have c: "CUpdate ob res \<in> set (issued ?m r)" and pos: "0 < UsableCapacityInTiB (dfSpec r)"
    by (auto split: if_splits)
  have nr: "\<not> is_read (CUpdate ob res)" by simp
  note fill = storage_cluster_fill.owned.pure_mutator_axioms [where c = True and r = r and capacity = "UsableCapacityInTiB (dfSpec r)"]
  show ?thesis
  proof (rule createOrUpdateOwned_write [where h = "\<lambda>r. fillStorageCluster (UsableCapacityInTiB (dfSpec r))" and field = storageCluster, OF fill k df_update_calls(2) c nr])
    fix ex ob' res'
    assume update: "CUpdate ob res = CUpdate ob' res'"
      "withOwner (ownBy True r) (fillStorageCluster (UsableCapacityInTiB (dfSpec r))) ex = Ok ob'"
      "issued ?m r = [CGet KStorageCluster (ObjectKeyFromObject (storageCluster r)) (Inr ex), CUpdate ob res]"
    from update(2) obtain o1 where "ownBy True r ex = Inr o1"
      and "fillStorageCluster (UsableCapacityInTiB (dfSpec r)) o1 = Ok ob'"
      by (auto simp: withOwner_Ok)
    with update(1) have "storageClusterSpecOf ob = clusterWithCount (max (deviceSetCountFor (UsableCapacityInTiB (dfSpec r)))
      (currentDeviceSetCount (sc_StorageDeviceSets (storageClusterSpecOf ex))))"
      by (auto simp: fillStorageCluster_eq ownBy_frame)
    with update(3) log pos show ?thesis by auto
  qed simp_all
qed

lemma storage_cluster_never_shrinks_witness:
  "\<exists>ob res ex. issued (reconcileStorageCluster sampleOfferingHost) (sampleDF [sampleCluster ''Ready'']) =
      [CGet KStorageCluster (ObjectKeyFromObject (storageCluster (sampleDF [sampleCluster ''Ready'']))) (Inr ex),
       CUpdate ob res] \<and>
    storageClusterSpecOf ob =
      clusterWithCount (max (deviceSetCountFor (UsableCapacityInTiB (dfSpec (sampleDF [sampleCluster ''Ready'']))))
        (currentDeviceSetCount (sc_StorageDeviceSets (storageClusterSpecOf ex)))) \<and>
    0 < UsableCapacityInTiB (dfSpec (sampleDF [sampleCluster ''Ready'']))"
proof -
  obtain ob res where "CUpdate ob res \<in> set (issued (reconcileStorageCluster sampleOfferingHost)
      (sampleDF [sampleCluster ''Ready'']))"
    by (rule updatesKindE [OF scaled_run])
  moreover have "kind_of (storageCluster (sampleDF [sampleCluster ''Ready''])) = KStorageCluster"
    using sampleDF_kinds(1) by (simp add: dfKinds_def)
  ultimately show ?thesis using storage_cluster_never_shrinks by blast
qed


section \<open>Missing watches\<close>

text \<open>
  C29: when the storage cluster's definition was not there when the process started, a run of the
  plugin is one read of that definition: an error while it is missing, and when it has
  appeared the restart of the process; nothing is written or deleted.
\<close>

theorem df_missing_crd:
  assumes "\<not> crdAvailable (offeringCRDs r) storageClusterCRDName"
  shows "\<exists>ans. issued (dfReconcile x off spec) r = [CGet KCustomResourceDefinition (storageClusterCRDName, '''') ans] \<and>
    fst (dfReconcile x off spec r) = (case ans of Inl e \<Rightarrow> Err e
      | Inr _ \<Rightarrow> Crash (''a watch is missing for resource type '' @ storageClusterCRDName @ '', restarting agent''))"
proof -
  let ?r = "initDataFoundation off spec r" and ?key = "(storageClusterCRDName, '''')"
  let ?ans = "map_sum id (decodeAs KCustomResourceDefinition) (fst (api_Get x KCustomResourceDefinition ?key (world ?r)))"
  have crds: "dfAvailableCRDs ?r = offeringCRDs r"
    by (simp add: initDataFoundation_def offering.defs dataFoundation.defs Let_def)
  obtain s1 where get: "client_get x KCustomResourceDefinition ?key ?r = ((case ?ans of Inl e \<Rightarrow> Err e | Inr ob \<Rightarrow> Ok ob), s1)"
    and s1: "calls s1 = calls ?r @ [CGet KCustomResourceDefinition ?key ?ans]"
    using client_get_run [of x KCustomResourceDefinition ?key ?r] by auto
  have "dfReconcilePhases x ?r = (case ?ans of Inl e \<Rightarrow> (Err e, s1)
      | Inr _ \<Rightarrow> (Crash (''a watch is missing for resource type '' @ storageClusterCRDName @ '', restarting agent''), s1))"
    using get crds assms
    by (auto simp: dfReconcilePhases_def gets_def bindM_step thenM_step requireCRD_def HandleMissingWatch_def crash_def
        split: sum.split)
  then show ?thesis
    using s1 by (intro exI [of _ ?ans])
      (auto simp: issued_dfReconcile issued_def dfReconcile_def embedded_def split: sum.split)
qed

lemma df_missing_crd_witness:
  "\<exists>ans. issued (dfReconcile sampleOfferingHost bareCSV dfGetOfferingSpecInstance) clusterGone =
      [CGet KCustomResourceDefinition (storageClusterCRDName, '''') ans] \<and>
    fst (dfReconcile sampleOfferingHost bareCSV dfGetOfferingSpecInstance clusterGone) = (case ans of Inl e \<Rightarrow> Err e
      | Inr _ \<Rightarrow> Crash (''a watch is missing for resource type '' @ storageClusterCRDName @ '', restarting agent''))"
  by (rule df_missing_crd) (simp add: clusterGone_def freshOffering_def Let_def crdAvailable_def)

section \<open>The operator's deployments\<close>


section \<open>Rook's configuration\<close>

text \<open>
  C31: the configuration of Rook is written back on every run, also when it already has both
  settings: the comparison before the write never finds the two equal. The update sets the two
  entries and keeps the others and the metadata.
\<close>

theorem rook_config_always_written:
  assumes get: "fst (api_Get x KConfigMap (ObjectKeyFromObject (rookConfigMap r)) (world r)) = Inr cm"
    and k: "kind_of cm = KConfigMap"
  shows "\<exists>cm' res. issued (reconcileRookCephOperatorConfig x) r =
      [CGet KConfigMap (ObjectKeyFromObject (rookConfigMap r)) (Inr cm), CUpdate cm' res] \<and>
    meta cm' = meta cm \<and> kind_of cm' = KConfigMap \<and>
    (\<forall>k. goMapGet (configMapData cm') k =
       (if k \<in> {''ROOK_CSI_ENABLE_CEPHFS'', ''ROOK_CSI_ENABLE_RBD''} then Some ''false''
        else goMapGet (configMapData cm) k))"
proof -
  let ?key = "ObjectKeyFromObject (rookConfigMap r)"
  obtain w1 where api: "api_Get x KConfigMap ?key (world r) = (Inr cm, w1)"
    using get by (cases "api_Get x KConfigMap ?key (world r)") simp
  have same: "decodeAs KConfigMap cm = cm" using k by (simp add: decodeAs_def)
  define m where "m = nilToEmpty (configMapData cm)"
  define cm' where "cm' = setBody (ConfigMap (Some (fmupd ''ROOK_CSI_ENABLE_RBD'' ''false''
    (fmupd ''ROOK_CSI_ENABLE_CEPHFS'' ''false'' m)))) cm"
  have made: "disableCSI cm = Ok cm'"
    by (simp add: disableCSI_def goMapSet_def cm'_def m_def nilToEmpty_def Let_def split: option.split)
  obtain res w2 where up: "api_Update x cm' w1 = (res, w2)" by (cases "api_Update x cm' w1")
  have "issued (reconcileRookCephOperatorConfig x) r =
      [CGet KConfigMap ?key (Inr cm), CUpdate cm' (map_sum id (decodeAs (kind_of cm')) res)]"
    using api same made up by (cases res) (auto simp: prog_unfold issued_def simp del: disableCSI_def)
  moreover have "meta cm' = meta cm" "kind_of cm' = KConfigMap" by (simp_all add: cm'_def kind_of_def setBody_def)
  moreover have "goMapGet (configMapData cm') k =
       (if k \<in> {''ROOK_CSI_ENABLE_CEPHFS'', ''ROOK_CSI_ENABLE_RBD''} then Some ''false''
        else goMapGet (configMapData cm) k)" for k
  proof -
    have "goMapGet (configMapData cm) k = fmlookup m k"
      by (simp add: m_def goMapGet_def nilToEmpty_def del: configMapData.simps split: option.split)
    moreover have "configMapData cm' = Some (fmupd ''ROOK_CSI_ENABLE_RBD'' ''false''
        (fmupd ''ROOK_CSI_ENABLE_CEPHFS'' ''false'' m))"
      by (simp add: cm'_def setBody_def)
    ultimately show ?thesis by (simp add: goMapGet_def del: configMapData.simps)
  qed
  ultimately show ?thesis by blast
qed

lemma rook_config_always_written_witness:
  "\<exists>cm' res. issued (reconcileRookCephOperatorConfig sampleOfferingHost) (sampleDF [rookConfig]) =
      [CGet KConfigMap (ObjectKeyFromObject (rookConfigMap (sampleDF [rookConfig]))) (Inr rookConfig), CUpdate cm' res] \<and>
    meta cm' = meta rookConfig \<and> kind_of cm' = KConfigMap \<and>
    (\<forall>k. goMapGet (configMapData cm') k =
       (if k \<in> {''ROOK_CSI_ENABLE_CEPHFS'', ''ROOK_CSI_ENABLE_RBD''} then Some ''false''
        else goMapGet (configMapData rookConfig) k))"
proof (rule rook_config_always_written)
  show "fst (api_Get sampleOfferingHost KConfigMap (ObjectKeyFromObject (rookConfigMap (sampleDF [rookConfig])))
      (world (sampleDF [rookConfig]))) = Inr rookConfig"
    by (simp add: sampleDF_def Let_def eval_offering eval_server eval_objects rookConfig_def)
qed (simp add: rookConfig_def kind_of_def)


section \<open>Monitoring\<close>

lemma forEach_issued:
  assumes ok: "fst (forEach xs f s) = Ok ()" and ext: "\<And>x. extends (f x)" and x: "x \<in> set xs"
    and one: "\<And>s. fst (f x s) = Ok () \<Longrightarrow> \<exists>c\<in>set (issued (f x) s). P c"
  shows "\<exists>c\<in>set (issued (forEach xs f) s). P c"
  using ok x
proof (induction xs arbitrary: s)
  case (Cons y ys)
  have log: "issued (forEach (y # ys) f) s =
      issued (f y) s @ (case fst (f y s) of Ok a \<Rightarrow> issued (forEach ys f) (snd (f y s)) | _ \<Rightarrow> [])"
    by (simp add: issued_thenM ext emits_forEach)
  obtain u where y: "fst (f y s) = Ok u" "fst (forEach ys f (snd (f y s))) = Ok ()"
    using Cons.prems(1) fst_thenM_Ok [of "f y" "forEach ys f" s] by auto
  show ?case
  proof (cases "x = y")
    case True
    with one [of s] y(1) log show ?thesis by auto
  next
    case False
    with Cons.IH [OF y(2)] Cons.prems(2) log y(1) show ?thesis by auto
  qed
qed simp

lemma labelAll_issued:
  assumes "fst (labelAll x k ns msg s) = Ok ()"
  shows "\<exists>items. CList k (Some ns) None (Inr items) \<in> set (issued (labelAll x k ns msg) s) \<and>
    list_all (\<lambda>ob. \<exists>c\<in>set (issued (labelAll x k ns msg) s).
      \<exists>ans. c = CUpdate (AddLabel ob monLabelKey monLabelValue) (Inr ans)) items"
proof -
  let ?l = "wrapErr msg (client_list x k (Some ns) None)"
  let ?f = "\<lambda>ob. bindM (client_update x (AddLabel ob monLabelKey monLabelValue)) (\<lambda>_. ret ())"
  have ext: "extends ?l" "extends (forEach items ?f)" "extends (?f ob)" for items ob
    by (intro emits_rules emits_client_list emits_client_update; simp)+
  obtain items where l: "fst (?l s) = Ok items" "fst (forEach items ?f (snd (?l s))) = Ok ()"
    using bindM_OkD [OF assms [unfolded labelAll_def]] by blast
  have log: "issued (labelAll x k ns msg) s = issued ?l s @ issued (forEach items ?f) (snd (?l s))"
    unfolding labelAll_def by (subst issued_bindM [OF ext(1) ext(2)]) (simp only: l(1) outcome.case)
  have "CList k (Some ns) None (Inr items) \<in> set (issued ?l s)"
    using l(1) by (auto simp: client_list_log)
  moreover have "\<exists>c\<in>set (issued (forEach items ?f) (snd (?l s))).
      \<exists>ans. c = CUpdate (AddLabel ob monLabelKey monLabelValue) (Inr ans)" if "ob \<in> set items" for ob
  proof (rule forEach_issued [OF l(2) ext(3) that])
    fix s' assume "fst (?f ob s') = Ok ()"
    then obtain ans where "fst (client_update x (AddLabel ob monLabelKey monLabelValue) s') = Ok ans"
      using bindM_OkD [of "client_update x (AddLabel ob monLabelKey monLabelValue)" "\<lambda>_. ret ()" s'] by blast
    moreover from this have "issued (?f ob) s' = [CUpdate (AddLabel ob monLabelKey monLabelValue) (Inr ans)]"
      by (subst issued_bindM) (auto intro: emits_client_update emits_ret simp: client_update_log)
    ultimately show "\<exists>c\<in>set (issued (?f ob) s'). \<exists>ans. c = CUpdate (AddLabel ob monLabelKey monLabelValue) (Inr ans)"
      by auto
  qed
  ultimately show ?thesis using log by (intro exI [of _ items]) (auto simp: list_all_iff)
qed

text \<open>
  When the labelling of the monitoring resources succeeds, the pod monitors, the service
  monitors and the Prometheus rules of the offering's namespace have each been listed, and every
  object listed has been written back with the monitoring label.
\<close>

theorem monitoring_labelled:
  assumes ok: "fst (reconcileMonitoringResources x r) = Ok ()"
    and k: "k \<in> {KPodMonitor, KServiceMonitor, KPrometheusRule}"
  shows "\<exists>items. CList k (Some (Namespace (meta (dfOffering r)))) None (Inr items)
      \<in> set (issued (reconcileMonitoringResources x) r) \<and>
    list_all (\<lambda>ob. \<exists>c\<in>set (issued (reconcileMonitoringResources x) r).
      \<exists>ans. c = CUpdate (AddLabel ob monLabelKey monLabelValue) (Inr ans)) items"
proof -
  let ?ns = "Namespace (meta (dfOffering r))"
  let ?l1 = "labelAll x KPodMonitor ?ns ''could not list pod monitors''"
  let ?l2 = "labelAll x KServiceMonitor ?ns ''could not list service monitors''"
  let ?l3 = "labelAll x KPrometheusRule ?ns ''could not list prometheus rules''"
  have eq: "reconcileMonitoringResources x r = thenM ?l1 (thenM ?l2 ?l3) r"
    by (simp add: reconcileMonitoringResources_def gets_def bindM_step)
  have ext: "extends (labelAll x k ns msg)" for k ns msg by (rule emits_extends [OF nodelete_labelAll])
  obtain r1 r2 where ok1: "fst (?l1 r) = Ok ()" "r1 = snd (?l1 r)" and ok2: "fst (?l2 r1) = Ok ()" "r2 = snd (?l2 r1)"
    and ok3: "fst (?l3 r2) = Ok ()"
    using ok fst_thenM_Ok [of ?l1 "thenM ?l2 ?l3" r] fst_thenM_Ok [of ?l2 ?l3 "snd (?l1 r)"] by (auto simp: eq)
  have "issued (reconcileMonitoringResources x) r = issued (thenM ?l1 (thenM ?l2 ?l3)) r" by (simp add: issued_def eq)
  also have "\<dots> = issued ?l1 r @ issued ?l2 r1 @ issued ?l3 r2"
    using ok1 ok2 by (simp add: issued_thenM ext emits_thenM)
  finally have log: "issued (reconcileMonitoringResources x) r = issued ?l1 r @ issued ?l2 r1 @ issued ?l3 r2" .
  have "\<exists>items. CList KPodMonitor (Some ?ns) None (Inr items) \<in> set (issued ?l1 r) \<and>
    list_all (\<lambda>ob. \<exists>c\<in>set (issued ?l1 r). \<exists>ans. c = CUpdate (AddLabel ob monLabelKey monLabelValue) (Inr ans)) items"
    "\<exists>items. CList KServiceMonitor (Some ?ns) None (Inr items) \<in> set (issued ?l2 r1) \<and>
    list_all (\<lambda>ob. \<exists>c\<in>set (issued ?l2 r1). \<exists>ans. c = CUpdate (AddLabel ob monLabelKey monLabelValue) (Inr ans)) items"
    "\<exists>items. CList KPrometheusRule (Some ?ns) None (Inr items) \<in> set (issued ?l3 r2) \<and>
    list_all (\<lambda>ob. \<exists>c\<in>set (issued ?l3 r2). \<exists>ans. c = CUpdate (AddLabel ob monLabelKey monLabelValue) (Inr ans)) items"
    using labelAll_issued [OF ok1(1)] labelAll_issued [OF ok2(1)] labelAll_issued [OF ok3] by blast+
  with k show ?thesis unfolding log list_all_iff set_append by blast
qed

lemma monitoring_labelled_witness:
  "\<exists>items. CList KPodMonitor (Some (Namespace (meta (dfOffering (sampleDF [samplePodMonitor]))))) None (Inr items)
      \<in> set (issued (reconcileMonitoringResources sampleOfferingHost) (sampleDF [samplePodMonitor])) \<and>
    list_all (\<lambda>ob. \<exists>c\<in>set (issued (reconcileMonitoringResources sampleOfferingHost) (sampleDF [samplePodMonitor])).
      \<exists>ans. c = CUpdate (AddLabel ob monLabelKey monLabelValue) (Inr ans)) items"
  by (rule monitoring_labelled [OF monitoring_run]) simp


section \<open>The onboarding key\<close>




section \<open>OCS initialization\<close>

text \<open>
  C33: once the server holds the initialization resource as a run has left it, with whatever identity
  and version the server gave it, a further run reads it and changes nothing.
\<close>

theorem ocs_initialization_settles:
  assumes made: "kind_of ob0 = KOCSInitialization" "ownBy False r ob0 = Inr ob1"
    and k: "kind_of (ocsInitialization r) = KOCSInitialization"
    and get: "api_Get x KOCSInitialization (ObjectKeyFromObject (ocsInitialization r)) (world r) =
      (Inr (stamp u v (setBody (OCSInitialization True) ob1)), w')"
  shows "issued (reconcileOCSInitialization x) r =
      [CGet KOCSInitialization (ObjectKeyFromObject (ocsInitialization r))
         (Inr (stamp u v (setBody (OCSInitialization True) ob1)))] \<and>
    fst (reconcileOCSInitialization x r) = Ok ()"
proof -
  let ?msg = "''unable to set ownerRef on ocs initialization CR''"
  have made': "withOwner (ownWrapped ?msg r) (fillBody (OCSInitialization True)) ob0 =
      Ok (setBody (OCSInitialization True) ob1)"
    using made(2) by (simp add: withOwner_def ownWrapped_def fillBody_def)
  have closure: "(\<lambda>ob. bindM (wrapErr ?msg (liftSum (ownBy False r ob))) (\<lambda>ob. ret (setBody (OCSInitialization True) ob))) =
      (\<lambda>ob. liftOutcome (withOwner (ownWrapped ?msg r) (fillBody (OCSInitialization True)) ob))"
    unfolding wrapped_closure [symmetric] by (simp add: fillBody_def liftOutcome_def ret_def)
  let ?g = "GetAndUpdate x (ocsInitialization r) (\<lambda>ob. bindM (wrapErr ?msg (liftSum (ownBy False r ob)))
          (\<lambda>ob. ret (setBody (OCSInitialization True) ob)))"
  have run: "?g r =
      (Ok (stamp u v (setBody (OCSInitialization True) ob1)), r\<lparr>world := w', calls := calls r @
         [CGet KOCSInitialization (ObjectKeyFromObject (ocsInitialization r))
           (Inr (stamp u v (setBody (OCSInitialization True) ob1)))]\<rparr>)"
    unfolding closure by (rule ocs_init_fill.owned.GetAndUpdate_quiet [OF made(1) made' k get])
  show ?thesis
    by (simp add: reconcileOCSInitialization_def gets_def bindM_step wrapErr_Ok [where m = ?g, OF run] modify_def issued_def)
qed

lemma ocs_initialization_settles_witness:
  "\<exists>ob1. issued (reconcileOCSInitialization sampleOfferingHost) (sampleDF [stamp ''9'' ''1'' (setBody (OCSInitialization True) ob1)]) =
      [CGet KOCSInitialization
         (ObjectKeyFromObject (ocsInitialization (sampleDF [stamp ''9'' ''1'' (setBody (OCSInitialization True) ob1)])))
         (Inr (stamp ''9'' ''1'' (setBody (OCSInitialization True) ob1)))] \<and>
    fst (reconcileOCSInitialization sampleOfferingHost
      (sampleDF [stamp ''9'' ''1'' (setBody (OCSInitialization True) ob1)])) = Ok ()"
proof -
  let ?ob0 = "named KOCSInitialization ''ocsinit'' ''ns''"
  obtain ob1 where own: "ownBy False (sampleDF []) ?ob0 = Inr ob1"
    by (simp add: sampleDF_def Let_def eval_offering eval_objects ownBy_def)
  let ?st = "stamp ''9'' ''1'' (setBody (OCSInitialization True) ob1)" 
  let ?r = "sampleDF [?st]"
  have own': "ownBy False ?r ?ob0 = Inr ob1"
    using own by (simp add: sampleDF_def Let_def ownBy_def eval_offering)
  have key: "ObjectKeyFromObject (ocsInitialization ?r) = (''ocsinit'', ''ns'')" "kind_of (ocsInitialization ?r) = KOCSInitialization"
    by (simp_all add: sampleDF_def Let_def eval_offering named_def ObjectKeyFromObject_def emptyMeta_def kind_of_def)
  have "isAt KOCSInitialization (''ocsinit'', ''ns'') ?st"
    using ownBy_frame [OF own] by (simp add: isAt_def)
  then have found: "mem_Get KOCSInitialization (''ocsinit'', ''ns'') [?st] = (Inr ?st, [?st])"
    by (rule mem_Get_head)
  have "world ?r = [?st]"
    by (simp add: sampleDF_def Let_def initDataFoundation_def offering.defs)
  moreover have "api_Get sampleOfferingHost = mem_Get"
    by (simp add: sampleOfferingHost_def offeringHost_def)
  ultimately have "api_Get sampleOfferingHost KOCSInitialization (ObjectKeyFromObject (ocsInitialization ?r)) (world ?r) = (Inr ?st, [?st])"
    using found by (simp only: key)
  from ocs_initialization_settles [OF _ own' key(2) this] show ?thesis by auto
qed


section \<open>The client's plugin\<close>

lemma dfc_update_calls:
  "calls (storageClient_update f r) = calls r" "calls (defaultBlockStorageClassClaim_update f r) = calls r"
  "calls (defaultFSStorageClassClaim_update f r) = calls r"
  by simp_all

text \<open>
  C34: a storage client is only written with a provider endpoint and an onboarding ticket, neither
  empty, and these are what is written.
\<close>

theorem storage_client_validated:
  assumes k: "kind_of (storageClient r) = KStorageClient"
    and w: "c \<in> set (issued (reconcileStorageClient x) r)" "\<not> is_read c"
  shows "\<exists>ob res. (c = CCreate ob res \<or> c = CUpdate ob res) \<and>
    body ob = StorageClient (OnboardingTicket (dfcSpec r)) (ProviderEndpoint (dfcSpec r)) \<and>
    OnboardingTicket (dfcSpec r) \<noteq> '''' \<and> ProviderEndpoint (dfcSpec r) \<noteq> ''''"
proof -
  let ?m = "createOrUpdateOwned x storageClient storageClient_update (\<lambda>r. fillStorageClient (dfcSpec r))"
  have log: "issued (reconcileStorageClient x) r =
      (if ProviderEndpoint (dfcSpec r) = '''' \<or> OnboardingTicket (dfcSpec r) = '''' then [] else issued ?m r)"
    unfolding reconcileStorageClient_def
    by (auto simp: issued_def gets_def bindM_step fail_def wrapErr_def split: prod.split outcome.split)
  with w have c: "c \<in> set (issued ?m r)"
    and set_: "ProviderEndpoint (dfcSpec r) \<noteq> ''''" "OnboardingTicket (dfcSpec r) \<noteq> ''''"
    by (auto split: if_splits)
  note fill = storage_client_fill.owned.pure_mutator_axioms [where c = True and r = r and spec = "dfcSpec r"]
  have filled: "body ob = StorageClient (OnboardingTicket (dfcSpec r)) (ProviderEndpoint (dfcSpec r))"
    if "withOwner (ownBy True r) (fillStorageClient (dfcSpec r)) ob0 = Ok ob" for ob0 ob
    using that by (auto simp: withOwner_Ok fillStorageClient_def fillBody_def)
  show ?thesis
    by (rule createOrUpdateOwned_write [where field = storageClient and h = "\<lambda>r. fillStorageClient (dfcSpec r)",
          OF fill k dfc_update_calls(1) c w(2)])
      (auto dest!: filled simp: set_)
qed

lemma storage_client_validated_witness:
  "\<exists>c ob res. c \<in> set (issued (reconcileStorageClient sampleOfferingHost) (sampleDFC [])) \<and>
    (c = CCreate ob res \<or> c = CUpdate ob res) \<and>
    body ob = StorageClient (OnboardingTicket (dfcSpec (sampleDFC []))) (ProviderEndpoint (dfcSpec (sampleDFC []))) \<and>
    OnboardingTicket (dfcSpec (sampleDFC [])) \<noteq> '''' \<and> ProviderEndpoint (dfcSpec (sampleDFC [])) \<noteq> ''''"
proof -
  obtain ob res where run: "CCreate ob res \<in> set (issued (reconcileStorageClient sampleOfferingHost) (sampleDFC []))"
    by (rule createsKindE [OF storage_client_run])
  have "kind_of (storageClient (sampleDFC [])) = KStorageClient"
    using sampleDF_kinds(2) by (simp add: dfcKinds_def)
  from storage_client_validated [OF this run] run show ?thesis by auto
qed


text \<open>
  The storage class claims refer to the storage client of the reconciler by its name and
  namespace, one claim for block and one for file storage.
\<close>

theorem storage_class_claims_refer:
  assumes k: "kind_of (defaultBlockStorageClassClaim r) = KStorageClassClaim"
      "kind_of (defaultFSStorageClassClaim r) = KStorageClassClaim"
    and w: "(ty = ''blockpool'' \<and> c \<in> set (issued (reconcileDefaultBlockStorageClassClaim x) r)) \<or>
      (ty = ''sharedfilesystem'' \<and> c \<in> set (issued (reconcileDefaultFSStorageClassClaim x) r))"
    and nr: "\<not> is_read c"
  shows "\<exists>ob res. (c = CCreate ob res \<or> c = CUpdate ob res) \<and>
    body ob = StorageClassClaim \<lparr>scc_Type = ty, scc_StorageClient = Some (ObjectKeyFromObject (storageClient r))\<rparr>"
proof -
  let ?fill = "\<lambda>ty ob. liftOutcome (fillStorageClassClaim ty r ob)"
  have one: "\<exists>ob res. (c = CCreate ob res \<or> c = CUpdate ob res) \<and>
      body ob = StorageClassClaim \<lparr>scc_Type = ty, scc_StorageClient = Some (ObjectKeyFromObject (storageClient r))\<rparr>"
    if "c \<in> set (issued (CreateOrUpdate x claim (?fill ty)) r)" and "kind_of claim = KStorageClassClaim" for claim ty
    by (rule pure_mutator.CreateOrUpdate_log [OF claim_fill.pure_mutator_axioms [of ty r] that(2), of x r])
      (use that(1) nr in \<open>auto simp: fillStorageClassClaim_def fillBody_def\<close>)
  have logs: "issued (reconcileDefaultBlockStorageClassClaim x) r =
      issued (CreateOrUpdate x (defaultBlockStorageClassClaim r) (?fill ''blockpool'')) r"
    "issued (reconcileDefaultFSStorageClassClaim x) r =
      issued (CreateOrUpdate x (defaultFSStorageClassClaim r) (?fill ''sharedfilesystem'')) r"
    unfolding reconcileDefaultBlockStorageClassClaim_def reconcileDefaultFSStorageClassClaim_def
      reconcileStorageClassClaim_def issued_wrapErr
    by (rule createOrUpdate_issued, rule dfc_update_calls)+
  from w show ?thesis
  proof
    assume "ty = ''blockpool'' \<and> c \<in> set (issued (reconcileDefaultBlockStorageClassClaim x) r)"
    then show ?thesis using one [of "defaultBlockStorageClassClaim r" "''blockpool''"] k logs(1) by simp
  next
    assume "ty = ''sharedfilesystem'' \<and> c \<in> set (issued (reconcileDefaultFSStorageClassClaim x) r)"
    then show ?thesis using one [of "defaultFSStorageClassClaim r" "''sharedfilesystem''"] k logs(2) by simp
  qed
qed

lemma storage_class_claims_refer_witness:
  "\<exists>c ob res. c \<in> set (issued (reconcileDefaultBlockStorageClassClaim sampleOfferingHost) (sampleDFC [])) \<and>
    (c = CCreate ob res \<or> c = CUpdate ob res) \<and>
    body ob = StorageClassClaim \<lparr>scc_Type = ''blockpool'',
      scc_StorageClient = Some (ObjectKeyFromObject (storageClient (sampleDFC [])))\<rparr>"
proof -
  obtain ob res where run: "CCreate ob res \<in> set (issued (reconcileDefaultBlockStorageClassClaim sampleOfferingHost) (sampleDFC []))"
    by (rule createsKindE [OF claim_run])
  have k: "kind_of (defaultBlockStorageClassClaim (sampleDFC [])) = KStorageClassClaim"
    "kind_of (defaultFSStorageClassClaim (sampleDFC [])) = KStorageClassClaim"
    using sampleDF_kinds(2) by (simp_all add: dfcKinds_def)
  from storage_class_claims_refer [OF k, of "''blockpool''"] run show ?thesis by fastforce
qed


text \<open>
  For a terminating offering the client's plugin does nothing: it makes no call and succeeds.
\<close>

theorem dfc_terminating_idle:
  assumes "\<not> IsZero (DeletionTimestamp (meta off))"
    and "crdAvailable (offeringCRDs r) storageClientCRDName" "crdAvailable (offeringCRDs r) storageClassClaimCRDName"
  shows "dfcReconcile x off spec r = (Ok noRequeue, r)"
  using assms
  by (simp add: dfcReconcile_def embedded_def dfcReconcilePhases_def requireCRD_def gets_def bindM_step thenM_step
      ret_def initDataFoundationClient_def offering.defs dataFoundationClient.defs Let_def)

lemma dfc_terminating_idle_witness:
  "dfcReconcile sampleOfferingHost (sampleOffering KindDataFoundationClient ''dfc'' [] (Some 5)) dfcGetOfferingSpecInstance
     (freshOffering [storageClientCRDName, storageClassClaimCRDName] []) =
   (Ok noRequeue, freshOffering [storageClientCRDName, storageClassClaimCRDName] [])"
  by (rule dfc_terminating_idle)
    (simp_all add: sampleOffering_def IsZero_def freshOffering_def Let_def crdAvailable_def fmlookup_of_list
      storageClientCRDName_def storageClassClaimCRDName_def)

end
