(* ===== verification/Watches.thy ===== *)
theory Watches
  imports Agent Offering_Reconcile
begin

text \<open>
  Which objects wake a controller: the events of the API server, the watches a controller is
  built with (the builder, handlers and predicates of controller-runtime, vendored under
  \<open>src/vendor\<close>) and the \<open>SetupWithManager\<close> of the two reconcilers with the watches of the
  plugins.
\<close>

section \<open>Events and predicates\<close>

text \<open>An update carries the old and the new object.\<close>

datatype event = CreateEvent obj | UpdateEvent obj obj | DeleteEvent obj

fun event_kind :: "event \<Rightarrow> kind" where
  "event_kind (CreateEvent ob) = kind_of ob"
| "event_kind (UpdateEvent old new) = kind_of new"
| "event_kind (DeleteEvent ob) = kind_of ob"

text \<open>\<open>predicate.NewPredicateFuncs\<close>: the filter sees the new object of an update.\<close>

fun NewPredicateFuncs :: "(obj \<Rightarrow> bool) \<Rightarrow> event \<Rightarrow> bool" where
  "NewPredicateFuncs ok (CreateEvent ob) = ok ob"
| "NewPredicateFuncs ok (UpdateEvent old new) = ok new"
| "NewPredicateFuncs ok (DeleteEvent ob) = ok ob"

type_synonym predicate = "event \<Rightarrow> bool"

section \<open>Handlers\<close>

text \<open>
  \<open>EnqueueRequestForOwner\<close> always has \<open>IsController\<close> set here, as the builder makes it. The
  mapper of the API server says whether a resource is namespaced; a lookup may fail.
\<close>

datatype eventHandler =
    EnqueueRequestForObject
  | EnqueueRequestForOwner kind
  | EnqueueRequestsFromMapFunc "obj \<Rightarrow> nname list"

type_synonym rest_mapper = "gvk \<Rightarrow> bool option"

definition getOwnerReconcileRequest :: "rest_mapper \<Rightarrow> scheme \<Rightarrow> kind \<Rightarrow> obj \<Rightarrow> nname list" where
  "getOwnerReconcileRequest mapper sch ownerType ob =
     (case GetControllerOf (OwnerReferences (meta ob)) of
        None \<Rightarrow> []
      | Some ref \<Rightarrow>
          (case ParseGroupVersion (or_APIVersion ref) of
             None \<Rightarrow> []
           | Some (refGroup, refVersion) \<Rightarrow>
               (case sch ownerType of
                  None \<Rightarrow> []
                | Some (grp, ver, knd) \<Rightarrow>
                    if or_Kind ref = knd \<and> refGroup = grp then
                      (case mapper (grp, refVersion, knd) of
                         None \<Rightarrow> []
                       | Some namespaced \<Rightarrow>
                           [(or_Name ref, if namespaced then Namespace (meta ob) else '''')])
                    else [])))"

text \<open>The requests of an event, each once.\<close>

fun objectsOf :: "event \<Rightarrow> obj list" where
  "objectsOf (CreateEvent ob) = [ob]"
| "objectsOf (UpdateEvent old new) = [old, new]"
| "objectsOf (DeleteEvent ob) = [ob]"

fun requestOfObject :: "event \<Rightarrow> nname" where
  "requestOfObject (CreateEvent ob) = ObjectKeyFromObject ob"
| "requestOfObject (UpdateEvent old new) = ObjectKeyFromObject new"
| "requestOfObject (DeleteEvent ob) = ObjectKeyFromObject ob"

definition handle :: "rest_mapper \<Rightarrow> scheme \<Rightarrow> eventHandler \<Rightarrow> event \<Rightarrow> nname list" where
  "handle mapper sch h ev =
     (case h of
        EnqueueRequestForObject \<Rightarrow> [requestOfObject ev]
      | EnqueueRequestForOwner ownerType \<Rightarrow>
          remdups (concat (map (getOwnerReconcileRequest mapper sch ownerType) (objectsOf ev)))
      | EnqueueRequestsFromMapFunc fn \<Rightarrow> remdups (concat (map fn (objectsOf ev))))"

section \<open>The builder\<close>

record watch =
  w_kind :: kind
  w_handler :: eventHandler
  w_predicates :: "predicate list"

text \<open>\<open>Builder\<close>; \<open>forErr\<close> records a second call of \<open>For\<close>.\<close>

record Builder =
  forInput :: "(kind \<times> predicate list) option"
  forErr :: bool
  ownsInput :: "(kind \<times> predicate list) list"
  watchesInput :: "watch list"
  MaxConcurrentReconciles :: int

definition ControllerManagedBy :: Builder where
  "ControllerManagedBy = \<lparr>forInput = None, forErr = False, ownsInput = [], watchesInput = [],
     MaxConcurrentReconciles = 0\<rparr>"

definition For :: "kind \<Rightarrow> predicate list \<Rightarrow> Builder \<Rightarrow> Builder" where
  "For k ps b =
     (if forInput b \<noteq> None then b\<lparr>forErr := True\<rparr> else b\<lparr>forInput := Some (k, ps)\<rparr>)"

definition Owns :: "kind \<Rightarrow> predicate list \<Rightarrow> Builder \<Rightarrow> Builder" where
  "Owns k ps b = b\<lparr>ownsInput := ownsInput b @ [(k, ps)]\<rparr>"

definition Watches :: "kind \<Rightarrow> eventHandler \<Rightarrow> predicate list \<Rightarrow> Builder \<Rightarrow> Builder" where
  "Watches k h ps b =
     b\<lparr>watchesInput := watchesInput b @ [\<lparr>w_kind = k, w_handler = h, w_predicates = ps\<rparr>]\<rparr>"

definition WithOptions :: "int \<Rightarrow> Builder \<Rightarrow> Builder" where
  "WithOptions n b = b\<lparr>MaxConcurrentReconciles := n\<rparr>"

text \<open>\<open>doWatch\<close>: the reconciled type, the owned types, then the other watches.\<close>

definition doWatch :: "kind \<Rightarrow> predicate list \<Rightarrow> Builder \<Rightarrow> watch list" where
  "doWatch forType ps b =
     \<lparr>w_kind = forType, w_handler = EnqueueRequestForObject, w_predicates = ps\<rparr> #
     map (\<lambda>(k, qs). \<lparr>w_kind = k, w_handler = EnqueueRequestForOwner forType, w_predicates = qs\<rparr>)
       (ownsInput b) @
     watchesInput b"

text \<open>\<open>Complete\<close>, up to the manager, which starts a controller with the watches.\<close>

record controllerSpec =
  c_workers :: int
  c_watches :: "watch list"

definition Complete :: "Builder \<Rightarrow> gerror + controllerSpec" where
  "Complete b =
     (if forErr b then Inl (ErrorNew ''For(...) should only be called once'')
      else case forInput b of
             None \<Rightarrow> Inl (ErrorNew ''must provide an object for reconciliation'')
           | Some (forType, ps) \<Rightarrow>
               Inr \<lparr>c_workers = (if MaxConcurrentReconciles b \<le> 0 then 1 else MaxConcurrentReconciles b), c_watches = doWatch forType ps b\<rparr>)"

text \<open>The requests an event puts into the queue of a controller.\<close>

definition enqueued :: "rest_mapper \<Rightarrow> scheme \<Rightarrow> watch list \<Rightarrow> event \<Rightarrow> nname list" where
  "enqueued mapper sch ws ev =
     concat (map (\<lambda>w. handle mapper sch (w_handler w) ev)
       (filter (\<lambda>w. w_kind w = event_kind ev \<and> list_all (\<lambda>p. p ev) (w_predicates w)) ws))"

section \<open>The agent\<close>

definition managedFusionSecretPredicates :: "('w, 'z) agent_scheme \<Rightarrow> predicate" where
  "managedFusionSecretPredicates r = NewPredicateFuncs (\<lambda>ob.
     Name (meta ob) = managedFusionSecretName \<and> Namespace (meta ob) = agentNamespace r)"

text \<open>A read of a missing key is the empty string.\<close>

definition monResourcesPredicates :: predicate where
  "monResourcesPredicates = NewPredicateFuncs (\<lambda>ob.
     Labels (meta ob) = None \<or>
     (case goMapGet (Labels (meta ob)) monLabelKey of None \<Rightarrow> '''' | Some v \<Rightarrow> v) \<noteq> monLabelValue)"

definition enqueueManagedFusionAgentRequest :: "('w, 'z) agent_scheme \<Rightarrow> eventHandler" where
  "enqueueManagedFusionAgentRequest r =
     EnqueueRequestsFromMapFunc (\<lambda>ob. [(managedFusionSecretName, agentNamespace r)])"

text \<open>\<open>SetupWithManager\<close>; \<open>ctrlOptions\<close> is the number of workers asked for, if any.\<close>

definition agentSetupWithManager ::
  "('w, 'z) agent_scheme \<Rightarrow> int option \<Rightarrow> gerror + controllerSpec" where
  "agentSetupWithManager r ctrlOptions =
     (let workers = (case ctrlOptions of None \<Rightarrow> 1 | Some n \<Rightarrow> n);
          monWatch = (\<lambda>k. Watches k (enqueueManagedFusionAgentRequest r) [monResourcesPredicates]);
          b = ControllerManagedBy;
          b = WithOptions workers b;
          b = For KSecret [managedFusionSecretPredicates r] b;
          b = Owns KPrometheus [] b;
          b = Owns KAlertmanager [] b;
          b = Owns KSecret [] b;
          b = Owns KAlertmanagerConfig [] b;
          b = Owns KConfigMap [] b;
          b = Owns KService [] b;
          b = Owns KServiceMonitor [] b;
          b = Owns KNetworkPolicy [] b;
          b = monWatch KPodMonitor b;
          b = monWatch KServiceMonitor b;
          b = monWatch KPrometheusRule b;
          b = (if crdAvailable (AvailableCRDs r) EgressFirewallCRD
               then Owns KEgressFirewall [] b else b);
          b = (if crdAvailable (AvailableCRDs r) EgressNetworkPolicyCRD
               then Owns KEgressNetworkPolicy [] b else b)
      in Complete b)"

section \<open>The offerings and their plugins\<close>

definition csvPredicates :: "string \<Rightarrow> predicate" where
  "csvPredicates name = NewPredicateFuncs (\<lambda>ob. HasPrefix (Name (meta ob)) name)"

definition dfSetupWatches :: "('w, 'z) offering_scheme \<Rightarrow> Builder \<Rightarrow> Builder" where
  "dfSetupWatches r b =
     (let b = Owns KSecret [] b;
          b = Owns KNetworkPolicy [] b;
          b = Owns KConfigMap [] b;
          b = Owns KClusterServiceVersion [csvPredicates ocsOperatorName] b;
          b = (if crdAvailable (offeringCRDs r) storageClusterCRDName
               then Owns KStorageCluster [] b else b)
      in (if crdAvailable (offeringCRDs r) ocsInitializationCRDName
          then Owns KOCSInitialization [] b else b))"

definition dfcSetupWatches :: "('w, 'z) offering_scheme \<Rightarrow> Builder \<Rightarrow> Builder" where
  "dfcSetupWatches r b =
     (let b = Owns KClusterServiceVersion [csvPredicates ocsClientOperatorName] b;
          b = Owns KConfigMap [] b;
          b = Owns KClusterServiceVersion [csvPredicates ocsClientOperatorName] b;
          b = (if crdAvailable (offeringCRDs r) storageClientCRDName
               then Owns KStorageClient [] b else b)
      in (if crdAvailable (offeringCRDs r) storageClassClaimCRDName
          then Owns KStorageClassClaim [] b else b))"

definition pluginSetupWatches :: "('w, 'z) offering_scheme \<Rightarrow> Builder \<Rightarrow> Builder" where
  "pluginSetupWatches r b = dfcSetupWatches r (dfSetupWatches r b)"

text \<open>The options are not looked at.\<close>

definition offeringSetupWithManager ::
  "('w, 'z) offering_scheme \<Rightarrow> int option \<Rightarrow> gerror + controllerSpec" where
  "offeringSetupWithManager r ctrlOptions =
     (let b = ControllerManagedBy;
          b = For KManagedFusionOffering [] b;
          b = Owns KOperatorGroup [] b;
          b = Owns KCatalogSource [] b;
          b = Owns KSubscription [] b
      in Complete (pluginSetupWatches r b))"

end
