(* ===== verification/Watch_Runs.thy ===== *)
theory Watch_Runs
  imports Watches Agent_Runs
begin

text \<open>
  What a watch sees of the objects the agent's reconciler writes: every one of them is the
  configuration secret or an object the secret controls, of a kind the agent watches.
\<close>

section \<open>Requests of controlled objects\<close>

text \<open>The controller of an object is the object of a type and key.\<close>

definition controlledBy :: "gvk \<Rightarrow> nname \<Rightarrow> obj \<Rightarrow> bool" where
  "controlledBy g key ob \<longleftrightarrow>
     (case g of (grp, ver, knd) \<Rightarrow>
        \<exists>ref. GetControllerOf (OwnerReferences (meta ob)) = Some ref \<and>
          ParseGroupVersion (or_APIVersion ref) = Some (grp, ver) \<and> or_Kind ref = knd \<and>
          (or_Name ref, Namespace (meta ob)) = key)"

lemma controlledBy_cong:
  "OwnerReferences (meta a) = OwnerReferences (meta b) \<Longrightarrow> Namespace (meta a) = Namespace (meta b) \<Longrightarrow>
   controlledBy g key a = controlledBy g key b"
  by (simp add: controlledBy_def)

lemma controlledBy_request:
  "controlledBy g key ob \<Longrightarrow> sch ownerType = Some g \<Longrightarrow> mapper g = Some True \<Longrightarrow>
   getOwnerReconcileRequest mapper sch ownerType ob = [key]"
  by (cases g) (auto simp: controlledBy_def getOwnerReconcileRequest_def)

text \<open>Without a controller there is no request.\<close>

lemma uncontrolled_request:
  "GetControllerOf (OwnerReferences (meta ob)) = None \<Longrightarrow> getOwnerReconcileRequest mapper sch ownerType ob = []"
  by (simp add: getOwnerReconcileRequest_def)

lemma enqueued_iff:
  "q \<in> set (enqueued mapper sch ws ev) \<longleftrightarrow>
     (\<exists>w\<in>set ws. w_kind w = event_kind ev \<and> list_all (\<lambda>p. p ev) (w_predicates w) \<and>
        q \<in> set (handle mapper sch (w_handler w) ev))"
  by (auto simp: enqueued_def)

text \<open>An owned type without predicates: an event of a controlled object wakes its controller.\<close>

lemma owned_wakes:
  assumes "\<lparr>w_kind = event_kind ev, w_handler = EnqueueRequestForOwner ownerType, w_predicates = []\<rparr> \<in> set ws"
    and "ob \<in> set (objectsOf ev)" and "controlledBy g key ob"
    and "sch ownerType = Some g" and "mapper g = Some True"
  shows "key \<in> set (enqueued mapper sch ws ev)"
  unfolding enqueued_iff
  using assms controlledBy_request [where mapper = mapper and sch = sch, OF assms(3,4)]
  by (intro bexI [OF _ assms(1)]) (auto simp: handle_def intro!: bexI [of _ ob])

section \<open>The agent's watches\<close>

definition secretGVK :: gvk where
  "secretGVK = ('''', ''v1'', ''Secret'')"

definition offeringGVK :: gvk where
  "offeringGVK = (''misf.ibm.com'', ''v1alpha1'', ''ManagedFusionOffering'')"

definition agentOwned :: "(string, bool) fmap \<Rightarrow> kind set" where
  "agentOwned crds =
     {KPrometheus, KAlertmanager, KSecret, KAlertmanagerConfig, KConfigMap, KService, KServiceMonitor,
      KNetworkPolicy} \<union>
     (if crdAvailable crds EgressFirewallCRD then {KEgressFirewall} else {}) \<union>
     (if crdAvailable crds EgressNetworkPolicyCRD then {KEgressNetworkPolicy} else {})"

text \<open>The builder field by field.\<close>

lemma builder_simps [simp]:
  "forInput (Owns k ps b) = forInput b" "forErr (Owns k ps b) = forErr b"
  "ownsInput (Owns k ps b) = ownsInput b @ [(k, ps)]" "watchesInput (Owns k ps b) = watchesInput b"
  "MaxConcurrentReconciles (Owns k ps b) = MaxConcurrentReconciles b"
  "forInput (Watches k h ps b) = forInput b" "forErr (Watches k h ps b) = forErr b"
  "ownsInput (Watches k h ps b) = ownsInput b"
  "watchesInput (Watches k h ps b) = watchesInput b @ [\<lparr>w_kind = k, w_handler = h, w_predicates = ps\<rparr>]"
  "MaxConcurrentReconciles (Watches k h ps b) = MaxConcurrentReconciles b"
  by (simp_all add: Owns_def Watches_def)

lemma builder_start:
  "forInput (For k ps ControllerManagedBy) = Some (k, ps)" "forErr (For k ps ControllerManagedBy) = False"
  "ownsInput (For k ps ControllerManagedBy) = []" "watchesInput (For k ps ControllerManagedBy) = []"
  "forInput (For k ps (WithOptions n ControllerManagedBy)) = Some (k, ps)"
  "forErr (For k ps (WithOptions n ControllerManagedBy)) = False"
  "ownsInput (For k ps (WithOptions n ControllerManagedBy)) = []"
  "watchesInput (For k ps (WithOptions n ControllerManagedBy)) = []"
  by (simp_all add: For_def ControllerManagedBy_def WithOptions_def)

lemma builder_if:
  "forInput (if c then a else b) = (if c then forInput a else forInput b)"
  "forErr (if c then a else b) = (if c then forErr a else forErr b)"
  "ownsInput (if c then a else b) = (if c then ownsInput a else ownsInput b)"
  "watchesInput (if c then a else b) = (if c then watchesInput a else watchesInput b)"
  by simp_all

lemma Complete_watches:
  "Complete b = Inr spec \<Longrightarrow> \<exists>forType ps. forInput b = Some (forType, ps) \<and> c_watches spec = doWatch forType ps b"
  by (auto simp: Complete_def split: if_splits option.splits)

lemma doWatch_mem:
  "\<lparr>w_kind = k, w_handler = EnqueueRequestForOwner forType, w_predicates = qs\<rparr> \<in> set (doWatch forType ps b)"
    if "(k, qs) \<in> set (ownsInput b)"
  using that by (force simp: doWatch_def)

lemma doWatch_for:
  "\<lparr>w_kind = forType, w_handler = EnqueueRequestForObject, w_predicates = ps\<rparr> \<in> set (doWatch forType ps b)"
  by (simp add: doWatch_def)

lemma agent_builder:
  assumes "agentSetupWithManager r opts = Inr spec"
  obtains b where "c_watches spec = doWatch KSecret [managedFusionSecretPredicates r] b"
    and "ownsInput b = map (\<lambda>k. (k, []))
      ([KPrometheus, KAlertmanager, KSecret, KAlertmanagerConfig, KConfigMap, KService, KServiceMonitor, KNetworkPolicy] @
       (if crdAvailable (AvailableCRDs r) EgressFirewallCRD then [KEgressFirewall] else []) @
       (if crdAvailable (AvailableCRDs r) EgressNetworkPolicyCRD then [KEgressNetworkPolicy] else []))"
proof -
  obtain b where b: "Complete b = Inr spec" and *: "forInput b = Some (KSecret, [managedFusionSecretPredicates r])"
    "ownsInput b = map (\<lambda>k. (k, []))
      ([KPrometheus, KAlertmanager, KSecret, KAlertmanagerConfig, KConfigMap, KService, KServiceMonitor, KNetworkPolicy] @
       (if crdAvailable (AvailableCRDs r) EgressFirewallCRD then [KEgressFirewall] else []) @
       (if crdAvailable (AvailableCRDs r) EgressNetworkPolicyCRD then [KEgressNetworkPolicy] else []))"
    by (rule that [OF assms [unfolded agentSetupWithManager_def Let_def]])
      (simp_all add: builder_if builder_start)
  from Complete_watches [OF b] * have "c_watches spec = doWatch KSecret [managedFusionSecretPredicates r] b" by auto
  then show thesis using *(2) by (rule that)
qed

lemma agent_owns:
  assumes "agentSetupWithManager r opts = Inr spec" and "k \<in> agentOwned (AvailableCRDs r)"
  shows "\<lparr>w_kind = k, w_handler = EnqueueRequestForOwner KSecret, w_predicates = []\<rparr> \<in> set (c_watches spec)"
proof -
  obtain b where b: "c_watches spec = doWatch KSecret [managedFusionSecretPredicates r] b"
    "ownsInput b = map (\<lambda>k. (k, []))
      ([KPrometheus, KAlertmanager, KSecret, KAlertmanagerConfig, KConfigMap, KService, KServiceMonitor, KNetworkPolicy] @
       (if crdAvailable (AvailableCRDs r) EgressFirewallCRD then [KEgressFirewall] else []) @
       (if crdAvailable (AvailableCRDs r) EgressNetworkPolicyCRD then [KEgressNetworkPolicy] else []))"
    by (rule agent_builder [OF assms(1)])
  show ?thesis
    unfolding b(1) using assms(2) by (intro doWatch_mem) (auto simp: b(2) agentOwned_def split: if_splits)
qed

lemma agent_reconciles_secret:
  assumes "agentSetupWithManager r opts = Inr spec"
  shows "\<lparr>w_kind = KSecret, w_handler = EnqueueRequestForObject,
    w_predicates = [managedFusionSecretPredicates r]\<rparr> \<in> set (c_watches spec)"
  by (rule agent_builder [OF assms]) (simp add: doWatch_for)

text \<open>An object that wakes the agent: the secret itself, or an owned object it controls.\<close>

definition wakesAgent :: "string \<Rightarrow> (string, bool) fmap \<Rightarrow> obj \<Rightarrow> bool" where
  "wakesAgent ns crds ob \<longleftrightarrow>
     keyOf ob = (KSecret, managedFusionSecretName, ns) \<or>
     kind_of ob \<in> agentOwned crds \<and> controlledBy secretGVK (managedFusionSecretName, ns) ob"

text \<open>The events of a write: its creation, its update from any older object, its deletion.\<close>

definition eventsOf :: "obj \<Rightarrow> event \<Rightarrow> bool" where
  "eventsOf ob ev \<longleftrightarrow> ev = CreateEvent ob \<or> (\<exists>old. ev = UpdateEvent old ob) \<or> ev = DeleteEvent ob"

lemma wakesAgent_enqueues:
  assumes built: "agentSetupWithManager r opts = Inr spec" and mapper: "mapper secretGVK = Some True"
    and ob: "wakesAgent (agentNamespace r) (AvailableCRDs r) ob" and ev: "eventsOf ob ev"
  shows "(managedFusionSecretName, agentNamespace r) \<in> set (enqueued mapper agentScheme (c_watches spec) ev)"
proof -
  have k: "event_kind ev = kind_of ob" and mem: "ob \<in> set (objectsOf ev)"
    and req: "requestOfObject ev = ObjectKeyFromObject ob"
    and flt: "NewPredicateFuncs p ev = p ob" for p
    using ev by (auto simp: eventsOf_def)
  from ob show ?thesis
    unfolding wakesAgent_def
  proof
    assume key: "keyOf ob = (KSecret, managedFusionSecretName, agentNamespace r)"
    then show ?thesis
      unfolding enqueued_iff
      by (intro bexI [OF _ agent_reconciles_secret [OF built]])
        (auto simp: k req flt handle_def keyOf_def managedFusionSecretPredicates_def ObjectKeyFromObject_def)
  next
    assume *: "kind_of ob \<in> agentOwned (AvailableCRDs r) \<and>
      controlledBy secretGVK (managedFusionSecretName, agentNamespace r) ob"
    show ?thesis
    proof (rule owned_wakes [OF _ mem])
      show "\<lparr>w_kind = event_kind ev, w_handler = EnqueueRequestForOwner KSecret, w_predicates = []\<rparr> \<in> set (c_watches spec)"
        unfolding k using agent_owns [OF built] * by blast
    qed (use * mapper in \<open>auto simp: secretGVK_def\<close>)
  qed
qed

section \<open>What the agent writes\<close>

definition awake :: "string \<Rightarrow> (string, bool) fmap \<Rightarrow> 'w agent \<Rightarrow> bool" where
  "awake ns crds r \<longleftrightarrow> agentKeyed ns r \<and> AvailableCRDs r = crds"

lemma awake_stable [simp]: "env_stable (awake ns crds)"
  by (auto simp: env_stable_def awake_def agentKeyed_def)

abbreviation wakesWrites :: "string \<Rightarrow> (string, bool) fmap \<Rightarrow> call \<Rightarrow> bool" where
  "wakesWrites ns crds \<equiv> writes_only (wakesAgent ns crds)"

abbreviation woken :: "string \<Rightarrow> (string, bool) fmap \<Rightarrow> ('w, 'a) agent_prog \<Rightarrow> bool" where
  "woken ns crds m \<equiv> emits (awake ns crds) (wakesWrites ns crds) m"

text \<open>\<open>own\<close> makes the secret the controller.\<close>

lemma own_controlled:
  assumes r: "agentKeyed ns r" and ns: "ns \<noteq> ''''" and own: "own r ob = Inr ob'"
  shows "controlledBy secretGVK (managedFusionSecretName, ns) ob'"
proof -
  have sec: "kind_of (managedFusionSecret r) = KSecret" "Name (meta (managedFusionSecret r)) = managedFusionSecretName"
    "Namespace (meta (managedFusionSecret r)) = ns"
    using r by (auto simp: agentKeyed_def keyOf_def ObjectKeyFromObject_def)
  let ?ref = "controllerRef secretGVK (managedFusionSecret r)"
  have sch: "agentScheme (kind_of (managedFusionSecret r)) = Some secretGVK"
    by (simp add: sec secretGVK_def)
  have valid: "validateOwner (managedFusionSecret r) ob = None"
    and ctl: "case GetControllerOf (OwnerReferences (meta ob)) of None \<Rightarrow> True | Some e \<Rightarrow> referSameObject e ?ref"
    and ob': "ob' = upsertOwnerRef ?ref ob"
    using own unfolding own_def SetControllerReference_Inr sch by auto
  have "Namespace (meta ob) = ns"
    using valid sec(3) ns by (auto simp: validateOwner_def Let_def split: if_splits)
  moreover have "GetControllerOf (upserted ?ref (OwnerReferences (meta ob))) = Some ?ref"
    by (rule GetControllerOf_upserted [OF _ ctl]) (simp add: isControllerRef_def controllerRef_def secretGVK_def)
  ultimately show ?thesis
    by (simp add: ob' upsertOwnerRef_upserted controlledBy_def secretGVK_def controllerRef_def sec
        GroupVersion_String_def ParseGroupVersion_def)
qed

text \<open>A closure whose result is owned: the owner is set first, then the contents.\<close>

abbreviation controlledIn :: "string \<Rightarrow> kind \<Rightarrow> obj \<Rightarrow> bool" where
  "controlledIn ns k ob \<equiv> kind_of ob = k \<and> controlledBy secretGVK (managedFusionSecretName, ns) ob"

lemma controlledBy_setBody [simp]: "controlledBy g key (setBody bd ob) = controlledBy g key ob"
  by (rule controlledBy_cong) simp_all

lemma controlledBy_AddLabel [simp]: "controlledBy g key (AddLabel ob l v) = controlledBy g key ob"
  by (rule controlledBy_cong) (simp_all add: AddLabel_def setLabels_def)

lemma owned_controlled:
  assumes h: "content_setter k (h r)" and r: "agentKeyed ns r" and ns: "ns \<noteq> ''''"
    and o1: "kind_of o1 = k" and made: "withOwner (own r) (h r) o1 = Ok o2"
  shows "controlledIn ns k o2"
proof -
  obtain o' where own: "own r o1 = Inr o'" and o2: "h r o' = Ok o2"
    using made by (auto simp: withOwner_def split: sum.splits)
  have k: "kind_of o' = k" using own_kind [OF own] o1 by simp
  have "ObjectKeyFromObject o2 = ObjectKeyFromObject o'" by (rule content_setter.h_key [OF h k o2])
  then have "controlledBy secretGVK (managedFusionSecretName, ns) o2"
    using own_controlled [OF r ns own] content_setter.h_owners [OF h k o2]
    by (subst controlledBy_cong [of o2 o']) (simp_all add: ObjectKeyFromObject_def)
  then show ?thesis using content_setter.h_kind [OF h k o2] by simp
qed

lemma woken_createOrUpdate:
  assumes x: "answers_keyed x"
    and field: "\<And>r. awake ns crds r \<Longrightarrow> keyOf (field r) = (k, key)" and k: "k \<in> agentOwned crds"
    and f: "\<And>r ob. emits (awake ns crds) (wakesWrites ns crds) (f r ob)"
    and y: "\<And>r o1. awake ns crds r \<Longrightarrow> kind_of o1 = k \<Longrightarrow> yields (controlledIn ns k) (f r o1)"
    and upd: "\<And>r ob. awake ns crds r \<Longrightarrow> keyOf ob = (k, key) \<Longrightarrow> awake ns crds (upd (\<lambda>_. ob) r)"
    and calls: "\<And>r ob. calls (upd (\<lambda>_. ob) r) = calls r"
  shows "woken ns crds (createOrUpdate x field upd f :: ('w, unit) agent_prog)"
  unfolding createOrUpdate_def
proof (rule emits_bindM_post [where P = "awake ns crds"])
  fix r :: "'w agent" assume r: "awake ns crds r"
  have fk: "kind_of (field r) = k" "ObjectKeyFromObject (field r) = key"
    using field [OF r] by (simp_all add: keyOf_def)
  have yk: "yields (\<lambda>o2. kind_of o2 = kind_of (field r)) (f r o1)" if "kind_of o1 = kind_of (field r)" for o1
    by (rule yields_weaken [OF y [OF r]]) (use that fk in simp_all)
  have yw: "yields (wakesAgent ns crds) (f r o1)" if "kind_of o1 = kind_of (field r)" for o1
    by (rule yields_weaken [OF y [OF r]]) (use that fk k in \<open>simp_all add: wakesAgent_def\<close>)
  show "woken ns crds (bindM (CreateOrUpdate x (field r) (f r)) (\<lambda>(_, ob). modify (upd (\<lambda>_. ob))))"
  proof (rule emits_bindM_yields)
    show "woken ns crds (CreateOrUpdate x (field r) (f r))"
      by (rule emits_CreateOrUpdate_writes [OF awake_stable f yw])
    show "yields (\<lambda>(_, ob'). ObjectKeyFromObject ob' = ObjectKeyFromObject (field r) \<and> kind_of ob' = kind_of (field r))
      (CreateOrUpdate x (field r) (f r))"
      by (rule CreateOrUpdate_key [OF x yk])
    show "woken ns crds (case p of (_, ob) \<Rightarrow> modify (upd (\<lambda>_. ob)))"
      if "case p of (_, ob') \<Rightarrow> ObjectKeyFromObject ob' = ObjectKeyFromObject (field r) \<and> kind_of ob' = kind_of (field r)" for p
      using that by (cases p) (auto simp: fk keyOf_def intro!: emits_modify upd calls)
  qed
qed (rule emits_gets, simp add: gets_def)

lemma woken_createOrUpdatePure:
  assumes h: "\<And>r. content_setter k (h r)" and ns: "ns \<noteq> ''''" and "answers_keyed x"
    and "\<And>r. awake ns crds r \<Longrightarrow> keyOf (field r) = (k, key)" and "k \<in> agentOwned crds"
    and "\<And>r ob. awake ns crds r \<Longrightarrow> keyOf ob = (k, key) \<Longrightarrow> awake ns crds (upd (\<lambda>_. ob) r)"
    and "\<And>r ob. calls (upd (\<lambda>_. ob) r) = calls r"
  shows "woken ns crds (createOrUpdatePure x field upd h :: ('w, unit) agent_prog)"
  unfolding createOrUpdatePure_def
proof (rule woken_createOrUpdate [where k = k and key = key])
  show "yields (controlledIn ns k) (liftOutcome (withOwner (own r) (h r) o1))"
    if "awake ns crds r" and "kind_of o1 = k" for r :: "'w agent" and o1
    using that by (intro yields_liftOutcome) (auto simp: awake_def dest: owned_controlled [where h = h, OF h _ ns])
qed (fact assms emits_liftOutcome)+

lemma woken_reads:
  "woken ns crds (client_get x k key)" "woken ns crds (client_list x k n lim)"
    "woken ns crds (csvInNamespace x n' name)" "woken ns crds (host_readFile h path)"
  by (intro emits_client_get emits_client_list emits_csvInNamespace emits_host_readFile awake_stable; simp)+

lemma woken_egress: "woken ns crds (getEgressFirewallDesiredState x)"
  unfolding getEgressFirewallDesiredState_def by (intro emits_rules woken_reads)

lemmas woken_rules = emits_rules woken_reads woken_egress

lemmas woken_pure =
  woken_createOrUpdatePure [OF relabel_secret_fill.content_setter_axioms]
  woken_createOrUpdatePure [OF rbac_config_fill.content_setter_axioms]
  woken_createOrUpdatePure [OF prometheus_service_fill.content_setter_axioms]
  woken_createOrUpdatePure [OF alertmanager_fill.content_setter_axioms]
  woken_createOrUpdatePure [OF alertmanager_secret_fill.content_setter_axioms]
  woken_createOrUpdatePure [OF metrics_monitor_fill.content_setter_axioms]
  woken_createOrUpdatePure [OF proxy_policy_fill.content_setter_axioms]

lemma woken_pure_resources:
  assumes ns: "ns \<noteq> ''''" and x: "answers_keyed x"
  shows "woken ns crds (reconcileAlertRelabelConfigSecret x)"
    "woken ns crds (reconcilePrometheusKubeRBACConfigMap x)"
    "woken ns crds (reconcilePrometheusService x)"
    "woken ns crds (reconcileAlertmanager x)"
    "woken ns crds (reconcileAlertmanagerSecret x)"
    "woken ns crds (reconcileK8SMetricsServiceMonitor x)"
    "woken ns crds (reconcilePrometheusProxyNetworkPolicy x)"
  unfolding reconcileAlertRelabelConfigSecret_def reconcilePrometheusKubeRBACConfigMap_def
    reconcilePrometheusService_def reconcileAlertmanager_def reconcileAlertmanagerSecret_def
    reconcileK8SMetricsServiceMonitor_def reconcilePrometheusProxyNetworkPolicy_def
  by (intro emits_wrapErr woken_pure [OF ns x]; simp add: awake_def agentKeyed_def agentOwned_def)+

text \<open>In the closures with effects, the owner's step comes first.\<close>

lemma yields_own:
  assumes r: "awake ns crds r" and ns: "ns \<noteq> ''''" and o1: "kind_of o1 = k"
    and k: "\<And>ob. controlledIn ns k ob \<Longrightarrow> yields P (m ob)"
  shows "yields P (bindM (liftSum (own r o1)) m)"
proof (rule yields_bindM [OF _ k])
  show "yields (controlledIn ns k) (liftSum (own r o1))"
  proof (rule yields_liftSum)
    fix ob assume own: "own r o1 = Inr ob"
    show "controlledIn ns k ob"
      using own_kind [OF own] own_controlled [OF _ ns own] r o1 by (simp add: awake_def)
  qed
qed

lemma woken_effect_resources:
  assumes ns: "ns \<noteq> ''''" and x: "answers_keyed x"
  shows "woken ns crds (reconcilePrometheus x)" "woken ns crds (reconcileAlertmanagerConfig x)"
  unfolding reconcilePrometheus_def reconcileAlertmanagerConfig_def getCSVByPrefix_def Let_def
  by (intro emits_wrapErr woken_createOrUpdate [OF x, where k = KPrometheus and key = "(prometheusName, ns)"]
      woken_createOrUpdate [OF x, where k = KAlertmanagerConfig and key = "(alertmanagerConfigName, ns)"]
      woken_rules yields_own [OF _ ns] yields_last;
      (auto simp: awake_def agentKeyed_def agentOwned_def)?)+

lemma woken_gets_if:
  assumes "\<And>r. awake ns crds r \<Longrightarrow> f r \<longleftrightarrow> b" and "b \<Longrightarrow> woken ns crds m"
  shows "woken ns crds (bindM (gets f) (\<lambda>available. if \<not> available then ret () else m))"
  by (rule emits_bindM_post [where P = "\<lambda>a. a \<longleftrightarrow> b"])
    (auto simp: gets_def assms intro: emits_gets [unfolded gets_def] emits_ret)

lemma woken_egress_resources:
  assumes ns: "ns \<noteq> ''''" and x: "answers_keyed x"
  shows "woken ns crds (reconcileEgressFirewall x)" "woken ns crds (reconcileEgressNetworkPolicy x)"
  unfolding reconcileEgressFirewall_def reconcileEgressNetworkPolicy_def
  by (rule woken_gets_if [where b = "crdAvailable crds EgressFirewallCRD"]
      woken_gets_if [where b = "crdAvailable crds EgressNetworkPolicyCRD"], simp add: awake_def,
     (intro emits_wrapErr woken_createOrUpdate [OF x, where k = KEgressFirewall and key = "(egressFirewallName, ns)"]
      woken_createOrUpdate [OF x, where k = KEgressNetworkPolicy and key = "(egressNetworkPolicyName, ns)"]
      woken_rules yields_own [OF _ ns] yields_last;
      (auto simp: awake_def agentKeyed_def agentOwned_def)?))+

lemma woken_resourcePhases:
  assumes "ns \<noteq> ''''" and "answers_keyed x"
  shows "woken ns crds (resourcePhases x)"
  unfolding resourcePhases_def
  by (intro emits_thenM woken_pure_resources woken_effect_resources woken_egress_resources assms)

section \<open>A whole run\<close>

definition wakesCall :: "string \<Rightarrow> (string, bool) fmap \<Rightarrow> call \<Rightarrow> bool" where
  "wakesCall ns crds c \<longleftrightarrow>
     (\<forall>ob. (\<exists>res. c = CCreate ob res \<or> c = CUpdate ob res) \<longrightarrow> wakesAgent ns crds ob)"

lemma wakesCall_writes: "wakesWrites ns crds c \<Longrightarrow> wakesCall ns crds c"
  by (auto simp: wakesCall_def)

lemma wakesCall_secret: "secretCall ns c \<Longrightarrow> wakesCall ns crds c"
  by (auto simp: wakesCall_def secretCall_def wakesAgent_def keyOf_def)

text \<open>The definitions the process was started with do not change.\<close>

definition fixedCRDs :: "(string, bool) fmap \<Rightarrow> 'w agent \<Rightarrow> bool" where
  "fixedCRDs crds r \<longleftrightarrow> AvailableCRDs r = crds"

lemma fixedCRDs_frame: "agent_frame (fixedCRDs crds)"
  by (simp add: agent_frame_def fixedCRDs_def env_stable_def)

lemma emits_conj:
  assumes "emits I A m" and "emits J B m"
  shows "emits (\<lambda>r. I r \<and> J r) A m"
  using assms by (auto simp: emits_def)

lemma awake_conj: "awake ns crds = (\<lambda>r. agentKeyed ns r \<and> fixedCRDs crds r)"
  by (simp add: awake_def fixedCRDs_def fun_eq_iff)

lemma awake_step:
  assumes m: "emits (agentKeyed ns) A m" and c: "emits (fixedCRDs crds) B m"
    and A: "\<And>c. A c \<Longrightarrow> wakesCall ns crds c"
  shows "emits (awake ns crds) (wakesCall ns crds) m"
  unfolding awake_conj by (rule emits_weaken [OF emits_conj [OF m c] A])

lemma fixedCRDs_phases:
  "emits (fixedCRDs crds) (\<lambda>_. True) (uninstallPhase x)"
  "emits (fixedCRDs crds) (\<lambda>_. True) (finalizerPhase x)"
  unfolding uninstallPhase_def initiateAgentUninstallation_def
  by (intro emits_rules emits_weaken [OF harmless_finalizerPhase [OF fixedCRDs_frame]]
      frame_deleteOfferings fixedCRDs_frame emits_client_list emits_client_update emits_modify
      emits_deleteObj frame_stable [OF fixedCRDs_frame] TrueI; simp add: fixedCRDs_def)+

lemma wakes_reconcilePhases:
  assumes ns: "ns \<noteq> ''''" and x: "answers_keyed x"
  shows "emits (awake ns crds) (wakesCall ns crds) (reconcilePhases x)"
  unfolding reconcilePhases_def
  by (intro emits_rules awake_step [OF secretOnly_uninstallPhase [OF x] fixedCRDs_phases(1) wakesCall_secret]
      awake_step [OF secretOnly_finalizerPhase [OF x] fixedCRDs_phases(2) wakesCall_secret]
      emits_weaken [OF woken_resourcePhases [OF ns x] wakesCall_writes])

lemma reads_load:
  "emits (fixedCRDs crds) is_read (loadSecret x)" "emits (fixedCRDs crds) is_read (loadConfig x)"
  unfolding loadSecret_def loadConfig_def loadPagerDuty_def loadSmtp_def loadRemoteWrite_def
  by (intro emits_rules emits_client_get emits_modify frame_stable [OF fixedCRDs_frame];
      simp add: fixedCRDs_def)+

lemma wakes_load:
  assumes x: "answers_keyed x"
  shows "emits (awake ns crds) (wakesCall ns crds) (loadSecret x)"
    "emits (awake ns crds) (wakesCall ns crds) (loadConfig x)"
proof -
  have read: "wakesCall ns crds c" if "is_read c" for c
    using that by (auto simp: wakesCall_def)
  have swap: "awake ns crds = (\<lambda>r. fixedCRDs crds r \<and> agentKeyed ns r)"
    by (auto simp: awake_conj)
  show "emits (awake ns crds) (wakesCall ns crds) (loadSecret x)"
    unfolding swap by (rule emits_weaken [OF emits_conj [OF reads_load(1) keyed_loadSecret [OF x]] read])
  show "emits (awake ns crds) (wakesCall ns crds) (loadConfig x)"
    unfolding swap by (rule emits_weaken [OF emits_conj [OF reads_load(2) keyed_loadConfig] read])
qed

lemma Reconcile_wakes:
  assumes x: "answers_keyed x" and ns: "agentNamespace r \<noteq> ''''" and c: "c \<in> set (issued (Reconcile x) r)"
  shows "wakesCall (agentNamespace r) (AvailableCRDs r) c"
proof -
  let ?I = "awake (agentNamespace r) (AvailableCRDs r)" and ?A = "wakesCall (agentNamespace r) (AvailableCRDs r)"
  define m where "m = bindM (loadSecret x) (\<lambda>found.
     if \<not> found then ret noRequeue else thenM (loadConfig x) (reconcilePhases x))"
  obtain r1 where r1: "initReconciler r = (Ok (), r1)" "calls r1 = calls r" "?I r1"
    using initReconciler_run [of r] by (auto simp: awake_def)
  have "issued (Reconcile x) r = issued m r1"
    using r1 by (simp add: issued_def Reconcile_loadConfig m_def thenM_def [of initReconciler] bindM_def [of initReconciler])
  moreover have "emits ?I ?A m"
    unfolding m_def by (intro emits_rules wakes_load [OF x] wakes_reconcilePhases [OF ns x])
  ultimately show ?thesis
    using emits_issued [of ?I ?A m r1 c] c r1(3) by simp
qed

end
