(* ===== verification/Process_Setup.thy ===== *)
theory Process_Setup
  imports Watch_Runs
begin

text \<open>
  The start of the manager's process, \<open>main.go\<close>: its flags and environment, the definitions that
  exist in the cluster when it starts, the two reconcilers and their controllers, the manager's
  run. The end of the process with status 1 is a crash.
\<close>

section \<open>What the process is given\<close>

text \<open>\<open>ctrl.Options\<close>, the fields that are set.\<close>

record managerOptions =
  mo_Scheme :: scheme
  mo_MetricsBindAddress :: string
  mo_Port :: int
  mo_LeaderElection :: bool
  mo_LeaderElectionID :: string

text \<open>
  The manager of controller-runtime, the client's constructor and the cluster's configuration are
  outside the repository. \<open>mgr_Add\<close> is what \<open>Complete\<close> asks of the manager: a controller for the
  reconciled type, with its watches.
\<close>

record 'w process_host = "'w host" +
  os_LookupEnv :: "string \<Rightarrow> string option"
  config_GetConfig :: "'w \<Rightarrow> (gerror + unit) \<times> 'w"
  ctrl_NewManager :: "managerOptions \<Rightarrow> 'w \<Rightarrow> (gerror + unit) \<times> 'w"
  client_New :: "scheme \<Rightarrow> 'w \<Rightarrow> (gerror + unit) \<times> 'w"
  mgr_Add :: "controllerSpec \<Rightarrow> 'w \<Rightarrow> (gerror + unit) \<times> 'w"
  mgr_Start :: "'w \<Rightarrow> (gerror + unit) \<times> 'w"

text \<open>A step whose error ends the process.\<close>

definition orExit :: "string \<Rightarrow> ('w \<Rightarrow> (gerror + unit) \<times> 'w) \<Rightarrow> (('w, call, 'z) env_scheme, unit) prog" where
  [prog_unfold]: "orExit msg f =
     (\<lambda>s. case f (world s) of
            (Inl err, w') \<Rightarrow> (Crash msg, s\<lparr>world := w'\<rparr>)
          | (Inr _, w') \<Rightarrow> (Ok (), s\<lparr>world := w'\<rparr>))"

text \<open>The two flags, as \<open>flag.Parse\<close> finds them on the command line.\<close>

record flags =
  flag_metrics_addr :: "string option"
  flag_enable_leader_election :: "bool option"

definition metricsAddr :: "flags \<Rightarrow> string" where
  "metricsAddr fl = (case flag_metrics_addr fl of None \<Rightarrow> '':8080'' | Some a \<Rightarrow> a)"

definition enableLeaderElection :: "flags \<Rightarrow> bool" where
  "enableLeaderElection fl = (case flag_enable_leader_election fl of None \<Rightarrow> False | Some b \<Rightarrow> b)"

section \<open>Definitions of the cluster\<close>

fun markCRDs :: "(string, bool) fmap \<Rightarrow> obj list \<Rightarrow> (string, bool) fmap" where
  "markCRDs crdExist [] = crdExist"
| "markCRDs crdExist (crd # rest) = markCRDs (fmupd (Name (meta crd)) True crdExist) rest"

text \<open>A list that is not found leaves the items empty.\<close>

definition mapCRDAvailability ::
  "('w, 'y) process_host_scheme \<Rightarrow> (('w, call, 'z) env_scheme, (string, bool) fmap) prog" where
  "mapCRDAvailability x =
     thenM (orExit ''unable to get kubeconfig'' (config_GetConfig x))
     (thenM (orExit ''error creating client'' (client_New x (apiextensionsv1_AddToScheme (\<lambda>_. None))))
     (bindM (tryM (client_list x KCustomResourceDefinition None None)) (\<lambda>res.
        case res of
          Inl err \<Rightarrow> if \<not> IsNotFound err then crash ''Error Getting CRDs installed on the cluster''
                     else ret (markCRDs fmempty [])
        | Inr items \<Rightarrow> ret (markCRDs fmempty items))))"

text \<open>The client that sees all namespaces; nothing uses it.\<close>

definition getUnrestrictedClient ::
  "('w, 'y) process_host_scheme \<Rightarrow> (('w, call, 'z) env_scheme, unit) prog" where
  "getUnrestrictedClient x =
     thenM (orExit ''unable to get kubeconfig'' (config_GetConfig x))
     (orExit ''error creating client'' (client_New x (addAllSchemes (\<lambda>_. None))))"

section \<open>The reconcilers\<close>

text \<open>
  The structs \<open>main\<close> makes. Their other fields are nil pointers and empty structs until
  \<open>initReconciler\<close> sets them; an object of no name stands for nil.
\<close>

definition newAgentReconciler ::
  "string \<Rightarrow> (string, bool) fmap \<Rightarrow> ('w, call, 'z) env_scheme \<Rightarrow> 'w agent" where
  "newAgentReconciler ns crds s =
     (let z = named KSecret '''' '''' in
      \<lparr>world = world s, calls = calls s, agentNamespace = ns, AvailableCRDs = crds,
       CustomerNotificationHTMLPath = ''templates/customernotification.html'',
       prometheus = z, prometheusKubeRBACConfigMap = z, prometheusService = z,
       prometheusProxyNetworkPolicy = z, alertmanager = z, alertmanagerConfig = z,
       alertmanagerSecret = z, alertRelabelConfigSecret = z, k8sMetricsServiceMonitor = z,
       managedFusionSecret = z, smtpConfigData = emptySmtpConfig, pagerDutyConfigData = emptyPagerDutyConfig,
       egressNetworkPolicy = z, egressFirewall = z, remoteWriteConfigData = None\<rparr>)"

definition newOfferingReconciler ::
  "(string, bool) fmap \<Rightarrow> ('w, call, 'z) env_scheme \<Rightarrow> 'w offering" where
  "newOfferingReconciler crds s =
     (let z = named KSecret '''' '''' in
      \<lparr>world = world s, calls = calls s, namespace = '''', offeringCRDs = crds,
       managedFusionOffering = z, operatorGroup = z, catalogSource = z, subscription = z\<rparr>)"

text \<open>\<open>SetupWithManager\<close>: the watches, then the manager's part of \<open>Complete\<close>.\<close>

definition completeOrExit ::
  "('w, 'y) process_host_scheme \<Rightarrow> string \<Rightarrow> gerror + controllerSpec \<Rightarrow>
   (('w, call, 'z) env_scheme, controllerSpec) prog" where
  "completeOrExit x msg built =
     (case built of
        Inl err \<Rightarrow> crash msg
      | Inr spec \<Rightarrow> thenM (orExit msg (mgr_Add x spec)) (ret spec))"

section \<open>main\<close>

record 'w controllers =
  agentReconciler :: "'w agent"
  agentController :: controllerSpec
  offeringReconciler :: "'w offering"
  offeringController :: controllerSpec

definition mainOptions :: "flags \<Rightarrow> managerOptions" where
  "mainOptions fl =
     \<lparr>mo_Scheme = agentScheme, mo_MetricsBindAddress = metricsAddr fl, mo_Port = 9443,
      mo_LeaderElection = enableLeaderElection fl, mo_LeaderElectionID = ''e0c63ac0.openshift.io''\<rparr>"

text \<open>Everything before the manager starts.\<close>

definition mainSetup ::
  "('w, 'y) process_host_scheme \<Rightarrow> flags \<Rightarrow> (('w, call, 'z) env_scheme, 'w controllers) prog" where
  "mainSetup x fl =
     thenM (orExit ''unable to get kubeconfig'' (config_GetConfig x))
     (thenM (orExit ''Unable to start manager'' (ctrl_NewManager x (mainOptions fl)))
     (case os_LookupEnv x ''NAMESPACE'' of
        None \<Rightarrow> crash ''Failed to get 'NAMESPACE' environment variable''
      | Some ns \<Rightarrow>
          bindM (mapCRDAvailability x) (\<lambda>crds.
          thenM (getUnrestrictedClient x)
          (bindM (gets (newAgentReconciler ns crds)) (\<lambda>agent.
           bindM (completeOrExit x ''Unable to create controller'' (agentSetupWithManager agent None)) (\<lambda>agentSpec.
           bindM (gets (newOfferingReconciler crds)) (\<lambda>off.
           bindM (completeOrExit x ''unable to create controller'' (offeringSetupWithManager off None)) (\<lambda>offSpec.
           ret \<lparr>agentReconciler = agent, agentController = agentSpec,
                offeringReconciler = off, offeringController = offSpec\<rparr>))))))))"

text \<open>The manager runs until it is stopped; an error of its run ends the process.\<close>

definition main :: "('w, 'y) process_host_scheme \<Rightarrow> flags \<Rightarrow> (('w, call, 'z) env_scheme, unit) prog" where
  "main x fl = bindM (mainSetup x fl) (\<lambda>_. orExit ''Problem running manager'' (mgr_Start x))"

end
