(* ===== verification/Watch_Props.thy ===== *)
theory Watch_Props
  imports Watch_Runs Mem_Offering
begin

text \<open>
  Properties that join a reconciler with its watches: which of the objects a run writes wake the
  controller again.
\<close>

section \<open>The agent\<close>

lemma agent_setup_total: "\<exists>spec. agentSetupWithManager r opts = Inr spec"
  unfolding agentSetupWithManager_def Let_def Complete_def by (simp add: builder_if builder_start)

text \<open>
  C35: every object a run of the agent's reconciler creates or updates wakes the agent: when it is
  created, updated or deleted, the watches of \<open>SetupWithManager\<close> put the key of the configuration
  secret into the queue. The secret is found by its name; everything else is of a kind that is watched
  with the definitions the process started with, and controlled by the secret.
\<close>

theorem agent_writes_wake_agent:
  assumes "answers_keyed x" and "agentNamespace r \<noteq> ''''" and "mapper secretGVK = Some True"
    and "CCreate ob res \<in> set (issued (Reconcile x) r) \<or> CUpdate ob res \<in> set (issued (Reconcile x) r)"
    and "eventsOf ob ev"
  shows "\<exists>spec. agentSetupWithManager r opts = Inr spec \<and>
    (managedFusionSecretName, agentNamespace r) \<in> set (enqueued mapper agentScheme (c_watches spec) ev)"
proof -
  obtain spec where spec: "agentSetupWithManager r opts = Inr spec"
    using agent_setup_total by blast
  have "wakesAgent (agentNamespace r) (AvailableCRDs r) ob"
    using assms(4) Reconcile_wakes [OF assms(1,2)] by (auto simp: wakesCall_def)
  with wakesAgent_enqueues [where mapper = mapper, OF spec assms(3) _ assms(5)] spec show ?thesis by blast
qed

lemma agent_writes_wake_agent_witness:
  "\<exists>ob res spec. CCreate ob res \<in> set (issued (Reconcile refusingHost) (freshAgent ''ns'' [] [sampleSecret [] None])) \<and>
    agentSetupWithManager (freshAgent ''ns'' [] [sampleSecret [] None]) None = Inr spec \<and>
    (managedFusionSecretName, ''ns'') \<in> set (enqueued (\<lambda>_. Some True) agentScheme (c_watches spec) (CreateEvent ob))"
proof -
  obtain ob res where run: "CCreate ob res \<in> set (issued (Reconcile refusingHost)
      (freshAgent ''ns'' [] [sampleSecret [] None]))"
    using refused_run unfolding list_ex_iff is_create_iff by blast
  have ns: "agentNamespace (freshAgent ''ns'' [] [sampleSecret [] None]) = ''ns''"
    by (simp add: freshAgent_def Let_def)
  have "\<exists>spec. agentSetupWithManager (freshAgent ''ns'' [] [sampleSecret [] None]) None = Inr spec \<and>
      (managedFusionSecretName, agentNamespace (freshAgent ''ns'' [] [sampleSecret [] None]))
        \<in> set (enqueued (\<lambda>_. Some True) agentScheme (c_watches spec) (CreateEvent ob))"
    by (rule agent_writes_wake_agent [OF refusingHost_keyed _ refl disjI1 [OF run]])
      (simp_all add: ns eventsOf_def)
  with run ns show ?thesis by auto
qed

section \<open>The offerings\<close>

lemma GetControllerOf_putOwner:
  assumes "GetControllerOf rs = None"
  shows "GetControllerOf (putOwner ref rs) = (if or_Controller ref = Some True then Some ref else None)"
  using assms by (induction rs) (auto split: if_splits)

lemma ownBy_controller:
  assumes off: "kind_of (managedFusionOffering r) = KManagedFusionOffering"
    and free: "GetControllerOf (OwnerReferences (meta ob)) = None" and own: "ownBy isController r ob = Inr ob'"
    and mapper: "mapper offeringGVK = Some True"
  shows "getOwnerReconcileRequest mapper agentScheme KManagedFusionOffering ob' =
    (if isController then [(Name (meta (managedFusionOffering r)), Namespace (meta ob))] else [])"
proof -
  let ?ref = "newOwnerRef offeringGVK (managedFusionOffering r) isController"
  have sch: "agentScheme KManagedFusionOffering = Some offeringGVK"
    by (simp add: offeringGVK_def)
  have ob': "ob' = setOwners (putOwner ?ref (OwnerReferences (meta ob))) ob"
    using own unfolding ownBy_def AddOwnerReference_Inr off sch by auto
  have "GetControllerOf (OwnerReferences (meta ob')) = (if isController then Some ?ref else None)"
    using GetControllerOf_putOwner [OF free, of ?ref] by (simp add: ob' newOwnerRef_def offeringGVK_def)
  then show ?thesis
    using mapper
    by (simp add: getOwnerReconcileRequest_def sch ob' newOwnerRef_def offeringGVK_def GroupVersion_String_def
        ParseGroupVersion_def)
qed

text \<open>The objects the watches of the offerings let through.\<close>

definition watchedOwned :: "(string, bool) fmap \<Rightarrow> obj \<Rightarrow> bool" where
  "watchedOwned crds ob \<longleftrightarrow>
     kind_of ob \<in> {KOperatorGroup, KCatalogSource, KSubscription, KSecret, KNetworkPolicy, KConfigMap} \<or>
     kind_of ob = KClusterServiceVersion \<and>
       (HasPrefix (Name (meta ob)) ocsOperatorName \<or> HasPrefix (Name (meta ob)) ocsClientOperatorName) \<or>
     kind_of ob = KStorageCluster \<and> crdAvailable crds storageClusterCRDName \<or>
     kind_of ob = KOCSInitialization \<and> crdAvailable crds ocsInitializationCRDName \<or>
     kind_of ob = KStorageClient \<and> crdAvailable crds storageClientCRDName \<or>
     kind_of ob = KStorageClassClaim \<and> crdAvailable crds storageClassClaimCRDName"

definition offeringOwns :: "(string, bool) fmap \<Rightarrow> (kind \<times> predicate list) list" where
  "offeringOwns crds =
     [(KOperatorGroup, []), (KCatalogSource, []), (KSubscription, []), (KSecret, []), (KNetworkPolicy, []),
      (KConfigMap, []), (KClusterServiceVersion, [csvPredicates ocsOperatorName])] @
     (if crdAvailable crds storageClusterCRDName then [(KStorageCluster, [])] else []) @
     (if crdAvailable crds ocsInitializationCRDName then [(KOCSInitialization, [])] else []) @
     [(KClusterServiceVersion, [csvPredicates ocsClientOperatorName]), (KConfigMap, []),
      (KClusterServiceVersion, [csvPredicates ocsClientOperatorName])] @
     (if crdAvailable crds storageClientCRDName then [(KStorageClient, [])] else []) @
     (if crdAvailable crds storageClassClaimCRDName then [(KStorageClassClaim, [])] else [])"

lemma plugin_builder:
  "forInput (pluginSetupWatches r b) = forInput b" "forErr (pluginSetupWatches r b) = forErr b"
  "watchesInput (pluginSetupWatches r b) = watchesInput b"
  "MaxConcurrentReconciles (pluginSetupWatches r b) = MaxConcurrentReconciles b"
  by (simp_all add: pluginSetupWatches_def dfSetupWatches_def dfcSetupWatches_def Let_def builder_if)

lemma plugin_owns:
  "ownsInput (pluginSetupWatches r b) = ownsInput b @ drop 3 (offeringOwns (offeringCRDs r))"
  by (simp add: pluginSetupWatches_def dfSetupWatches_def dfcSetupWatches_def Let_def builder_if offeringOwns_def)

lemma offering_built:
  "\<exists>n. offeringSetupWithManager r opts = Inr \<lparr>c_workers = n, c_watches =
     \<lparr>w_kind = KManagedFusionOffering, w_handler = EnqueueRequestForObject, w_predicates = []\<rparr> #
     map (\<lambda>(k, qs). \<lparr>w_kind = k, w_handler = EnqueueRequestForOwner KManagedFusionOffering, w_predicates = qs\<rparr>)
       (offeringOwns (offeringCRDs r))\<rparr>"
  unfolding offeringSetupWithManager_def Let_def Complete_def doWatch_def
  by (simp add: plugin_builder plugin_owns builder_start) (simp add: offeringOwns_def)

lemma watched_iff:
  assumes "event_kind ev = kind_of ob" and "\<And>p. NewPredicateFuncs p ev = p ob"
  shows "(\<exists>(k, qs)\<in>set (offeringOwns crds). k = event_kind ev \<and> list_all (\<lambda>p. p ev) qs) \<longleftrightarrow> watchedOwned crds ob"
  using assms(1) by (cases "kind_of ob") (auto simp: offeringOwns_def watchedOwned_def csvPredicates_def assms(2))

text \<open>
  C36: what the offering's controller hears of an object the offering was added to as an owner: the
  creation, the update that added the owner and the deletion of the object enqueue the offering
  exactly when it was added as the controller, and the object is of a watched kind (a cluster
  service version also needs the name of one of the two operators). The plugins add the offering as
  an owner that is no controller to the operators' cluster service versions and to the OCS
  initialization, so the watches of these two kinds never wake the offering.
\<close>

theorem offering_hears_controlled:
  assumes off: "kind_of (managedFusionOffering r') = KManagedFusionOffering"
    and ob: "kind_of ob \<noteq> KManagedFusionOffering" "GetControllerOf (OwnerReferences (meta ob)) = None"
    and own: "ownBy isController r' ob = Inr ob'"
    and ev: "ev \<in> {CreateEvent ob', UpdateEvent ob ob', DeleteEvent ob'}"
    and mapper: "mapper offeringGVK = Some True"
  shows "\<exists>spec. offeringSetupWithManager r opts = Inr spec \<and>
    set (enqueued mapper agentScheme (c_watches spec) ev) =
      (if isController \<and> watchedOwned (offeringCRDs r) ob'
       then {(Name (meta (managedFusionOffering r')), Namespace (meta ob))} else {})"
proof -
  let ?h = "EnqueueRequestForOwner KManagedFusionOffering" and ?owns = "offeringOwns (offeringCRDs r)"
  obtain spec where spec: "offeringSetupWithManager r opts = Inr spec"
    "c_watches spec = \<lparr>w_kind = KManagedFusionOffering, w_handler = EnqueueRequestForObject, w_predicates = []\<rparr> #
       map (\<lambda>(k, qs). \<lparr>w_kind = k, w_handler = ?h, w_predicates = qs\<rparr>) ?owns"
    using offering_built [of r opts] by auto
  have k: "kind_of ob' = kind_of ob"
    by (subst offering_owner.own_shape [OF own]) simp
  have ek: "event_kind ev = kind_of ob'" and flt: "\<And>p. NewPredicateFuncs p ev = p ob'"
    using ev by auto
  have req: "set (handle mapper agentScheme ?h ev) =
      (if isController then {(Name (meta (managedFusionOffering r')), Namespace (meta ob))} else {})"
    using ev ownBy_controller [OF off ob(2) own, where mapper = mapper, OF mapper]
      uncontrolled_request [OF ob(2)]
    by (auto simp: handle_def)
  have "set (enqueued mapper agentScheme (c_watches spec) ev) =
      (if \<exists>(k, qs)\<in>set ?owns. k = event_kind ev \<and> list_all (\<lambda>p. p ev) qs
       then set (handle mapper agentScheme ?h ev) else {})"
    using ob(1) k ek by (auto simp: spec(2) enqueued_def split: prod.splits)
  with req watched_iff [OF ek flt] spec(1) show ?thesis by auto
qed

lemma offering_hears_controlled_witness:
  "\<exists>ob' spec. ownBy False (sampleDF []) (named KOCSInitialization ''ocsinit'' ''ns'') = Inr ob' \<and>
    offeringSetupWithManager (sampleDF []) None = Inr spec \<and>
    set (enqueued (\<lambda>_. Some True) agentScheme (c_watches spec) (CreateEvent ob')) = {}"
proof -
  let ?ob = "named KOCSInitialization ''ocsinit'' ''ns''"
  have off: "kind_of (managedFusionOffering (sampleDF [])) = KManagedFusionOffering"
    by (simp add: sampleDF_def Let_def initDataFoundation_def offering.defs sampleOffering_def kind_of_def)
  have free: "kind_of ?ob \<noteq> KManagedFusionOffering" "GetControllerOf (OwnerReferences (meta ?ob)) = None"
    by (simp_all add: named_def emptyMeta_def kind_of_def)
  obtain ob' where own: "ownBy False (sampleDF []) ?ob = Inr ob'"
    using off by (auto simp: ownBy_def AddOwnerReference_def GVKForObject_def)
  have "\<exists>spec. offeringSetupWithManager (sampleDF []) None = Inr spec \<and>
      set (enqueued (\<lambda>_. Some True) agentScheme (c_watches spec) (CreateEvent ob')) =
      (if False \<and> watchedOwned (offeringCRDs (sampleDF [])) ob'
       then {(Name (meta (managedFusionOffering (sampleDF []))), Namespace (meta ?ob))} else {})"
    by (rule offering_hears_controlled [OF off free own]) simp_all
  with own show ?thesis by auto
qed

end
