(* ===== verification/Setup_Props.thy ===== *)
theory Setup_Props
  imports Process_Setup Watch_Props
begin

text \<open>Properties of the start of the manager's process.\<close>

lemma markCRDs_lookup:
  "fmlookup (markCRDs m items) name =
     (if name \<in> (\<lambda>crd. Name (meta crd)) ` set items then Some True else fmlookup m name)"
  by (induction m items rule: markCRDs.induct) auto

lemma markCRDs_available:
  "crdAvailable (markCRDs fmempty items) name \<longleftrightarrow> (\<exists>crd\<in>set items. Name (meta crd) = name)"
  by (auto simp: crdAvailable_def markCRDs_lookup)

lemma orExit_Ok: "orExit msg f s = (Ok u, s') \<Longrightarrow> calls s' = calls s"
  by (auto simp: orExit_def split: prod.splits sum.splits)

lemma orExit_not_Err: "fst (orExit msg f s) \<noteq> Err e"
  by (auto simp: orExit_def split: prod.splits sum.splits)

lemma bindM_Ok_run:
  "bindM m k s = (Ok b, s'') \<Longrightarrow> (\<And>a s'. m s = (Ok a, s') \<Longrightarrow> k a s' = (Ok b, s'') \<Longrightarrow> thesis) \<Longrightarrow> thesis"
  by (auto simp: bindM_def split: prod.splits outcome.splits)

lemma thenM_Ok_run:
  "thenM m k s = (Ok b, s'') \<Longrightarrow> (\<And>a s'. m s = (Ok a, s') \<Longrightarrow> k s' = (Ok b, s'') \<Longrightarrow> thesis) \<Longrightarrow> thesis"
  unfolding thenM_def by (erule bindM_Ok_run)

text \<open>The definitions that are listed, none when the list is not found.\<close>

fun listedCRDs :: "gerror + obj list \<Rightarrow> obj list" where
  "listedCRDs (Inl err) = []"
| "listedCRDs (Inr items) = items"

lemma mapCRDAvailability_Ok:
  assumes "mapCRDAvailability x s = (Ok crds, s')"
  obtains ans where "calls s' = calls s @ [CList KCustomResourceDefinition None None ans]"
    and "case ans of Inl err \<Rightarrow> IsNotFound err | Inr _ \<Rightarrow> True" and "crds = markCRDs fmempty (listedCRDs ans)"
proof -
  obtain s1 where s1: "calls s1 = calls s"
    and run: "bindM (tryM (client_list x KCustomResourceDefinition None None)) (\<lambda>res.
        case res of
          Inl err \<Rightarrow> if \<not> IsNotFound err then crash ''Error Getting CRDs installed on the cluster''
                     else ret (markCRDs fmempty [])
        | Inr items \<Rightarrow> ret (markCRDs fmempty items)) s1 = (Ok crds, s')"
    using assms unfolding mapCRDAvailability_def
    by (elim thenM_Ok_run) (auto dest!: orExit_Ok)
  obtain ans s2 where l: "client_list x KCustomResourceDefinition None None s1 =
      ((case ans of Inl e \<Rightarrow> Err e | Inr a \<Rightarrow> Ok a), s2)"
    and s2: "calls s2 = calls s1 @ [CList KCustomResourceDefinition None None ans]"
    using client_list_run [of x KCustomResourceDefinition None None s1] by auto
  show thesis
  proof (rule that)
    show "calls s' = calls s @ [CList KCustomResourceDefinition None None ans]"
      using run l s1 s2 by (cases ans) (auto simp: tryM_def bindM_def ret_def crash_def split: if_splits)
    show "case ans of Inl err \<Rightarrow> IsNotFound err | Inr _ \<Rightarrow> True"
      using run l by (cases ans) (auto simp: tryM_def bindM_def ret_def crash_def split: if_splits)
    show "crds = markCRDs fmempty (listedCRDs ans)"
      using run l by (cases ans) (auto simp: tryM_def bindM_def ret_def crash_def split: if_splits)
  qed
qed

lemma completeOrExit_Ok: "completeOrExit x msg built s = (Ok spec, s') \<Longrightarrow> built = Inr spec \<and> calls s' = calls s"
  by (auto simp: completeOrExit_def crash_def ret_def dest!: orExit_Ok split: sum.splits elim!: thenM_Ok_run)

lemma getUnrestrictedClient_Ok: "getUnrestrictedClient x s = (Ok u, s') \<Longrightarrow> calls s' = calls s"
  by (auto simp: getUnrestrictedClient_def dest!: orExit_Ok elim!: thenM_Ok_run)

text \<open>What a successful start has done.\<close>

lemma mainSetup_wires:
  assumes run: "mainSetup x fl s = (Ok p, s')"
  shows "\<exists>ans. issued (mainSetup x fl) s = [CList KCustomResourceDefinition None None ans] \<and>
    (case ans of Inl err \<Rightarrow> IsNotFound err | Inr _ \<Rightarrow> True) \<and>
    os_LookupEnv x ''NAMESPACE'' = Some (agentNamespace (agentReconciler p)) \<and>
    (\<forall>name. crdAvailable (AvailableCRDs (agentReconciler p)) name \<longleftrightarrow>
       (\<exists>crd\<in>set (listedCRDs ans). Name (meta crd) = name)) \<and>
    offeringCRDs (offeringReconciler p) = AvailableCRDs (agentReconciler p) \<and>
    remoteWriteConfigData (agentReconciler p) = None \<and>
    agentSetupWithManager (agentReconciler p) None = Inr (agentController p) \<and>
    offeringSetupWithManager (offeringReconciler p) None = Inr (offeringController p)"
proof -
  obtain s1 where s1: "calls s1 = calls s" and run1: "(case os_LookupEnv x ''NAMESPACE'' of
        None \<Rightarrow> crash ''Failed to get 'NAMESPACE' environment variable''
      | Some ns \<Rightarrow>
          bindM (mapCRDAvailability x) (\<lambda>crds.
          thenM (getUnrestrictedClient x)
          (bindM (gets (newAgentReconciler ns crds)) (\<lambda>agent.
           bindM (completeOrExit x ''Unable to create controller'' (agentSetupWithManager agent None)) (\<lambda>agentSpec.
           bindM (gets (newOfferingReconciler crds)) (\<lambda>off.
           bindM (completeOrExit x ''unable to create controller'' (offeringSetupWithManager off None)) (\<lambda>offSpec.
           ret \<lparr>agentReconciler = agent, agentController = agentSpec,
                offeringReconciler = off, offeringController = offSpec\<rparr>))))))) s1 = (Ok p, s')"
    using run unfolding mainSetup_def by (elim thenM_Ok_run) (auto dest!: orExit_Ok)
  then obtain ns where ns: "os_LookupEnv x ''NAMESPACE'' = Some ns"
    by (auto simp: crash_def split: option.splits)
  obtain crds s2 where crds: "mapCRDAvailability x s1 = (Ok crds, s2)"
    and rest: "agentNamespace (agentReconciler p) = ns" "AvailableCRDs (agentReconciler p) = crds"
      "remoteWriteConfigData (agentReconciler p) = None" "offeringCRDs (offeringReconciler p) = crds"
      "agentSetupWithManager (agentReconciler p) None = Inr (agentController p)"
      "offeringSetupWithManager (offeringReconciler p) None = Inr (offeringController p)"
      "calls s' = calls s2"
    using run1 unfolding ns option.case
    by (elim bindM_Ok_run thenM_Ok_run)
      (auto simp: gets_def ret_def newAgentReconciler_def newOfferingReconciler_def Let_def
        dest!: completeOrExit_Ok getUnrestrictedClient_Ok)
  obtain ans where ans: "calls s2 = calls s1 @ [CList KCustomResourceDefinition None None ans]"
    "case ans of Inl err \<Rightarrow> IsNotFound err | Inr _ \<Rightarrow> True" "crds = markCRDs fmempty (listedCRDs ans)"
    by (rule mapCRDAvailability_Ok [OF crds])
  show ?thesis
    using rest ans s1 ns run
    by (intro exI [of _ ans])
      (simp add: issued_def markCRDs_available)
qed

text \<open>
  C40: when the start of the process succeeds, both reconcilers hold the same map of definitions,
  and it says of a name that it is available exactly when the one list of the start named it (none
  when the list was not found); the agent's namespace is the environment's; and each controller has
  the watches its reconciler's \<open>SetupWithManager\<close> makes from that map.
\<close>

theorem main_wires_controllers:
  assumes run: "mainSetup x fl s = (Ok p, s')"
  shows "\<exists>ans. issued (mainSetup x fl) s = [CList KCustomResourceDefinition None None ans] \<and>
    (case ans of Inl err \<Rightarrow> IsNotFound err | Inr _ \<Rightarrow> True) \<and>
    os_LookupEnv x ''NAMESPACE'' = Some (agentNamespace (agentReconciler p)) \<and>
    (\<forall>name. crdAvailable (AvailableCRDs (agentReconciler p)) name \<longleftrightarrow>
       (\<exists>crd\<in>set (listedCRDs ans). Name (meta crd) = name)) \<and>
    offeringCRDs (offeringReconciler p) = AvailableCRDs (agentReconciler p) \<and>
    remoteWriteConfigData (agentReconciler p) = None \<and>
    agentSetupWithManager (agentReconciler p) None = Inr (agentController p) \<and>
    offeringSetupWithManager (offeringReconciler p) None = Inr (offeringController p)"
  using run by (rule mainSetup_wires)

definition sampleProcessHost :: "store process_host" where
  "sampleProcessHost =
     \<lparr>api_Get = mem_Get, api_List = mem_List, api_Create = mem_Create, api_Update = mem_Update,
        api_Delete = mem_Delete,
        os_ReadFile = (\<lambda>path w. (Inl (ErrorNew ''no file''), w)),
        http_Get = (\<lambda>url w. (Inl (ErrorNew ''no route''), w)),
        time_Sleep = (\<lambda>d w. w),
        os_LookupEnv = (\<lambda>name. if name = ''NAMESPACE'' then Some ''ns'' else None),
        config_GetConfig = (\<lambda>w. (Inr (), w)), ctrl_NewManager = (\<lambda>opts w. (Inr (), w)),
        client_New = (\<lambda>sch w. (Inr (), w)), mgr_Add = (\<lambda>spec w. (Inr (), w)), mgr_Start = (\<lambda>w. (Inr (), w))\<rparr>"

lemma sampleProcessHost_simps [simp]:
  "os_LookupEnv sampleProcessHost ''NAMESPACE'' = Some ''ns''" "config_GetConfig sampleProcessHost = Pair (Inr ())"
  "ctrl_NewManager sampleProcessHost opts = Pair (Inr ())" "client_New sampleProcessHost sch = Pair (Inr ())"
  "mgr_Add sampleProcessHost spec = Pair (Inr ())" "api_List sampleProcessHost = mem_List"
  by (auto simp: sampleProcessHost_def)

lemma orExit_Inr [simp]: "orExit msg (Pair (Inr ())) s = (Ok (), s)"
  by (simp add: orExit_def)

lemma main_wires_controllers_witness:
  "\<exists>p s'. mainSetup sampleProcessHost \<lparr>flag_metrics_addr = None, flag_enable_leader_election = None\<rparr>
      \<lparr>world = [named KCustomResourceDefinition EgressFirewallCRD ''''], calls = []\<rparr> = (Ok p, s') \<and>
    agentNamespace (agentReconciler p) = ''ns'' \<and>
    (\<exists>ans. issued (mainSetup sampleProcessHost \<lparr>flag_metrics_addr = None, flag_enable_leader_election = None\<rparr>)
      \<lparr>world = [named KCustomResourceDefinition EgressFirewallCRD ''''], calls = []\<rparr> =
        [CList KCustomResourceDefinition None None ans])"
proof -
  let ?fl = "\<lparr>flag_metrics_addr = None, flag_enable_leader_election = None\<rparr>"
  let ?s = "\<lparr>world = [named KCustomResourceDefinition EgressFirewallCRD ''''], calls = []\<rparr>"
  have agent: "\<exists>spec. agentSetupWithManager r None = Inr spec" for r :: "store agent"
    by (rule agent_setup_total)
  have off: "\<exists>spec. offeringSetupWithManager r None = Inr spec" for r :: "store offering"
    using offering_built [of r None] by auto
  obtain p s' where run: "mainSetup sampleProcessHost ?fl ?s = (Ok p, s')"
  proof -
    obtain crds s1 where "mapCRDAvailability sampleProcessHost ?s = (Ok crds, s1)"
      by (simp add: mapCRDAvailability_def thenM_step bindM_step tryM_def client_list_def callM_def liftSum_def ret_def mem_List_def Let_def)
    moreover obtain aspec where "agentSetupWithManager (newAgentReconciler ''ns'' crds s1) None = Inr aspec"
      using agent by blast
    moreover obtain ospec where "offeringSetupWithManager (newOfferingReconciler crds s1) None = Inr ospec"
      using off by blast
    ultimately show thesis
      using that by (auto simp: mainSetup_def getUnrestrictedClient_def completeOrExit_def thenM_step bindM_step gets_def ret_def)
  qed
  from main_wires_controllers [OF run] run show ?thesis
    by auto
qed

end
