(* ===== verification/Settling.thy ===== *)
theory Settling
  imports Agent_Calls
begin

text \<open>
  When a reconciler has nothing left to do: an API server that stores what it is sent, programs
  that only read, and the contract of a phase that settles, meaning that once it has succeeded
  it finds everything as it wants it and writes nothing any more.
\<close>

section \<open>A server that stores\<close>

text \<open>
  \<open>look\<close> is the object at a key and \<open>listed\<close> the answer to a list. A write answers with the
  object stored, whose UID and version the server may set, and touches no other key and no list
  of another kind.
\<close>

definition stored ::
  "('w \<Rightarrow> kind \<times> nname \<Rightarrow> obj option) \<Rightarrow> ('w \<Rightarrow> kind \<Rightarrow> string option \<Rightarrow> nat option \<Rightarrow> obj list) \<Rightarrow>
   'w \<Rightarrow> 'w \<Rightarrow> obj \<Rightarrow> obj \<Rightarrow> bool" where
  "stored look listed w w' ob ob' \<longleftrightarrow>
     (\<exists>u v. ob' = stamp u v ob) \<and> look w' = (look w)(keyOf ob \<mapsto> ob') \<and>
     (\<forall>k. k \<noteq> kind_of ob \<longrightarrow> listed w' k = listed w k)"

definition object_server ::
  "('w, 'y) client_scheme \<Rightarrow> ('w \<Rightarrow> kind \<times> nname \<Rightarrow> obj option) \<Rightarrow>
   ('w \<Rightarrow> kind \<Rightarrow> string option \<Rightarrow> nat option \<Rightarrow> obj list) \<Rightarrow> bool" where
  "object_server x look listed \<longleftrightarrow>
     (\<exists>missing. (\<forall>k key. IsNotFound (missing k key)) \<and>
        (\<forall>w k key. api_Get x k key w = (case look w (k, key) of None \<Rightarrow> Inl (missing k key) | Some ob \<Rightarrow> Inr ob, w))) \<and>
     (\<forall>w k key ob. look w (k, key) = Some ob \<longrightarrow> keyOf ob = (k, key)) \<and>
     (\<forall>w k ns lim. api_List x k ns lim w = (Inr (listed w k ns lim), w)) \<and>
     (\<forall>w ob ob' w'. api_Create x ob w = (Inr ob', w') \<longrightarrow> stored look listed w w' ob ob') \<and>
     (\<forall>w ob ob' w'. api_Update x ob w = (Inr ob', w') \<longrightarrow> stored look listed w w' ob ob')"

lemma server_Get:
  assumes "object_server x look listed"
  shows "\<exists>missing. (\<forall>k key. IsNotFound (missing k key)) \<and>
    (\<forall>w k key. api_Get x k key w = (case look w (k, key) of None \<Rightarrow> Inl (missing k key) | Some ob \<Rightarrow> Inr ob, w))"
  using assms unfolding object_server_def by (elim conjE)

lemma server_keys: "object_server x look listed \<Longrightarrow> look w (k, key) = Some ob \<Longrightarrow> keyOf ob = (k, key)"
  unfolding object_server_def by blast

lemma server_List: "object_server x look listed \<Longrightarrow> api_List x k ns lim w = (Inr (listed w k ns lim), w)"
  by (simp add: object_server_def)

lemma server_writes:
  assumes "object_server x look listed"
  shows "api_Create x ob w = (Inr ob', w') \<Longrightarrow> stored look listed w w' ob ob'"
    and "api_Update x ob w = (Inr ob', w') \<Longrightarrow> stored look listed w w' ob ob'"
  using assms by (simp_all add: object_server_def)

lemma client_put_Ok:
  assumes srv: "object_server x look listed"
    and run: "client_create x ob s = (Ok o2, s1) \<or> client_update x ob s = (Ok o2, s1)"
  obtains w' c where "stored look listed (world s) w' ob o2" and "s1 = s\<lparr>world := w', calls := c\<rparr>"
proof -
  have dec: "decodeAs (kind_of ob) o' = o'" if "stored look listed (world s) w' ob o'" for w' o'
    using that by (auto simp: stored_def intro: decodeAs_same)
  from run show thesis
  proof
    assume run: "client_create x ob s = (Ok o2, s1)"
    obtain q w' where q: "api_Create x ob (world s) = (q, w')" by (cases "api_Create x ob (world s)")
    with run obtain o' where "q = Inr o'" by (cases q) (auto simp: prog_unfold)
    with q server_writes(1) [OF srv] have "stored look listed (world s) w' ob o'" by simp
    with run q \<open>q = Inr o'\<close> dec show thesis by (intro that) (auto simp: prog_unfold)
  next
    assume run: "client_update x ob s = (Ok o2, s1)"
    obtain q w' where q: "api_Update x ob (world s) = (q, w')" by (cases "api_Update x ob (world s)")
    with run obtain o' where "q = Inr o'" by (cases q) (auto simp: prog_unfold)
    with q server_writes(2) [OF srv] have "stored look listed (world s) w' ob o'" by simp
    with run q \<open>q = Inr o'\<close> dec show thesis by (intro that) (auto simp: prog_unfold)
  qed
qed

section \<open>Programs that only read\<close>

text \<open>\<open>V\<close> is what a program looks at: the fields it reads and its part of the cluster.\<close>

definition blind :: "(('w, call, 'z) env_scheme \<Rightarrow> 'v) \<Rightarrow> bool" where
  "blind V \<longleftrightarrow> (\<forall>s cs. V (s\<lparr>calls := cs\<rparr>) = V s)"

definition reader :: "(('w, call, 'z) env_scheme \<Rightarrow> 'v) \<Rightarrow> (('w, call, 'z) env_scheme, 'a) prog \<Rightarrow> bool" where
  "reader V m \<longleftrightarrow>
     (\<forall>s. \<exists>cs. list_all is_read cs \<and> snd (m s) = s\<lparr>calls := calls s @ cs\<rparr>) \<and>
     (\<forall>s s'. V s = V s' \<longrightarrow> fst (m s) = fst (m s'))"

lemma readerI:
  assumes "\<And>s. m s = (g s, s\<lparr>calls := calls s @ h s\<rparr>)" and "\<And>s. list_all is_read (h s)"
    and "\<And>s s'. V s = V s' \<Longrightarrow> g s = g s'"
  shows "reader V m"
  unfolding reader_def
proof (intro conjI allI impI)
  show "\<exists>cs. list_all is_read cs \<and> snd (m s) = s\<lparr>calls := calls s @ cs\<rparr>" for s
    by (rule exI [of _ "h s"]) (simp add: assms(1,2))
  show "fst (m s) = fst (m s')" if "V s = V s'" for s s'
    using assms(3) [OF that] by (simp add: assms(1))
qed

lemma reader_log:
  assumes "reader V m"
  obtains cs where "list_all is_read cs" and "m s = (fst (m s), s\<lparr>calls := calls s @ cs\<rparr>)"
proof -
  obtain cs where "list_all is_read cs" "snd (m s) = s\<lparr>calls := calls s @ cs\<rparr>"
    using assms unfolding reader_def by blast
  then show thesis by (intro that [of cs]) (simp_all add: prod_eq_iff)
qed

lemma reader_view: "blind V \<Longrightarrow> reader V m \<Longrightarrow> V (snd (m s)) = V s"
  by (metis blind_def reader_log snd_conv)

lemma reader_fst: "reader V m \<Longrightarrow> V s = V s' \<Longrightarrow> fst (m s) = fst (m s')"
  unfolding reader_def by blast

lemma reader_simple: "(\<And>s. m s = (r, s)) \<Longrightarrow> reader V m"
  by (rule readerI [where g = "\<lambda>_. r" and h = "\<lambda>_. []"]) simp_all

lemma reader_pure:
  "reader V (ret a)" "reader V (fail e)" "reader V (crash msg)" "reader V (liftOutcome q)"
  by (rule reader_simple, simp add: prog_unfold)+

lemma reader_liftSum: "reader V (liftSum z)"
  by (cases z) (simp_all add: liftSum_def reader_pure)

lemma reader_gets:
  assumes "\<And>s s'. V s = V s' \<Longrightarrow> f s = f s'"
  shows "reader V (gets f)"
proof (rule readerI [where g = "\<lambda>s. Ok (f s)" and h = "\<lambda>_. []"])
  show "Ok (f s) = Ok (f s')" if "V s = V s'" for s s'
    using assms [OF that] by simp
qed (simp_all add: gets_def)

lemma reader_bindM:
  assumes V: "blind V" and m: "reader V m" and f: "\<And>a. reader V (f a)"
  shows "reader V (bindM m f)"
  unfolding reader_def
proof (intro conjI allI impI)
  fix s
  obtain cs where cs: "list_all is_read cs" "m s = (fst (m s), s\<lparr>calls := calls s @ cs\<rparr>)"
    by (rule reader_log [OF m])
  show "\<exists>cs. list_all is_read cs \<and> snd (bindM m f s) = s\<lparr>calls := calls s @ cs\<rparr>"
  proof (cases "fst (m s)")
    case (Ok a)
    obtain cs2 where "list_all is_read cs2"
      and "f a (s\<lparr>calls := calls s @ cs\<rparr>) = (fst (f a (s\<lparr>calls := calls s @ cs\<rparr>)), s\<lparr>calls := (calls s @ cs) @ cs2\<rparr>)"
      by (rule reader_log [OF f [of a], of "s\<lparr>calls := calls s @ cs\<rparr>"]) auto
    with Ok cs show ?thesis
      by (intro exI [of _ "cs @ cs2"]) (metis bindM_Ok append.assoc list_all_append snd_conv)
  qed (use cs in \<open>auto simp: bindM_def intro!: exI [of _ cs] split: prod.splits\<close>)
next
  fix s s' assume eq: "V s = V s'"
  then have view: "V (snd (m s)) = V (snd (m s'))" by (simp add: reader_view [OF V m])
  have run: "fst (bindM m f s) = (case fst (m s) of Ok a \<Rightarrow> fst (f a (snd (m s))) | Err e \<Rightarrow> Err e | Crash c \<Rightarrow> Crash c)" for s
    by (simp add: bindM_def split: prod.split outcome.split)
  show "fst (bindM m f s) = fst (bindM m f s')"
    unfolding run reader_fst [OF m eq] using reader_fst [OF f view] by (simp split: outcome.split)
qed

lemma reader_wrapErr: "reader V m \<Longrightarrow> reader V (wrapErr msg m)"
proof -
  assume m: "reader V m"
  have run: "wrapErr msg m s = (case fst (m s) of Err e \<Rightarrow> Err (Errorf msg e) | q \<Rightarrow> q, snd (m s))" for s
    by (simp add: wrapErr_def split: prod.split outcome.split)
  show ?thesis
    unfolding reader_def run fst_conv snd_conv
  proof (intro conjI allI impI)
    show "\<exists>cs. list_all is_read cs \<and> snd (m s) = s\<lparr>calls := calls s @ cs\<rparr>" for s
      using m unfolding reader_def by blast
  qed (use reader_fst [OF m] in metis)
qed

lemma reader_gets_bind:
  assumes "\<And>r. reader V (f r)" and "\<And>r r'. V r = V r' \<Longrightarrow> f r = f r'"
  shows "reader V (bindM (gets (\<lambda>r. r)) f)"
proof -
  have run: "bindM (gets (\<lambda>r. r)) f s = f s s" for s
    by (simp add: bindM_def gets_def)
  show ?thesis
    unfolding reader_def run
  proof (intro conjI allI impI)
    show "\<exists>cs. list_all is_read cs \<and> snd (f s s) = s\<lparr>calls := calls s @ cs\<rparr>" for s
      using assms(1) unfolding reader_def by blast
    show "fst (f s s) = fst (f s' s')" if "V s = V s'" for s s'
      using reader_fst [OF assms(1) that] by (simp add: assms(2) [OF that])
  qed
qed

lemma reader_if: "(b \<Longrightarrow> reader V m) \<Longrightarrow> (\<not> b \<Longrightarrow> reader V m') \<Longrightarrow> reader V (if b then m else m')"
  by simp

lemma reader_case_option:
  "(q = None \<Longrightarrow> reader V m) \<Longrightarrow> (\<And>a. q = Some a \<Longrightarrow> reader V (f a)) \<Longrightarrow>
   reader V (case q of None \<Rightarrow> m | Some a \<Rightarrow> f a)"
  by (cases q) auto

lemma reader_client_get:
  assumes "object_server x look listed" and "\<And>s s'. V s = V s' \<Longrightarrow> look (world s) (k, key) = look (world s') (k, key)"
  shows "reader V (client_get x k key)"
proof -
  obtain missing where get: "\<forall>w k key. api_Get x k key w = (case look w (k, key) of None \<Rightarrow> Inl (missing k key) | Some ob \<Rightarrow> Inr ob, w)"
    using server_Get [OF assms(1)] by blast
  have run: "client_get x k key s =
      (case look (world s) (k, key) of
         None \<Rightarrow> (Err (missing k key), s\<lparr>calls := calls s @ [CGet k key (Inl (missing k key))]\<rparr>)
       | Some ob \<Rightarrow> (Ok (decodeAs k ob), s\<lparr>calls := calls s @ [CGet k key (Inr (decodeAs k ob))]\<rparr>))" for s
    by (auto simp: prog_unfold get split: option.split)
  show ?thesis
  proof (rule readerI [where g = "\<lambda>s. case look (world s) (k, key) of None \<Rightarrow> Err (missing k key) | Some ob \<Rightarrow> Ok (decodeAs k ob)"
        and h = "\<lambda>s. [CGet k key (case look (world s) (k, key) of None \<Rightarrow> Inl (missing k key) | Some ob \<Rightarrow> Inr (decodeAs k ob))]"])
    show "client_get x k key s =
       (case look (world s) (k, key) of None \<Rightarrow> Err (missing k key) | Some ob \<Rightarrow> Ok (decodeAs k ob),
        s\<lparr>calls := calls s @ [CGet k key (case look (world s) (k, key) of
          None \<Rightarrow> Inl (missing k key) | Some ob \<Rightarrow> Inr (decodeAs k ob))]\<rparr>)" for s
      by (simp add: run split: option.split)
  next
    fix s s' assume "V s = V s'"
    from assms(2) [OF this] show "(case look (world s) (k, key) of None \<Rightarrow> Err (missing k key) | Some ob \<Rightarrow> Ok (decodeAs k ob)) =
        (case look (world s') (k, key) of None \<Rightarrow> Err (missing k key) | Some ob \<Rightarrow> Ok (decodeAs k ob))"
      by simp
  qed simp
qed

lemma reader_client_list:
  assumes "object_server x look listed" and "\<And>s s'. V s = V s' \<Longrightarrow> listed (world s) k = listed (world s') k"
  shows "reader V (client_list x k ns lim)"
proof -
  have run: "client_list x k ns lim s = (Ok (map (decodeAs k) (listed (world s) k ns lim)),
      s\<lparr>calls := calls s @ [CList k ns lim (Inr (map (decodeAs k) (listed (world s) k ns lim)))]\<rparr>)" for s
    by (simp add: prog_unfold server_List [OF assms(1)])
  show ?thesis
  proof (rule readerI [OF run])
    fix s s' assume "V s = V s'"
    from assms(2) [OF this] show "Ok (map (decodeAs k) (listed (world s) k ns lim)) = Ok (map (decodeAs k) (listed (world s') k ns lim))"
      by simp
  qed simp
qed

lemma reader_readFile:
  assumes "\<And>w. os_ReadFile x path w = (files path, w)"
  shows "reader V (host_readFile x path)"
proof -
  have run: "host_readFile x path s = (case files path of Inl e \<Rightarrow> Err e | Inr c \<Rightarrow> Ok c,
      s\<lparr>calls := calls s @ [CReadFile path (files path)]\<rparr>)" for s
    by (simp add: prog_unfold assms split: sum.split)
  show ?thesis
    by (rule readerI [OF run]) simp_all
qed

lemmas reader_rules = reader_pure reader_liftSum reader_bindM reader_wrapErr reader_if reader_case_option

section \<open>Mutation functions that read\<close>

text \<open>
  The contract of a mutation function that may read the cluster: it writes nothing, its result is
  decided by its object and the view, it keeps kind and key, and on an object it has produced, as
  the server hands it back, it changes nothing.
\<close>

locale reading_mutator =
  fixes V :: "('w, call, 'z) env_scheme \<Rightarrow> 'v" and k :: kind
    and f :: "obj \<Rightarrow> (('w, call, 'z) env_scheme, obj) prog"
  assumes reads: "reader V (f ob)"
    and mutated_kind: "kind_of ob = k \<Longrightarrow> fst (f ob s) = Ok ob' \<Longrightarrow> kind_of ob' = k"
    and mutated_key: "kind_of ob = k \<Longrightarrow> fst (f ob s) = Ok ob' \<Longrightarrow> ObjectKeyFromObject ob' = ObjectKeyFromObject ob"
    and mutated_settled: "kind_of ob = k \<Longrightarrow> fst (f ob s) = Ok ob' \<Longrightarrow> fst (f (stamp u v ob') s) = Ok (stamp u v ob')"

text \<open>The writes of an object that the view does not show.\<close>

definition apart ::
  "('w \<Rightarrow> kind \<times> nname \<Rightarrow> obj option) \<Rightarrow> ('w \<Rightarrow> kind \<Rightarrow> string option \<Rightarrow> nat option \<Rightarrow> obj list) \<Rightarrow>
   kind \<times> nname \<Rightarrow> 'w \<Rightarrow> 'w \<Rightarrow> bool" where
  "apart look listed kk w w' \<longleftrightarrow>
     (\<forall>kk'. kk' \<noteq> kk \<longrightarrow> look w' kk' = look w kk') \<and> (\<forall>k. k \<noteq> fst kk \<longrightarrow> listed w' k = listed w k)"

definition unseen ::
  "('w \<Rightarrow> kind \<times> nname \<Rightarrow> obj option) \<Rightarrow> ('w \<Rightarrow> kind \<Rightarrow> string option \<Rightarrow> nat option \<Rightarrow> obj list) \<Rightarrow>
   (('w, call, 'z) env_scheme \<Rightarrow> 'v) \<Rightarrow> kind \<times> nname \<Rightarrow> bool" where
  "unseen look listed V kk \<longleftrightarrow>
     (\<forall>s w cs. apart look listed kk (world s) w \<longrightarrow> V (s\<lparr>world := w, calls := cs\<rparr>) = V s)"

lemma apart_refl: "apart look listed kk w w"
  by (simp add: apart_def)

lemma unseen_blind: "unseen look listed V kk \<Longrightarrow> blind V"
  unfolding blind_def
proof (intro allI)
  fix s cs assume "unseen look listed V kk"
  then have "V (s\<lparr>world := world s, calls := cs\<rparr>) = V s"
    unfolding unseen_def by (blast intro: apart_refl)
  then show "V (s\<lparr>calls := cs\<rparr>) = V s" by simp
qed

lemma stored_apart: "stored look listed w w' ob ob' \<Longrightarrow> apart look listed (keyOf ob) w w'"
  by (auto simp: stored_def apart_def keyOf_def)

text \<open>The object at a key is as a mutation function wants it.\<close>

definition settledAt ::
  "('w \<Rightarrow> kind \<times> nname \<Rightarrow> obj option) \<Rightarrow> (obj \<Rightarrow> (('w, call, 'z) env_scheme, obj) prog) \<Rightarrow>
   kind \<times> nname \<Rightarrow> 'w \<Rightarrow> ('w, call, 'z) env_scheme \<Rightarrow> bool" where
  "settledAt look f kk w s \<longleftrightarrow>
     (\<exists>e e'. look w kk = Some e \<and> fst (f e s) = Ok e' \<and> keyOf e' = kk \<and> Semantic_DeepEqual e e')"

context reading_mutator
begin

lemma mutate_reads:
  assumes ob: "keyOf ob = (k, key)" and blind: "blind V"
  obtains (ok) ob' cs where "fst (f ob s) = Ok ob'" and "keyOf ob' = (k, key)" and "list_all is_read cs"
      and "mutate f key ob s = (Ok ob', s\<lparr>calls := calls s @ cs\<rparr>)"
  | (failed) "\<not> isOk (fst (mutate f key ob s))"
proof -
  obtain cs where cs: "list_all is_read cs" "f ob s = (fst (f ob s), s\<lparr>calls := calls s @ cs\<rparr>)"
    by (rule reader_log [OF reads])
  have k: "kind_of ob = k" and key: "ObjectKeyFromObject ob = key" using ob by (simp_all add: keyOf_def)
  show thesis
  proof (cases "fst (f ob s)")
    case (Ok ob')
    have "kind_of ob' = k" "ObjectKeyFromObject ob' = key"
      using mutated_kind [OF k Ok] mutated_key [OF k Ok] key by simp_all
    moreover have "mutate f key ob s = (Ok ob', s\<lparr>calls := calls s @ cs\<rparr>)"
      using cs(2) Ok calculation by (simp add: mutate_def bindM_def ret_def)
    ultimately show thesis using Ok cs(1) by (intro ok) (simp_all add: keyOf_def)
  next
    case (Err e)
    then have "f ob s = (Err e, s\<lparr>calls := calls s @ cs\<rparr>)" using cs(2) by simp
    then show thesis by (intro failed) (simp add: mutate_def bindM_def)
  next
    case (Crash c)
    then have "f ob s = (Crash c, s\<lparr>calls := calls s @ cs\<rparr>)" using cs(2) by simp
    then show thesis by (intro failed) (simp add: mutate_def bindM_def)
  qed
qed

lemma CreateOrUpdate_settles:
  assumes srv: "object_server x look listed" and unseen: "unseen look listed V (k, key)" and ob: "keyOf ob = (k, key)"
    and run: "CreateOrUpdate x ob f s = (Ok (res, ob1), s1)"
  shows "keyOf ob1 = (k, key) \<and> (\<exists>cs. s1 = s\<lparr>world := world s1, calls := cs\<rparr>) \<and>
    apart look listed (k, key) (world s) (world s1) \<and> settledAt look f (k, key) (world s1) s"
proof -
  have blind: "blind V" by (rule unseen_blind [OF unseen])
  have k: "kind_of ob = k" and key: "ObjectKeyFromObject ob = key" using ob by (simp_all add: keyOf_def)
  obtain missing where missing: "\<forall>k key. IsNotFound (missing k key)"
    and get: "\<forall>w k key. api_Get x k key w = (case look w (k, key) of None \<Rightarrow> Inl (missing k key) | Some ob \<Rightarrow> Inr ob, w)"
    using server_Get [OF srv] by blast
  have eqv: "fst (f o1 (s\<lparr>calls := c\<rparr>)) = fst (f o1 s)" for o1 c
    using blind by (intro reader_fst [OF reads]) (simp add: blind_def)
  have written: ?thesis if put: "stored look listed (world s) w' o1 o2" and o1: "keyOf o1 = (k, key)"
    "fst (f o0 s) = Ok o1" "kind_of o0 = k" and s1: "ob1 = o2" "s1 = s\<lparr>world := w', calls := c\<rparr>" for w' o0 o1 o2 c
  proof -
    obtain u v where o2: "o2 = stamp u v o1" and look: "look w' (k, key) = Some o2"
      using put o1(1) by (auto simp: stored_def)
    have "fst (f o2 s) = Ok o2" unfolding o2 by (rule mutated_settled [OF o1(3,2)])
    moreover have "keyOf o2 = (k, key)" using o1(1) by (simp add: o2 keyOf_def)
    moreover have "apart look listed (k, key) (world s) w'" using stored_apart [OF put] o1(1) by simp
    ultimately show ?thesis using look s1 by (auto simp: settledAt_def)
  qed
  show ?thesis
  proof (cases "look (world s) (k, key)")
    case None
    let ?s = "s\<lparr>calls := calls s @ [CGet k key (Inl (missing k key))]\<rparr>"
    have at: "CreateOrUpdate x ob f s = bindM (mutate f key ob) (\<lambda>ob'.
        bindM (client_create x ob') (\<lambda>created. ret (OperationResultCreated, created))) ?s"
      using None missing [rule_format, of k key] by (simp add: CreateOrUpdate_def k key get prog_unfold)
    show ?thesis
    proof (rule mutate_reads [OF ob blind, of ?s])
      fix ob' cs assume m: "fst (f ob ?s) = Ok ob'" "keyOf ob' = (k, key)"
        "mutate f key ob ?s = (Ok ob', ?s\<lparr>calls := calls ?s @ cs\<rparr>)"
      note step = bindM_Ok [where m = "mutate f key ob" and s = ?s, OF m(3)]
      have "\<exists>o2. client_create x ob' (?s\<lparr>calls := calls ?s @ cs\<rparr>) = (Ok o2, s1) \<and> ob1 = o2"
        using run unfolding at step
        by (auto simp: bindM_def ret_def split: prod.splits outcome.splits)
      then obtain w' c where "stored look listed (world s) w' ob' ob1" "s1 = s\<lparr>world := w', calls := c\<rparr>"
        by (auto elim!: client_put_Ok [OF srv disjI1])
      then show ?thesis
        using m(1,2) k by (intro written [of w' ob' ob1 ob c]) (simp_all add: eqv)
    next
      assume "\<not> isOk (fst (mutate f key ob ?s))"
      then show ?thesis using run unfolding at
        by (auto simp: bindM_def isOk_iff split: prod.splits outcome.splits)
    qed
  next
    case (Some ex)
    have ex: "keyOf ex = (k, key)" by (rule server_keys [OF srv Some])
    then have "decodeAs k ex = ex" by (intro decodeAs_same) (simp add: keyOf_def)
    let ?s = "s\<lparr>calls := calls s @ [CGet k key (Inr ex)]\<rparr>"
    have at: "CreateOrUpdate x ob f s = bindM (mutate f key ex) (\<lambda>ob'.
        if Semantic_DeepEqual ex ob' then ret (OperationResultNone, ob')
        else bindM (client_update x ob') (\<lambda>updated. ret (OperationResultUpdated, updated))) ?s"
      using Some \<open>decodeAs k ex = ex\<close> by (simp add: CreateOrUpdate_def k key get prog_unfold)
    show ?thesis
    proof (rule mutate_reads [OF ex blind, of ?s])
      fix ob' cs assume m: "fst (f ex ?s) = Ok ob'" "keyOf ob' = (k, key)"
        "mutate f key ex ?s = (Ok ob', ?s\<lparr>calls := calls ?s @ cs\<rparr>)"
      note step = bindM_Ok [where m = "mutate f key ex" and s = ?s, OF m(3)]
      have made: "fst (f ex s) = Ok ob'" using m(1) by (simp add: eqv)
      show ?thesis
      proof (cases "Semantic_DeepEqual ex ob'")
        case True
        then have "ob1 = ob'" "s1 = ?s\<lparr>calls := calls ?s @ cs\<rparr>"
          using run unfolding at step by (simp_all add: ret_def)
        then show ?thesis
          using True Some made m(2)
          by (auto simp: settledAt_def apart_refl intro!: exI [of _ "calls ?s @ cs"])
      next
        case False
        have "\<exists>o2. client_update x ob' (?s\<lparr>calls := calls ?s @ cs\<rparr>) = (Ok o2, s1) \<and> ob1 = o2"
          using run False unfolding at step
          by (auto simp: bindM_def ret_def split: prod.splits outcome.splits)
        then obtain w' c where "stored look listed (world s) w' ob' ob1" "s1 = s\<lparr>world := w', calls := c\<rparr>"
          by (auto elim!: client_put_Ok [OF srv disjI2])
        then show ?thesis
          using made m(2) ex by (intro written [of w' ob' ob1 ex c]) (simp_all add: keyOf_def)
      qed
    next
      assume "\<not> isOk (fst (mutate f key ex ?s))"
      then show ?thesis using run unfolding at
        by (auto simp: bindM_def isOk_iff split: prod.splits outcome.splits)
    qed
  qed
qed

lemma CreateOrUpdate_idle:
  assumes srv: "object_server x look listed" and blind: "blind V" and ob: "keyOf ob = (k, key)"
    and at: "settledAt look f (k, key) (world s) s"
  obtains ob1 cs where "keyOf ob1 = (k, key)" and "list_all is_read cs"
    and "CreateOrUpdate x ob f s = (Ok (OperationResultNone, ob1), s\<lparr>calls := calls s @ cs\<rparr>)"
proof -
  obtain e e' where e: "look (world s) (k, key) = Some e" "fst (f e s) = Ok e'" "keyOf e' = (k, key)" "Semantic_DeepEqual e e'"
    using at by (auto simp: settledAt_def)
  have k: "kind_of ob = k" and key: "ObjectKeyFromObject ob = key" using ob by (simp_all add: keyOf_def)
  have "keyOf e = (k, key)" by (rule server_keys [OF srv e(1)])
  then have dec: "decodeAs k e = e" by (intro decodeAs_same) (simp add: keyOf_def)
  obtain missing where get: "\<forall>w k key. api_Get x k key w = (case look w (k, key) of None \<Rightarrow> Inl (missing k key) | Some ob \<Rightarrow> Inr ob, w)"
    using server_Get [OF srv] by blast
  let ?s = "s\<lparr>calls := calls s @ [CGet k key (Inr e)]\<rparr>"
  obtain cs where cs: "list_all is_read cs" "f e ?s = (fst (f e ?s), ?s\<lparr>calls := calls ?s @ cs\<rparr>)"
    by (rule reader_log [OF reads])
  have "fst (f e ?s) = Ok e'"
    using reader_fst [OF reads [of e], of ?s s] blind e(2) by (simp add: blind_def)
  with cs(2) have f: "f e ?s = (Ok e', ?s\<lparr>calls := calls ?s @ cs\<rparr>)" by simp
  have m: "mutate f key e ?s = (Ok e', ?s\<lparr>calls := calls ?s @ cs\<rparr>)"
    using f e(3) unfolding mutate_def bindM_Ok [where m = "f e" and s = ?s, OF f] by (simp add: keyOf_def ret_def)
  have "CreateOrUpdate x ob f s = bindM (mutate f key e) (\<lambda>ob'.
      if Semantic_DeepEqual e ob' then ret (OperationResultNone, ob')
      else bindM (client_update x ob') (\<lambda>updated. ret (OperationResultUpdated, updated))) ?s"
    using e(1) dec by (simp add: CreateOrUpdate_def k key get prog_unfold)
  then have "CreateOrUpdate x ob f s = (Ok (OperationResultNone, e'), ?s\<lparr>calls := calls ?s @ cs\<rparr>)"
    using e(4) unfolding bindM_Ok [where m = "mutate f key e" and s = ?s, OF m] by (simp add: ret_def)
  with e(3) cs(1) show thesis by (intro that [of e' "CGet k key (Inr e) # cs"]) simp_all
qed

end

section \<open>The closures of the reconcilers read at most\<close>

lemma pure_reading:
  fixes V :: "('w, call, 'z) env_scheme \<Rightarrow> 'v"
  assumes "pure_mutator k g"
  shows "reading_mutator V k (\<lambda>ob. liftOutcome (g ob))"
proof -
  have q: "fst (liftOutcome q s) = q" for q :: "obj outcome" and s :: "('w, call, 'z) env_scheme"
    by (simp add: liftOutcome_def)
  show ?thesis
  proof (rule reading_mutator.intro, unfold q, goal_cases)
    case (1 ob)
    show ?case by (rule reader_pure)
  next
    case (2 ob s ob')
    then show ?case by (rule pure_mutator.same_kind [OF assms])
  next
    case (3 ob s ob')
    then show ?case by (rule pure_mutator.same_key [OF assms])
  next
    case (4 ob s ob' u v)
    then show ?case by (rule pure_mutator.settled [OF assms])
  qed
qed

text \<open>Every contract of a pure closure is one of a closure that reads, whatever the view.\<close>

sublocale pure_mutator \<subseteq> reads: reading_mutator V k "\<lambda>ob. liftOutcome (g ob)"
  for V :: "('w, call, 'z) env_scheme \<Rightarrow> 'v"
  by (rule pure_reading) (rule pure_mutator_axioms)

context owned_setter
begin

lemma owned_mutator: "pure_mutator k (withOwner own h)"
  by (rule owned.pure_mutator_axioms)

end

lemma owned_reading:
  assumes blind: "blind V" and own: "owner_setter own1" and m: "reader V m"
    and h: "\<And>s b. fst (m s) = Ok b \<Longrightarrow> content_setter k (h b)"
  shows "reading_mutator V k (\<lambda>ob. bindM (liftSum (own1 ob)) (\<lambda>ob1. bindM m (\<lambda>b. liftOutcome (h b ob1))))"
proof -
  let ?f = "\<lambda>ob. bindM (liftSum (own1 ob)) (\<lambda>ob1. bindM m (\<lambda>b. liftOutcome (h b ob1)))"
  have eq: "fst (?f ob s) = Ok ob' \<longleftrightarrow> (\<exists>b. fst (m s) = Ok b \<and> withOwner own1 (h b) ob = Ok ob')" for ob s ob'
    by (auto simp: bindM_def liftSum_def liftOutcome_def withOwner_def ret_def fail_def
        split: sum.splits prod.splits outcome.splits)
  have pm: "pure_mutator k (withOwner own1 (h b))" if "fst (m s) = Ok b" for s b
    using owned_setter.intro [OF own h [OF that]] by (rule owned_setter.owned_mutator)
  show ?thesis
  proof (rule reading_mutator.intro, goal_cases)
    case (1 ob)
    show ?case by (intro reader_rules blind m)
  qed (auto simp only: eq dest: pure_mutator.same_kind [OF pm] pure_mutator.same_key [OF pm]
      intro: pure_mutator.settled [OF pm])
qed

section \<open>Phases that settle\<close>

text \<open>A run that succeeds, writes nothing and leaves the view as it is.\<close>

definition idle ::
  "(('w, call, 'z) env_scheme \<Rightarrow> 'v) \<Rightarrow> (('w, call, 'z) env_scheme \<Rightarrow> bool) \<Rightarrow>
   (('w, call, 'z) env_scheme, unit) prog \<Rightarrow> ('w, call, 'z) env_scheme \<Rightarrow> bool" where
  "idle V I P t \<longleftrightarrow>
     (\<exists>t' cs. P t = (Ok (), t') \<and> V t' = V t \<and> I t' \<and> world t' = world t \<and>
        calls t' = calls t @ cs \<and> list_all is_read cs)"

text \<open>
  A phase settles on a set of keys when a run of it that succeeds leaves an object at each of them,
  every other key and the view as they were, and is idle in every later state that has the same view
  and the same objects at these keys.
\<close>

definition settling ::
  "('w \<Rightarrow> kind \<times> nname \<Rightarrow> obj option) \<Rightarrow> (('w, call, 'z) env_scheme \<Rightarrow> 'v) \<Rightarrow>
   (('w, call, 'z) env_scheme \<Rightarrow> bool) \<Rightarrow> (('w, call, 'z) env_scheme, unit) prog \<Rightarrow> (kind \<times> nname) set \<Rightarrow> bool" where
  "settling look V I P K \<longleftrightarrow>
     (\<forall>s s1. I s \<longrightarrow> P s = (Ok (), s1) \<longrightarrow>
        V s1 = V s \<and> I s1 \<and> (\<forall>kk. kk \<notin> K \<longrightarrow> look (world s1) kk = look (world s) kk) \<and>
        (\<forall>kk\<in>K. look (world s1) kk \<noteq> None) \<and>
        (\<forall>t. I t \<longrightarrow> V t = V s1 \<longrightarrow> (\<forall>kk\<in>K. look (world t) kk = look (world s1) kk) \<longrightarrow> idle V I P t))"

lemma settlingD:
  assumes "settling look V I P K" and "I s" and "P s = (Ok (), s1)"
  shows "V s1 = V s" and "I s1" and "\<And>kk. kk \<notin> K \<Longrightarrow> look (world s1) kk = look (world s) kk"
    and "\<And>kk. kk \<in> K \<Longrightarrow> look (world s1) kk \<noteq> None"
    and "\<And>t. I t \<Longrightarrow> V t = V s1 \<Longrightarrow> (\<And>kk. kk \<in> K \<Longrightarrow> look (world t) kk = look (world s1) kk) \<Longrightarrow> idle V I P t"
  using assms unfolding settling_def by blast+

lemma settling_thenM:
  assumes p: "settling look V I P K" and q: "settling look V I Q L" and dis: "K \<inter> L = {}"
  shows "settling look V I (thenM P Q) (K \<union> L)"
  unfolding settling_def
proof (intro allI impI)
  fix s s2 assume s: "I s" and run: "thenM P Q s = (Ok (), s2)"
  obtain s1 where p1: "P s = (Ok (), s1)" and q1: "Q s1 = (Ok (), s2)"
    using run by (auto simp: thenM_def bindM_def split: prod.splits outcome.splits)
  note P = settlingD [OF p s p1] and Q = settlingD [OF q settlingD(2) [OF p s p1] q1]
  have "idle V I (thenM P Q) t"
    if t: "I t" "V t = V s2" "\<forall>kk\<in>K \<union> L. look (world t) kk = look (world s2) kk" for t
  proof -
    have "look (world t) kk = look (world s1) kk" if kk: "kk \<in> K" for kk
    proof -
      have "kk \<notin> L" using dis kk by blast
      from Q(3) [OF this] t(3) kk show ?thesis by simp
    qed
    then have "idle V I P t"
      using t(1,2) Q(1) by (intro P(5)) simp_all
    then obtain t1 cs1 where t1: "P t = (Ok (), t1)" "V t1 = V t" "I t1" "world t1 = world t"
        "calls t1 = calls t @ cs1" "list_all is_read cs1"
      unfolding idle_def by blast
    have "idle V I Q t1"
      using t t1(2,3,4) by (intro Q(5)) simp_all
    then obtain t2 cs2 where t2: "Q t1 = (Ok (), t2)" "V t2 = V t1" "I t2" "world t2 = world t1"
        "calls t2 = calls t1 @ cs2" "list_all is_read cs2"
      unfolding idle_def by blast
    have "thenM P Q t = (Ok (), t2)" using t1(1) t2(1) by (simp add: thenM_step)
    then show ?thesis
      unfolding idle_def using t1 t2 by (intro exI [of _ t2] exI [of _ "cs1 @ cs2"]) simp
  qed
  moreover have "\<forall>kk\<in>K \<union> L. look (world s2) kk \<noteq> None"
    using P(4) Q(3,4) by (metis Un_iff)
  ultimately show "V s2 = V s \<and> I s2 \<and> (\<forall>kk. kk \<notin> K \<union> L \<longrightarrow> look (world s2) kk = look (world s) kk) \<and>
      (\<forall>kk\<in>K \<union> L. look (world s2) kk \<noteq> None) \<and>
      (\<forall>t. I t \<longrightarrow> V t = V s2 \<longrightarrow> (\<forall>kk\<in>K \<union> L. look (world t) kk = look (world s2) kk) \<longrightarrow> idle V I (thenM P Q) t)"
    using P(1,3) Q(1,2,3) by simp
qed

lemma settling_wrapErr: "settling look V I P K \<Longrightarrow> settling look V I (wrapErr msg P) K"
proof -
  have ok: "wrapErr msg P s = (Ok (), s1) \<longleftrightarrow> P s = (Ok (), s1)" for s s1
    by (auto simp: wrapErr_def split: prod.splits outcome.splits)
  assume "settling look V I P K"
  then show ?thesis unfolding settling_def idle_def ok .
qed

lemma settling_skip: "settling look V I (ret ()) {}"
  by (auto simp: settling_def idle_def ret_def)

lemma settling_cong:
  assumes run: "\<And>s. I s \<Longrightarrow> P s = Q s" and q: "settling look V I Q K"
  shows "settling look V I P K"
  unfolding settling_def
proof (intro allI impI)
  fix s s1 assume s: "I s" and "P s = (Ok (), s1)"
  then have "Q s = (Ok (), s1)" by (simp add: run)
  note Q = settlingD [OF q s this]
  have idle: "idle V I P t" if "I t" "idle V I Q t" for t
    using that run [OF that(1)] by (simp add: idle_def)
  show "V s1 = V s \<and> I s1 \<and> (\<forall>kk. kk \<notin> K \<longrightarrow> look (world s1) kk = look (world s) kk) \<and>
      (\<forall>kk\<in>K. look (world s1) kk \<noteq> None) \<and>
      (\<forall>t. I t \<longrightarrow> V t = V s1 \<longrightarrow> (\<forall>kk\<in>K. look (world t) kk = look (world s1) kk) \<longrightarrow> idle V I P t)"
    using Q(1-4) idle Q(5) by blast
qed

lemma settling_when:
  assumes "\<And>s. I s \<Longrightarrow> b s = c" and "settling look V I P K"
  shows "settling look V I (bindM (gets b) (\<lambda>available. if \<not> available then ret () else P)) (if c then K else {})"
proof -
  have "settling look V I (if c then P else ret ()) (if c then K else {})"
    using assms(2) by (cases c) (simp_all add: settling_skip)
  then show ?thesis
    by (rule settling_cong [rotated]) (simp add: bindM_def gets_def assms(1))
qed

text \<open>The phases of the reconcilers: one object, held in a field.\<close>

lemma settling_createOrUpdate:
  assumes srv: "object_server x look listed" and unseen: "unseen look listed V (k, key)"
    and I: "env_stable I" "\<And>s. I s \<Longrightarrow> keyOf (field s) = (k, key)"
    and upd: "\<And>s ob. I s \<Longrightarrow> keyOf ob = (k, key) \<Longrightarrow> I (upd (\<lambda>_. ob) s) \<and> V (upd (\<lambda>_. ob) s) = V s"
      "\<And>s ob. world (upd (\<lambda>_. ob) s) = world s" "\<And>s ob. calls (upd (\<lambda>_. ob) s) = calls s"
    and f: "\<And>r. reading_mutator V k (f r)" "\<And>r r'. V r = V r' \<Longrightarrow> f r = f r'"
  shows "settling look V I (createOrUpdate x field upd f) {(k, key)}"
  unfolding settling_def
proof (intro allI impI)
  fix s s1 assume s: "I s" and run: "createOrUpdate x field upd f s = (Ok (), s1)"
  have blind: "blind V" by (rule unseen_blind [OF unseen])
  have at: "createOrUpdate x field upd f t =
      bindM (CreateOrUpdate x (field t) (f t)) (\<lambda>(_, ob). modify (upd (\<lambda>_. ob))) t" for t
    by (simp add: createOrUpdate_def bindM_def gets_def)
  obtain res ob1 t1 where cu: "CreateOrUpdate x (field s) (f s) s = (Ok (res, ob1), t1)" and s1: "s1 = upd (\<lambda>_. ob1) t1"
    using run unfolding at by (auto simp: bindM_def modify_def split: prod.splits outcome.splits)
  have made: "keyOf ob1 = (k, key)" "apart look listed (k, key) (world s) (world t1)"
    "settledAt look (f s) (k, key) (world t1) s" and "\<exists>cs. t1 = s\<lparr>world := world t1, calls := cs\<rparr>"
    using reading_mutator.CreateOrUpdate_settles [OF f(1) srv unseen I(2) [OF s] cu] by blast+
  then obtain cs where t1: "t1 = s\<lparr>world := world t1, calls := cs\<rparr>" by blast
  have I1: "I t1" using I(1) s unfolding env_stable_def by (subst t1) blast
  have V1: "V t1 = V s" using unseen made(2) unfolding unseen_def by (subst t1) blast
  note up = upd(1) [OF I1 made(1)]
  have idle: "idle V I (createOrUpdate x field upd f) t"
    if t: "I t" "V t = V s" "look (world t) (k, key) = look (world t1) (k, key)" for t
  proof -
    have ft: "f t = f s" by (rule f(2)) (rule t(2))
    have "fst (f s e t) = fst (f s e s)" for e
      by (rule reader_fst [OF reading_mutator.reads [OF f(1)] t(2)])
    then have "settledAt look (f t) (k, key) (world t) t"
      using made(3) t(3) by (simp add: settledAt_def ft)
    then obtain o2 cs2 where run2: "keyOf o2 = (k, key)" "list_all is_read cs2"
        "CreateOrUpdate x (field t) (f t) t = (Ok (OperationResultNone, o2), t\<lparr>calls := calls t @ cs2\<rparr>)"
      by (rule reading_mutator.CreateOrUpdate_idle [OF f(1) srv blind I(2) [OF t(1)]])
    let ?t = "t\<lparr>calls := calls t @ cs2\<rparr>"
    have It: "I ?t" using I(1) t(1) unfolding env_stable_def by (metis env.surjective env.update_convs(1,2))
    have Vt: "V ?t = V t" using blind by (simp add: blind_def)
    have "createOrUpdate x field upd f t = (Ok (), upd (\<lambda>_. o2) ?t)"
      unfolding at by (simp add: bindM_def run2(3) modify_def)
    then show ?thesis
      unfolding idle_def using upd(1) [OF It run2(1)] run2(2) Vt
      by (intro exI [of _ "upd (\<lambda>_. o2) ?t"] exI [of _ cs2]) (simp add: upd(2,3))
  qed
  show "V s1 = V s \<and> I s1 \<and> (\<forall>kk. kk \<notin> {(k, key)} \<longrightarrow> look (world s1) kk = look (world s) kk) \<and>
      (\<forall>kk\<in>{(k, key)}. look (world s1) kk \<noteq> None) \<and>
      (\<forall>t. I t \<longrightarrow> V t = V s1 \<longrightarrow> (\<forall>kk\<in>{(k, key)}. look (world t) kk = look (world s1) kk) \<longrightarrow>
        idle V I (createOrUpdate x field upd f) t)"
    using up V1 idle made(2,3) by (simp add: s1 upd(2) apart_def settledAt_def) blast
qed

end
