(* ===== verification/Mem_Cluster.thy ===== *)
theory Mem_Cluster
  imports Settling Mem_Server
begin

text \<open>
  The server over a list of objects as a map from kinds and keys to objects: what each of its
  operations does to the map, and that it stores what it is sent.
\<close>

section \<open>The abstract cluster\<close>

type_synonym cluster = "kind \<times> nname \<Rightarrow> obj option"

definition contents :: "store \<Rightarrow> cluster" where
  "contents w = (\<lambda>(k, key). find (isAt k key) w)"

definition stores :: "(store, 'y) client_scheme \<Rightarrow> bool" where
  "stores x \<longleftrightarrow> api_Get x = mem_Get \<and> api_Create x = mem_Create \<and> api_Update x = mem_Update"

lemma isAt_keyOf: "isAt k key ob \<longleftrightarrow> keyOf ob = (k, key)"
  by (simp add: isAt_def keyOf_def)

lemma find_isAt: "find (isAt k key) w = Some ob \<Longrightarrow> keyOf ob = (k, key)"
  by (auto simp: find_Some_iff isAt_keyOf)

text \<open>The server's operations on the map.\<close>

lemma mem_Get_contents:
  "mem_Get k key w = ((case contents w (k, key) of None \<Rightarrow> Inl (StatusError ReasonNotFound ''not found'')
      | Some ob \<Rightarrow> Inr ob), w)"
  by (simp add: mem_Get_def contents_def)

lemma find_or_else:
  "find P (xs @ ys) = (case find P xs of None \<Rightarrow> find P ys | Some x \<Rightarrow> Some x)"
  by (induction xs) auto

lemma absent_list_ex: "find P w = None \<longleftrightarrow> \<not> list_ex P w"
  by (auto simp: find_None_iff list_ex_iff)

lemma contents_append:
  "contents (w @ [ob]) kk = (case contents w kk of None \<Rightarrow> if kk = keyOf ob then Some ob else None | Some o1 \<Rightarrow> Some o1)"
  by (cases kk) (auto simp: contents_def find_or_else isAt_keyOf split: option.split)

lemma mem_Create_contents:
  assumes "contents w (keyOf ob) = None"
  shows "\<exists>w'. mem_Create ob w = (Inr ob, w') \<and> contents w' = (contents w)(keyOf ob \<mapsto> ob)"
proof -
  have "\<not> list_ex (isAt (kind_of ob) (ObjectKeyFromObject ob)) w"
    using assms by (simp add: contents_def keyOf_def absent_list_ex)
  then have "mem_Create ob w = (Inr ob, w @ [ob])"
    by (simp add: mem_Create_def)
  moreover have "contents (w @ [ob]) = (contents w)(keyOf ob \<mapsto> ob)"
    using assms by (intro ext) (auto simp: contents_append split: option.split)
  ultimately show ?thesis by blast
qed

lemma find_replaced:
  "keyOf ob = (k0, key0) \<Longrightarrow>
   find (isAt k key) (map (\<lambda>o1. if isAt k0 key0 o1 then ob else o1) w) =
     (if (k, key) = (k0, key0) then (if list_ex (isAt k0 key0) w then Some ob else None)
      else find (isAt k key) w)"
  by (induction w) (auto simp: isAt_keyOf)

lemma mem_Update_contents:
  assumes "contents w (keyOf ob) \<noteq> None"
  shows "\<exists>w'. mem_Update ob w = (Inr ob, w') \<and> contents w' = (contents w)(keyOf ob \<mapsto> ob)"
proof -
  have ex: "list_ex (isAt (kind_of ob) (ObjectKeyFromObject ob)) w"
    using assms by (auto simp: contents_def keyOf_def absent_list_ex)
  then show ?thesis
    by (auto simp: mem_Update_def contents_def fun_eq_iff keyOf_def
        find_replaced [of ob "kind_of ob" "ObjectKeyFromObject ob"])
qed

section \<open>It stores what it is sent\<close>

definition mem_listed :: "store \<Rightarrow> kind \<Rightarrow> string option \<Rightarrow> nat option \<Rightarrow> obj list" where
  "mem_listed w k ns lim =
     (let found = filter (\<lambda>ob. kind_of ob = k \<and> (ns = None \<or> ns = Some (Namespace (meta ob)))) w in
      case lim of None \<Rightarrow> found | Some n \<Rightarrow> take n found)"

lemma stamp_same: "\<exists>u v. ob = stamp u v ob"
  by (intro exI [of _ "UID (meta ob)"] exI [of _ "ResourceVersion (meta ob)"]) (simp add: stamp_def)

lemma mem_listed_append: "kind_of ob \<noteq> k \<Longrightarrow> mem_listed (w @ [ob]) k = mem_listed w k"
  by (simp add: mem_listed_def fun_eq_iff)

lemma mem_listed_replaced:
  assumes "kind_of ob \<noteq> k"
  shows "mem_listed (map (\<lambda>o1. if isAt (kind_of ob) key o1 then ob else o1) w) k = mem_listed w k"
proof -
  have "filter (\<lambda>ob. kind_of ob = k \<and> Q ob) (map (\<lambda>o1. if isAt (kind_of ob) key o1 then ob else o1) w) =
      filter (\<lambda>ob. kind_of ob = k \<and> Q ob) w" for Q
    using assms by (induction w) (auto simp: isAt_def)
  then show ?thesis by (simp add: mem_listed_def fun_eq_iff)
qed

lemma mem_writes_listed:
  assumes "k \<noteq> kind_of ob"
  shows "mem_Create ob w = (Inr ob', w') \<Longrightarrow> mem_listed w' k = mem_listed w k"
    and "mem_Update ob w = (Inr ob', w') \<Longrightarrow> mem_listed w' k = mem_listed w k"
  using assms
  by (auto simp: mem_Create_def mem_Update_def mem_listed_append mem_listed_replaced split: if_splits)

lemma mem_Update_keys: "mem_Update ob w = (Inr ob', w') \<Longrightarrow> map keyOf w' = map keyOf w"
  by (auto simp: mem_Update_def isAt_def keyOf_def split: if_splits)

text \<open>No two objects of a store have the same kind and key.\<close>

abbreviation uniqueKeys :: "store \<Rightarrow> bool" where
  "uniqueKeys w \<equiv> distinct (map keyOf w)"

lemma mem_writes_unique:
  shows "mem_Create ob w = (Inr ob', w') \<Longrightarrow> uniqueKeys w \<Longrightarrow> uniqueKeys w'"
    and "mem_Update ob w = (Inr ob', w') \<Longrightarrow> uniqueKeys w \<Longrightarrow> uniqueKeys w'"
proof -
  show "uniqueKeys w'" if "mem_Create ob w = (Inr ob', w')" "uniqueKeys w"
    using that by (fastforce simp: mem_Create_def list_ex_iff isAt_def keyOf_def split: if_splits)
  show "uniqueKeys w'" if "mem_Update ob w = (Inr ob', w')" "uniqueKeys w"
    using mem_Update_keys [OF that(1)] that(2) by simp
qed

lemma contents_found: "contents w kk = Some ob \<Longrightarrow> ob \<in> set w \<and> keyOf ob = kk"
  by (cases kk) (auto simp: contents_def find_Some_iff isAt_keyOf)

lemma contents_present: "ob \<in> set w \<Longrightarrow> contents w (keyOf ob) \<noteq> None"
  by (cases "keyOf ob") (auto simp: contents_def find_None_iff isAt_keyOf)

lemma contents_member: "uniqueKeys w \<Longrightarrow> ob \<in> set w \<Longrightarrow> contents w (keyOf ob) = Some ob"
proof (induction w)
  case (Cons o1 w)
  have "keyOf o1 \<noteq> keyOf ob" if "o1 \<noteq> ob"
    using Cons.prems that by force
  with Cons show ?case by (cases "o1 = ob") (auto simp: contents_def isAt_keyOf split: prod.splits)
qed simp

lemma mem_object_server:
  assumes "stores x" and "api_List x = mem_List"
  shows "object_server x contents mem_listed"
  unfolding object_server_def
proof (intro conjI allI impI)
  show "\<exists>missing. (\<forall>k key. IsNotFound (missing k key)) \<and> (\<forall>w k key. api_Get x k key w =
      (case contents w (k, key) of None \<Rightarrow> Inl (missing k key) | Some ob \<Rightarrow> Inr ob, w))"
    using assms(1) by (intro exI [of _ "\<lambda>_ _. StatusError ReasonNotFound ''not found''"]) (simp add: stores_def mem_Get_contents)
  show "keyOf ob = (k, key)" if "contents w (k, key) = Some ob" for w k key ob
    using that by (auto simp: contents_def dest: find_isAt)
  show "api_List x k ns lim w = (Inr (mem_listed w k ns lim), w)" for w k ns lim
    by (simp add: assms(2) mem_List_def mem_listed_def Let_def)
  show "stored contents mem_listed w w' ob ob'" if "api_Create x ob w = (Inr ob', w')" for w ob ob' w'
  proof -
    have "mem_Create ob w = (Inr ob', w')" using that assms(1) by (simp add: stores_def)
    moreover from this have "contents w (keyOf ob) = None" "w' = w @ [ob]"
      by (auto simp: mem_Create_def contents_def keyOf_def absent_list_ex split: if_splits)
    ultimately show ?thesis
      using mem_Create_contents [of w ob] stamp_same [of ob] mem_listed_append [of ob _ w]
      by (simp add: stored_def)
  qed
  show "stored contents mem_listed w w' ob ob'" if "api_Update x ob w = (Inr ob', w')" for w ob ob' w'
  proof -
    have up: "mem_Update ob w = (Inr ob', w')" using that assms(1) by (simp add: stores_def)
    then have "contents w (keyOf ob) \<noteq> None"
      and "w' = map (\<lambda>o1. if isAt (kind_of ob) (ObjectKeyFromObject ob) o1 then ob else o1) w"
      by (auto simp: mem_Update_def contents_def keyOf_def absent_list_ex split: if_splits)
    with up show ?thesis
      using mem_Update_contents [of w ob] stamp_same [of ob] mem_listed_replaced [of ob _ "ObjectKeyFromObject ob" w]
      by (simp add: stored_def)
  qed
qed

end
