(* ===== verification/Operator_Refinement.thy ===== *)
theory Operator_Refinement
  imports Watch_Runs Mem_Offering Offering_Outcomes Mem_Cluster
begin

text \<open>
  The operator's objects against an abstract cluster: a map from kinds and keys to objects. On a
  server that stores what it is sent, the three \<open>CreateOrUpdate\<close> of the operator phase implement
  three assignments of that map.
\<close>

section \<open>Assignments\<close>

text \<open>An assignment writes at a key an object made from the one that is there.\<close>

type_synonym assignment = "(kind \<times> nname) \<times> (obj option \<Rightarrow> obj)"

fun assigns :: "assignment list \<Rightarrow> cluster \<Rightarrow> cluster" where
  "assigns [] cl = cl"
| "assigns ((kk, f) # ws) cl = assigns ws (cl(kk \<mapsto> f (cl kk)))"

lemma assigns_append: "assigns (ws @ vs) cl = assigns vs (assigns ws cl)"
  by (induction ws arbitrary: cl) auto

lemma assigns_lookup:
  "distinct (map fst ws) \<Longrightarrow>
     assigns ws cl kk = (case map_of ws kk of None \<Rightarrow> cl kk | Some f \<Rightarrow> Some (f (cl kk)))"
proof (induction ws arbitrary: cl)
  case (Cons w ws)
  obtain kk0 f where w: "w = (kk0, f)" by (cases w)
  have "map_of ws kk0 = None" using Cons.prems by (simp add: w map_of_eq_None_iff)
  with Cons show ?case by (cases "kk = kk0") (auto simp: w split: option.split)
qed simp

lemma assigns_other: "kk \<notin> fst ` set ws \<Longrightarrow> assigns ws cl kk = cl kk"
  by (induction ws arbitrary: cl) auto

text \<open>Assignments at distinct keys, each of which leaves what it has made, can be repeated.\<close>

lemma assigns_twice:
  assumes "distinct (map fst ws)" and "\<And>kk f v. (kk, f) \<in> set ws \<Longrightarrow> f (Some (f v)) = f v"
  shows "assigns ws (assigns ws cl) = assigns ws cl"
  using assms(2) by (auto simp: fun_eq_iff assigns_lookup [OF assms(1)] split: option.split dest: map_of_SomeD)

text \<open>
  Assignments on the list server: their effect on the map, no effect on lists of other kinds, and
  keys stay unique.
\<close>

definition assigned :: "assignment list \<Rightarrow> store \<Rightarrow> store \<Rightarrow> bool" where
  "assigned ws w w' \<longleftrightarrow> contents w' = assigns ws (contents w) \<and>
     (\<forall>k. k \<notin> (\<lambda>a. fst (fst a)) ` set ws \<longrightarrow> mem_listed w' k = mem_listed w k) \<and>
     (uniqueKeys w \<longrightarrow> uniqueKeys w')"

lemma assigned_append: "assigned ws w w1 \<Longrightarrow> assigned vs w1 w2 \<Longrightarrow> assigned (ws @ vs) w w2"
  by (simp add: assigned_def assigns_append image_Un)

lemma assigned_same: "contents w kk = Some ob \<Longrightarrow> assigned [(kk, \<lambda>_. ob)] w w"
  by (simp add: assigned_def fun_upd_idem)

lemma assigned_create:
  assumes "contents w (keyOf ob) = None"
  obtains w' where "mem_Create ob w = (Inr ob, w')" and "assigned [(keyOf ob, \<lambda>_. ob)] w w'"
proof -
  obtain w' where "mem_Create ob w = (Inr ob, w')" "contents w' = (contents w)(keyOf ob \<mapsto> ob)"
    using mem_Create_contents [OF assms] by blast
  then show thesis
    using that mem_writes_listed(1) [of _ ob w ob w'] mem_writes_unique(1) [of ob w ob w']
    by (auto simp: assigned_def keyOf_def)
qed

lemma assigned_update:
  assumes "contents w (keyOf ob) \<noteq> None"
  obtains w' where "mem_Update ob w = (Inr ob, w')" and "assigned [(keyOf ob, \<lambda>_. ob)] w w'"
proof -
  obtain w' where "mem_Update ob w = (Inr ob, w')" "contents w' = (contents w)(keyOf ob \<mapsto> ob)"
    using mem_Update_contents [OF assms] by blast
  then show thesis
    using that mem_writes_listed(2) [of _ ob w ob w'] mem_writes_unique(2) [of ob w ob w']
    by (auto simp: assigned_def keyOf_def)
qed

section \<open>CreateOrUpdate and GetAndUpdate as assignments\<close>

text \<open>The object of a key, or the one the code would create.\<close>

definition current :: "cluster \<Rightarrow> obj \<Rightarrow> obj" where
  "current cl ob = (case cl (keyOf ob) of None \<Rightarrow> ob | Some ex \<Rightarrow> ex)"

context pure_mutator
begin

lemma CreateOrUpdate_refines:
  assumes x: "stores x" and k: "kind_of ob = k" and made: "g (current (contents (world s)) ob) = Ok ob1"
    and exact: "\<And>ex ob1. g ex = Ok ob1 \<Longrightarrow> Semantic_DeepEqual ex ob1 \<Longrightarrow> ex = ob1"
  shows "\<exists>res w' cs. CreateOrUpdate x ob (\<lambda>o1. liftOutcome (g o1)) s = (Ok (res, ob1), s\<lparr>world := w', calls := cs\<rparr>) \<and>
    assigned [(keyOf ob, \<lambda>_. ob1)] (world s) w'"
proof -
  let ?key = "ObjectKeyFromObject ob"
  have ko: "keyOf ob = (k, ?key)" by (simp add: keyOf_def k)
  show ?thesis
  proof (cases "contents (world s) (k, ?key)")
    case None
    then have g1: "g ob = Ok ob1" using made by (simp add: current_def ko)
    have k1: "kind_of ob1 = k" and key1: "ObjectKeyFromObject ob1 = ?key"
      using same_kind [OF k g1] same_key [OF k g1] by simp_all
    then have ko1: "keyOf ob1 = keyOf ob" by (simp add: keyOf_def k)
    obtain w' where "mem_Create ob1 (world s) = (Inr ob1, w')" and "assigned [(keyOf ob1, \<lambda>_. ob1)] (world s) w'"
      by (rule assigned_create [of "world s" ob1]) (use None ko ko1 in auto)
    then show ?thesis
      using x None g1 k k1 key1 ko1
      by (auto simp: CreateOrUpdate_def stores_def mem_Get_contents prog_unfold)
  next
    case (Some ex)
    then have g1: "g ex = Ok ob1" using made by (simp add: current_def ko)
    have ex: "kind_of ex = k" "ObjectKeyFromObject ex = ?key"
      using Some by (auto simp: contents_def dest!: find_isAt simp: keyOf_def)
    have k1: "kind_of ob1 = k" and key1: "ObjectKeyFromObject ob1 = ?key"
      using same_kind [OF ex(1) g1] same_key [OF ex(1) g1] ex by simp_all
    then have ko1: "keyOf ob1 = keyOf ob" by (simp add: keyOf_def k)
    show ?thesis
    proof (cases "Semantic_DeepEqual ex ob1")
      case True
      then have eq: "ex = ob1" by (rule exact [OF g1])
      have "\<exists>w' cs. s\<lparr>calls := c\<rparr> = s\<lparr>world := w', calls := cs\<rparr> \<and> assigned [(keyOf ob, \<lambda>_. ob1)] (world s) w'" for c
        using Some eq by (intro exI [of _ "world s"] exI [of _ c]) (simp add: assigned_same ko)
      then show ?thesis
        using x Some g1 k ex eq
        by (auto simp: CreateOrUpdate_def stores_def mem_Get_contents prog_unfold)
    next
      case False
      obtain w' where "mem_Update ob1 (world s) = (Inr ob1, w')" and "assigned [(keyOf ob1, \<lambda>_. ob1)] (world s) w'"
        by (rule assigned_update [of "world s" ob1]) (use Some ko ko1 in auto)
      then show ?thesis
        using x Some False g1 k ex k1 key1 ko1
        by (auto simp: CreateOrUpdate_def stores_def mem_Get_contents prog_unfold)
    qed
  qed
qed

text \<open>The object must be there; it is written unless the closure changes nothing.\<close>

lemma GetAndUpdate_refines:
  assumes x: "stores x" and k: "kind_of ob = k" and there: "contents (world s) (keyOf ob) = Some ex" and g1: "g ex = Ok ob1"
    and exact: "Semantic_DeepEqual ex ob1 \<Longrightarrow> ex = ob1"
  shows "\<exists>w' cs. GetAndUpdate x ob (\<lambda>o1. liftOutcome (g o1)) s = (Ok ob1, s\<lparr>world := w', calls := cs\<rparr>) \<and>
    (w' = world s \<and> ob1 = ex \<or> mem_Update ob1 (world s) = (Inr ob1, w')) \<and>
    assigned [(keyOf ob, \<lambda>_. ob1)] (world s) w'"
proof -
  have ko: "keyOf ob = (k, ObjectKeyFromObject ob)" by (simp add: keyOf_def k)
  have ex: "kind_of ex = k" "ObjectKeyFromObject ex = ObjectKeyFromObject ob"
    using there ko by (auto simp: contents_def dest!: find_isAt simp: keyOf_def)
  have k1: "kind_of ob1 = k" and key1: "ObjectKeyFromObject ob1 = ObjectKeyFromObject ob"
    using same_kind [OF ex(1) g1] same_key [OF ex(1) g1] ex by simp_all
  then have ko1: "keyOf ob1 = keyOf ob" by (simp add: keyOf_def k)
  show ?thesis
  proof (cases "Semantic_DeepEqual ex ob1")
    case True
    then have eq: "ex = ob1" by (rule exact)
    have "s\<lparr>calls := c\<rparr> = s\<lparr>world := world s, calls := c\<rparr>" for c by simp
    then show ?thesis
      using x there ko g1 k ex eq assigned_same [of "world s" "keyOf ob" ob1]
      by (intro exI [of _ "world s"]) (auto simp: GetAndUpdate_def stores_def mem_Get_contents prog_unfold)
  next
    case False
    obtain w' where "mem_Update ob1 (world s) = (Inr ob1, w')" and "assigned [(keyOf ob1, \<lambda>_. ob1)] (world s) w'"
      by (rule assigned_update [of "world s" ob1]) (use there ko1 in auto)
    then show ?thesis
      using x there False g1 k ex k1 key1 ko ko1
      by (intro exI [of _ w']) (auto simp: GetAndUpdate_def stores_def mem_Get_contents prog_unfold)
  qed
qed

end

section \<open>The operator phase\<close>

text \<open>
  The specification: the offering becomes an owner of the object at a key, which is made if there
  is none, and the body is the desired one.
\<close>

definition ownedAs :: "bool \<Rightarrow> obj \<Rightarrow> obj \<Rightarrow> obj" where
  "ownedAs c off ob = setOwners (putOwner (newOwnerRef offeringGVK off c) (OwnerReferences (meta ob))) ob"

text \<open>The body may depend on the object that is there.\<close>

definition placedAs :: "bool \<Rightarrow> obj \<Rightarrow> kind \<Rightarrow> nname \<Rightarrow> (obj \<Rightarrow> obody) \<Rightarrow> assignment" where
  "placedAs c off k key bd =
     ((k, key), \<lambda>v.
        let ob = (case v of None \<Rightarrow> named k (fst key) (snd key) | Some ob \<Rightarrow> ob) in
        setBody (bd ob) (ownedAs c off ob))"

abbreviation placed :: "obj \<Rightarrow> kind \<Rightarrow> nname \<Rightarrow> obody \<Rightarrow> assignment" where
  "placed off k key bd \<equiv> placedAs True off k key (\<lambda>_. bd)"

definition operatorWrites :: "obj \<Rightarrow> string \<Rightarrow> assignment list" where
  "operatorWrites off ns =
     (let df = (mfo_Kind (offeringSpecOf off) = KindDataFoundation) in
      [placed off KOperatorGroup (operatorGroupName, ns) (OperatorGroup (if df then [ns] else [])),
       placed off KCatalogSource (catalogSourceName, ns)
         (CatalogSource \<lparr>cs_Image = ''registry.redhat.io/redhat/redhat-operator-index:v4.12'',
            cs_SourceType = ''grpc''\<rparr>),
       placed off KSubscription (subscriptionName, ns)
         (Subscription (Some \<lparr>sb_Channel = ''stable-4.12'',
            sb_Package = (if df then ''ocs-operator'' else ''ocs-client-operator''),
            sb_Env = (if df then Some [(''SKIP_NOOBAA_CRD_WATCH'', ''true''),
               (''ROOK_DISABLE_OBJECT_BUCKET_CLAIM'', ''true'')] else None),
            sb_CatalogSource = catalogSourceName, sb_CatalogSourceNamespace = ns,
            sb_InstallPlanApproval = ''Automatic''\<rparr>))])"

definition operatorSpec :: "obj \<Rightarrow> string \<Rightarrow> cluster \<Rightarrow> cluster" where
  "operatorSpec off ns = assigns (operatorWrites off ns)"

lemma ownBy_ownedAs:
  assumes "kind_of (managedFusionOffering r) = KManagedFusionOffering"
  shows "ownBy c r ob = Inr (ownedAs c (managedFusionOffering r) ob)"
proof -
  have "agentScheme KManagedFusionOffering = Some offeringGVK"
    by (simp add: offeringGVK_def)
  with assms show ?thesis
    by (simp add: ownBy_def AddOwnerReference_def GVKForObject_def ownedAs_def)
qed

lemma ownedAs_frame [simp]:
  "kind_of (ownedAs c off ob) = kind_of ob" "body (ownedAs c off ob) = body ob"
  "ObjectKeyFromObject (ownedAs c off ob) = ObjectKeyFromObject ob" "keyOf (ownedAs c off ob) = keyOf ob"
  "Name (meta (ownedAs c off ob)) = Name (meta ob)" "Namespace (meta (ownedAs c off ob)) = Namespace (meta ob)"
  by (simp_all add: ownedAs_def keyOf_def ObjectKeyFromObject_def)

lemma ownedAs_twice: "ownedAs c off (setBody bd (ownedAs c off ob)) = setBody bd (ownedAs c off ob)"
  unfolding ownedAs_def by (intro setOwners_same) (simp add: putOwner_idem)

text \<open>A change that is semantically none is none: labels and annotations are not touched.\<close>

lemma placed_exact:
  assumes "Semantic_DeepEqual ex (setBody bd (ownedAs c off ex))" and "\<And>b. semBody b = bd \<Longrightarrow> b = bd" and "semBody bd = bd"
  shows "ex = setBody bd (ownedAs c off ex)"
proof -
  have "semObj ex = semObj (setBody bd (ownedAs c off ex))"
    using assms(1) by (simp add: Semantic_DeepEqual_def)
  then have m: "semMeta (meta (ownedAs c off ex)) = semMeta (meta ex)" and b: "body ex = bd"
    using assms(2,3) by (auto simp: semObj_def)
  have "OwnerReferences (meta (ownedAs c off ex)) = OwnerReferences (meta ex)"
    using arg_cong [OF m, of OwnerReferences] by (simp add: semMeta_def)
  then have "ownedAs c off ex = ex"
    unfolding ownedAs_def by (intro setOwners_same) simp
  with b show ?thesis by (simp add: setBody_same)
qed

text \<open>One owned object: its assignment, and what the reconciler keeps of it.\<close>

lemma createOrUpdate_assigns:
  assumes x: "stores x" and pm: "pure_mutator k (g r)" and field: "field r = named k n ns"
    and g: "\<And>ob. g r ob = Ok (fill ob)" and exact: "\<And>ob. Semantic_DeepEqual ob (fill ob) \<Longrightarrow> ob = fill ob"
  obtains w cs ob1 where
      "createOrUpdate x field upd (\<lambda>r ob. liftOutcome (g r ob)) r = (Ok (), upd (\<lambda>_. ob1) (r\<lparr>world := w, calls := cs\<rparr>))"
    and "assigned [((k, n, ns), \<lambda>v. fill (case v of None \<Rightarrow> named k n ns | Some ob \<Rightarrow> ob))] (world r) w"
    and "keyOf ob1 = (k, n, ns)"
proof -
  let ?cur = "current (contents (world r)) (named k n ns)"
  have ko: "keyOf (named k n ns) = (k, n, ns)" by (simp add: keyOf_def)
  have cur: "keyOf ?cur = (k, n, ns)"
    by (auto simp: current_def ko contents_def split: option.split dest: find_isAt)
  obtain res w cs where run: "CreateOrUpdate x (named k n ns) (\<lambda>o1. liftOutcome (g r o1)) r =
      (Ok (res, fill ?cur), r\<lparr>world := w, calls := cs\<rparr>)"
    and asg: "assigned [((k, n, ns), \<lambda>_. fill ?cur)] (world r) w"
    using pure_mutator.CreateOrUpdate_refines [where s = r and ob = "named k n ns", OF pm x _ g] exact g ko by auto
  show thesis
  proof (rule that)
    show "createOrUpdate x field upd (\<lambda>r ob. liftOutcome (g r ob)) r =
        (Ok (), upd (\<lambda>_. fill ?cur) (r\<lparr>world := w, calls := cs\<rparr>))"
      using run by (simp add: createOrUpdate_def gets_def bindM_step modify_def field)
    show "assigned [((k, n, ns), \<lambda>v. fill (case v of None \<Rightarrow> named k n ns | Some ob \<Rightarrow> ob))] (world r) w"
      using asg by (simp add: assigned_def ko current_def cong: option.case_cong)
    have "kind_of (fill ?cur) = k" "ObjectKeyFromObject (fill ?cur) = ObjectKeyFromObject ?cur"
      using pure_mutator.same_kind [OF pm _ g] pure_mutator.same_key [OF pm _ g] cur by (auto simp: keyOf_def)
    then show "keyOf (fill ?cur) = (k, n, ns)" using cur by (simp add: keyOf_def)
  qed
qed

lemma createOrUpdateOwned_places:
  assumes x: "stores x" and off: "kind_of (managedFusionOffering r) = KManagedFusionOffering"
    and pm: "pure_mutator k (withOwner (ownBy True r) (h r))"
    and field: "field r = named k n ns" and h: "\<And>ob. h r ob = Ok (setBody (bd ob) ob)"
    and owned: "\<And>off ob. bd (ownedAs True off ob) = bd ob"
    and bd: "\<And>ob b. semBody b = bd ob \<Longrightarrow> b = bd ob" "\<And>ob. semBody (bd ob) = bd ob"
  obtains w cs ob1 where "createOrUpdateOwned x field upd h r = (Ok (), upd (\<lambda>_. ob1) (r\<lparr>world := w, calls := cs\<rparr>))"
    and "assigned [placedAs True (managedFusionOffering r) k (n, ns) bd] (world r) w"
    and "Name (meta ob1) = n" and "Namespace (meta ob1) = ns"
proof (rule createOrUpdate_assigns [where r = r and g = "\<lambda>r. withOwner (ownBy True r) (h r)" and
      field = field and upd = upd and k = k and n = n and ns = ns and
      fill = "\<lambda>ob. setBody (bd ob) (ownedAs True (managedFusionOffering r) ob)", OF x pm field])
  show "withOwner (ownBy True r) (h r) ob = Ok (setBody (bd ob) (ownedAs True (managedFusionOffering r) ob))" for ob
    by (simp add: withOwner_def ownBy_ownedAs [OF off] h owned)
  show "ob = setBody (bd ob) (ownedAs True (managedFusionOffering r) ob)"
    if "Semantic_DeepEqual ob (setBody (bd ob) (ownedAs True (managedFusionOffering r) ob))" for ob
    using that bd by (rule placed_exact)
next
  fix w cs ob1
  assume "createOrUpdate x field upd (\<lambda>r ob. liftOutcome (withOwner (ownBy True r) (h r) ob)) r =
      (Ok (), upd (\<lambda>_. ob1) (r\<lparr>world := w, calls := cs\<rparr>))"
    and "assigned [((k, n, ns), \<lambda>v. setBody (bd (case v of None \<Rightarrow> named k n ns | Some ob \<Rightarrow> ob))
          (ownedAs True (managedFusionOffering r) (case v of None \<Rightarrow> named k n ns | Some ob \<Rightarrow> ob)))] (world r) w"
    and "keyOf ob1 = (k, n, ns)"
  then show thesis
    by (intro that)
      (auto simp: createOrUpdateOwned_def placedAs_def Let_def keyOf_def ObjectKeyFromObject_def cong: option.case_cong)
qed

lemma semBody_exact:
  "semBody b = OperatorGroup l \<Longrightarrow> b = OperatorGroup l" "semBody b = CatalogSource c \<Longrightarrow> b = CatalogSource c"
  "semBody b = Subscription s \<Longrightarrow> b = Subscription s"
  by (cases b; simp)+

section \<open>Convergence of the specification\<close>

lemma placedAs_twice:
  assumes "(kk, f) = placedAs c off k key bd" and "\<And>ob. bd (setBody (bd ob) (ownedAs c off ob)) = bd ob"
  shows "f (Some (f v)) = f v"
  using assms(1) by (simp add: placedAs_def Let_def assms(2) ownedAs_twice)

lemma placed_twice: "(kk, f) = placedAs c off k key (\<lambda>_. bd) \<Longrightarrow> f (Some (f v)) = f v"
  by (erule placedAs_twice) simp

lemma fst_placedAs [simp]: "fst (placedAs c off k key bd) = (k, key)"
  by (simp add: placedAs_def)

lemma operatorSpec_idem: "operatorSpec off ns (operatorSpec off ns cl) = operatorSpec off ns cl"
  unfolding operatorSpec_def
  by (rule assigns_twice) (auto simp: operatorWrites_def Let_def intro: placed_twice)

section \<open>Refinement\<close>

lemma reconcileOperatorGroup_places:
  assumes "stores x" and "kind_of (managedFusionOffering r) = KManagedFusionOffering"
    and "operatorGroup r = named KOperatorGroup n ns"
  obtains w cs og where "reconcileOperatorGroup x r = (Ok (), r\<lparr>world := w, calls := cs, operatorGroup := og\<rparr>)"
    and "assigned [placed (managedFusionOffering r) KOperatorGroup (n, ns)
           (OperatorGroup (pluginGetDesiredOperatorGroupSpec r))] (world r) w"
  by (rule createOrUpdateOwned_places [where r = r and field = operatorGroup and upd = operatorGroup_update
        and h = "\<lambda>r. fillBody (OperatorGroup (pluginGetDesiredOperatorGroupSpec r))"
        and bd = "\<lambda>_. OperatorGroup (pluginGetDesiredOperatorGroupSpec r)",
        OF assms(1,2) operator_group_fill.owned.pure_mutator_axioms assms(3)])
    (auto simp: fillBody_def reconcileOperatorGroup_def wrapErr_def dest: semBody_exact)

lemma reconcileCatalogSource_places:
  assumes "stores x" and "kind_of (managedFusionOffering r) = KManagedFusionOffering"
    and "catalogSource r = named KCatalogSource n ns"
  obtains w cs src where "reconcileCatalogSource x r = (Ok (), r\<lparr>world := w, calls := cs, catalogSource := src\<rparr>)"
    and "assigned [placed (managedFusionOffering r) KCatalogSource (n, ns)
           (CatalogSource (pluginGetDesiredCatalogSourceSpec\<lparr>cs_SourceType := ''grpc''\<rparr>))] (world r) w"
    and "Name (meta src) = n" and "Namespace (meta src) = ns"
  by (rule createOrUpdateOwned_places [where r = r and field = catalogSource and upd = catalogSource_update
        and h = "\<lambda>r. fillBody (CatalogSource (pluginGetDesiredCatalogSourceSpec\<lparr>cs_SourceType := ''grpc''\<rparr>))"
        and bd = "\<lambda>_. CatalogSource (pluginGetDesiredCatalogSourceSpec\<lparr>cs_SourceType := ''grpc''\<rparr>)",
        OF assms(1,2) catalog_source_fill.owned.pure_mutator_axioms assms(3)])
    (auto simp: fillBody_def reconcileCatalogSource_def wrapErr_def dest: semBody_exact)

lemma reconcileSubscription_places:
  assumes "stores x" and "kind_of (managedFusionOffering r) = KManagedFusionOffering"
    and "subscription r = named KSubscription n ns" and spec: "pluginGetDesiredSubscriptionSpec r = Some spec"
  obtains w cs sub where "reconcileSubscription x r = (Ok (), r\<lparr>world := w, calls := cs, subscription := sub\<rparr>)"
    and "assigned [placed (managedFusionOffering r) KSubscription (n, ns)
           (Subscription (Some (spec\<lparr>sb_CatalogSource := Name (meta (catalogSource r)),
              sb_CatalogSourceNamespace := Namespace (meta (catalogSource r)), sb_InstallPlanApproval := ''Automatic''\<rparr>)))] (world r) w"
  by (rule createOrUpdateOwned_places [where r = r and field = subscription and upd = subscription_update
        and h = fillSubscription
        and bd = "\<lambda>_. Subscription (Some (spec\<lparr>sb_CatalogSource := Name (meta (catalogSource r)),
              sb_CatalogSourceNamespace := Namespace (meta (catalogSource r)), sb_InstallPlanApproval := ''Automatic''\<rparr>))",
        OF assms(1,2) subscription_fill.owned.pure_mutator_axioms assms(3)])
    (auto simp: fillSubscription_def spec reconcileSubscription_def wrapErr_def dest: semBody_exact)

lemmas desired_specs = pluginGetDesiredSubscriptionSpec_def pluginGetDesiredOperatorGroupSpec_def
  pluginGetDesiredCatalogSourceSpec_def Let_def knownKind_def KindDataFoundation_def KindDataFoundationClient_def

text \<open>The state the reconciler works on: the names of \<open>initReconciler\<close> and the offering it has read.\<close>

definition worksOn :: "obj \<Rightarrow> string \<Rightarrow> store offering \<Rightarrow> bool" where
  "worksOn off ns r \<longleftrightarrow> operatorGroup r = named KOperatorGroup operatorGroupName ns \<and>
     catalogSource r = named KCatalogSource catalogSourceName ns \<and>
     subscription r = named KSubscription subscriptionName ns \<and> namespace r = ns \<and> managedFusionOffering r = off"

lemma operatorResources_places:
  assumes x: "stores x" and off: "kind_of off = KManagedFusionOffering" "knownKind off" and r: "worksOn off ns r"
  obtains s where "operatorResources x r = (Ok (), s)" and "assigned (operatorWrites off ns) (world r) (world s)"
    and "managedFusionOffering s = off" and "namespace s = ns" and "offeringCRDs s = offeringCRDs r"
proof -
  note fields = r [unfolded worksOn_def, THEN conjunct1] r [unfolded worksOn_def, THEN conjunct2, THEN conjunct1]
    r [unfolded worksOn_def, THEN conjunct2, THEN conjunct2]
  have more: "subscription r = named KSubscription subscriptionName ns" "namespace r = ns" "managedFusionOffering r = off"
    using fields(3) by simp_all
  obtain w1 cs1 og where og: "reconcileOperatorGroup x r = (Ok (), r\<lparr>world := w1, calls := cs1, operatorGroup := og\<rparr>)"
    "assigned [placed off KOperatorGroup (operatorGroupName, ns) (OperatorGroup (pluginGetDesiredOperatorGroupSpec r))]
       (world r) w1"
    using reconcileOperatorGroup_places [OF x _ fields(1)] off(1) unfolding more(3) by blast
  define r1 where "r1 = r\<lparr>world := w1, calls := cs1, operatorGroup := og\<rparr>"
  have r1: "catalogSource r1 = named KCatalogSource catalogSourceName ns" "managedFusionOffering r1 = off" "world r1 = w1"
    by (simp_all add: r1_def fields(2) more)
  obtain w2 cs2 src where cs: "reconcileCatalogSource x r1 = (Ok (), r1\<lparr>world := w2, calls := cs2, catalogSource := src\<rparr>)"
    "assigned [placed off KCatalogSource (catalogSourceName, ns)
       (CatalogSource (pluginGetDesiredCatalogSourceSpec\<lparr>cs_SourceType := ''grpc''\<rparr>))] w1 w2"
    "Name (meta src) = catalogSourceName" "Namespace (meta src) = ns"
    using reconcileCatalogSource_places [OF x _ r1(1)] off(1) unfolding r1(2,3) by blast
  define r2 where "r2 = r1\<lparr>world := w2, calls := cs2, catalogSource := src\<rparr>"
  have r2: "subscription r2 = named KSubscription subscriptionName ns" "managedFusionOffering r2 = off" "world r2 = w2"
    "catalogSource r2 = src" by (simp_all add: r2_def r1_def more)
  obtain spec where spec: "pluginGetDesiredSubscriptionSpec r2 = Some spec"
    using off(2) by (cases "mfo_Kind (offeringSpecOf off) = KindDataFoundation")
      (auto simp: r2 knownKind_def pluginGetDesiredSubscriptionSpec_def Let_def simp del: offeringSpecOf.simps)
  obtain w3 cs3 sub where sb: "reconcileSubscription x r2 = (Ok (), r2\<lparr>world := w3, calls := cs3, subscription := sub\<rparr>)"
    "assigned [placed off KSubscription (subscriptionName, ns)
       (Subscription (Some (spec\<lparr>sb_CatalogSource := catalogSourceName, sb_CatalogSourceNamespace := ns,
          sb_InstallPlanApproval := ''Automatic''\<rparr>)))] w2 w3"
    using reconcileSubscription_places [OF x _ r2(1) spec] off(1) unfolding r2(2,3,4) cs(3,4) by blast
  define s where "s = r2\<lparr>world := w3, calls := cs3, subscription := sub\<rparr>"
  show thesis
  proof (rule that)
    show "operatorResources x r = (Ok (), s)"
      using og(1) cs(1) sb(1)
      by (simp add: operatorResources_def thenM_step r1_def [symmetric] r2_def [symmetric] s_def)
    let ?df = "mfo_Kind (offeringSpecOf off) = KindDataFoundation"
    have "pluginGetDesiredOperatorGroupSpec r = (if ?df then [ns] else [])"
      "pluginGetDesiredCatalogSourceSpec\<lparr>cs_SourceType := ''grpc''\<rparr> =
         \<lparr>cs_Image = ''registry.redhat.io/redhat/redhat-operator-index:v4.12'', cs_SourceType = ''grpc''\<rparr>"
      "spec\<lparr>sb_CatalogSource := catalogSourceName, sb_CatalogSourceNamespace := ns, sb_InstallPlanApproval := ''Automatic''\<rparr> =
         \<lparr>sb_Channel = ''stable-4.12'', sb_Package = (if ?df then ''ocs-operator'' else ''ocs-client-operator''),
          sb_Env = (if ?df then Some [(''SKIP_NOOBAA_CRD_WATCH'', ''true''),
             (''ROOK_DISABLE_OBJECT_BUCKET_CLAIM'', ''true'')] else None),
          sb_CatalogSource = catalogSourceName, sb_CatalogSourceNamespace = ns, sb_InstallPlanApproval = ''Automatic''\<rparr>"
      using spec off(2) by (auto simp: desired_specs more r2 simp del: offeringSpecOf.simps split: if_splits)
    note writes = this
    show "assigned (operatorWrites off ns) (world r) (world s)"
      using assigned_append [OF assigned_append [OF og(2) cs(2)] sb(2)]
      unfolding writes by (simp add: operatorWrites_def Let_def s_def del: offeringSpecOf.simps)
  qed (simp_all add: s_def r2_def r1_def more)
qed

lemma operatorPhase_places:
  assumes x: "stores x" and off: "kind_of off = KManagedFusionOffering" "knownKind off"
    and fin: "managedFusionFinalizer \<in> set (Finalizers (meta off))"
    and r: "r = (snd (initOffering ns name r0))\<lparr>managedFusionOffering := off\<rparr>"
  shows "fst (operatorPhase x r) = Ok () \<and> contents (world (snd (operatorPhase x r))) = operatorSpec off ns (contents (world r))"
proof -
  have on: "worksOn off ns r" by (simp add: worksOn_def r initOffering_def modify_def)
  have "offeringFinalizerPhase x r = (Ok (), r)"
    using fin on
    by (simp add: worksOn_def offeringFinalizerPhase_def storeOffering_def gets_def bindM_step AddFinalizer_def ret_def)
  then have "operatorPhase x r = operatorResources x r" by (simp add: operatorPhase_split thenM_step)
  moreover obtain s where "operatorResources x r = (Ok (), s)" "assigned (operatorWrites off ns) (world r) (world s)"
    by (rule operatorResources_places [OF x off on])
  ultimately show ?thesis by (simp add: assigned_def operatorSpec_def)
qed

text \<open>
  On a server that stores what it is sent, the operator phase of an offering of a known kind that
  already carries its finalizer succeeds and implements its specification: operator group, catalog
  source and subscription, in this order, are made or overwritten at their keys with the offering as
  their controller, other owners are kept and nothing else in the cluster changes. The phase of the
  next run succeeds too and leaves the cluster as it is.
\<close>

theorem operator_phase_refines:
  assumes "stores x" and "kind_of off = KManagedFusionOffering" "knownKind off"
    and "managedFusionFinalizer \<in> set (Finalizers (meta off))"
    and "r = (snd (initOffering ns name r0))\<lparr>managedFusionOffering := off\<rparr>"
    and "r' = (snd (initOffering ns name (snd (operatorPhase x r))))\<lparr>managedFusionOffering := off\<rparr>"
  shows "fst (operatorPhase x r) = Ok () \<and>
    contents (world (snd (operatorPhase x r))) = operatorSpec off ns (contents (world r)) \<and>
    fst (operatorPhase x r') = Ok () \<and>
    contents (world (snd (operatorPhase x r'))) = contents (world (snd (operatorPhase x r)))"
proof -
  have "world r' = world (snd (operatorPhase x r))"
    by (simp add: assms(6) initOffering_def modify_def)
  then show ?thesis
    using operatorPhase_places [OF assms(1-5)] operatorPhase_places [OF assms(1-4,6)]
    by (simp add: operatorSpec_idem)
qed

theorem operator_phase_refines_witness:
  "let off = sampleOffering KindDataFoundation ''df'' [managedFusionFinalizer] None;
       r = (snd (initOffering ''ns'' ''off'' (freshOffering [] [])))\<lparr>managedFusionOffering := off\<rparr>
   in fst (operatorPhase sampleOfferingHost r) = Ok () \<and>
      contents (world (snd (operatorPhase sampleOfferingHost r))) (KSubscription, subscriptionName, ''ns'') \<noteq> None"
proof -
  let ?off = "sampleOffering KindDataFoundation ''df'' [managedFusionFinalizer] None"
  let ?r = "(snd (initOffering ''ns'' ''off'' (freshOffering [] [])))\<lparr>managedFusionOffering := ?off\<rparr>"
  have x: "stores sampleOfferingHost"
    by (simp add: stores_def sampleOfferingHost_def)
  have off: "kind_of ?off = KManagedFusionOffering" "knownKind ?off" "managedFusionFinalizer \<in> set (Finalizers (meta ?off))"
    by (simp_all add: sampleOffering_def kind_of_def knownKind_def)
  from operator_phase_refines [OF x off refl refl, of "''ns''" "''off''" "freshOffering [] []"]
  show ?thesis
    by (simp add: operatorSpec_def operatorWrites_def placedAs_def Let_def)
qed

end
