(* ===== verification/Offering_Refinement.thy ===== *)
theory Offering_Refinement
  imports Operator_Refinement Offering_Reconcile
begin

text \<open>
  What the runs for both kinds of offerings share, against the abstract cluster: the finalizer and
  the operator's objects up to where the plugin takes over, and the cluster service version of the
  plugin's operator.
\<close>

section \<open>The offering\<close>

definition withFinalizer :: "obj \<Rightarrow> obj" where
  "withFinalizer off = snd (AddFinalizer off managedFusionFinalizer)"

lemma withFinalizer_frame [simp]:
  "kind_of (withFinalizer off) = kind_of off" "body (withFinalizer off) = body off" "keyOf (withFinalizer off) = keyOf off"
  "UID (meta (withFinalizer off)) = UID (meta off)" "Name (meta (withFinalizer off)) = Name (meta off)"
  "DeletionTimestamp (meta (withFinalizer off)) = DeletionTimestamp (meta off)"
  "Namespace (meta (withFinalizer off)) = Namespace (meta off)"
  by (simp_all add: withFinalizer_def AddFinalizer_def setFinalizers_def keyOf_def kind_of_def ObjectKeyFromObject_def)

lemma offeringSpecOf_withFinalizer [simp]: "offeringSpecOf (withFinalizer off) = offeringSpecOf off"
  by simp

lemma withFinalizer_twice: "withFinalizer (withFinalizer off) = withFinalizer off"
  by (auto simp: withFinalizer_def AddFinalizer_def setFinalizers_def Contains_iff)

lemma ownedAs_withFinalizer: "ownedAs c (withFinalizer off) = ownedAs c off"
  by (simp add: ownedAs_def newOwnerRef_def fun_eq_iff)

lemma ownedAs_again: "ownedAs c off (ownedAs c off ob) = ownedAs c off ob"
  unfolding ownedAs_def by (rule setOwners_same) (simp add: putOwner_idem)

text \<open>The offering is an owner, not the controller, of the operator's cluster service version.\<close>

abbreviation referred :: "obj \<Rightarrow> obj \<Rightarrow> obj" where
  "referred \<equiv> ownedAs False"

definition offeringWrites :: "obj \<Rightarrow> string \<Rightarrow> assignment list" where
  "offeringWrites off ns = (keyOf off, \<lambda>_. off) # operatorWrites off ns"

lemma offering_stays:
  assumes "keyOf off = (KManagedFusionOffering, n, ns)" and "KManagedFusionOffering \<notin> (\<lambda>a. fst (fst a)) ` set ws"
  shows "assigns (offeringWrites (withFinalizer off) ns @ ws) cl (KManagedFusionOffering, n, ns) = Some (withFinalizer off)"
proof -
  have "(KManagedFusionOffering, n, ns) \<notin> fst ` set (operatorWrites (withFinalizer off) ns @ ws)"
    using assms(2) by (auto simp: operatorWrites_def Let_def image_iff)
  from assigns_other [OF this] show ?thesis by (simp add: offeringWrites_def assms(1))
qed

section \<open>The cluster service version\<close>

definition operatorCSV :: "string \<Rightarrow> string \<Rightarrow> store \<Rightarrow> obj option" where
  "operatorCSV name ns w = csvWithPrefix name (mem_listed w KClusterServiceVersion (Some ns) None)"

lemma csvWithPrefix_updated:
  assumes "csvWithPrefix name items = Some csv" and "ObjectKeyFromObject csv' = ObjectKeyFromObject csv"
    and "\<forall>ob\<in>set items. kind_of ob = kind_of csv"
  shows "csvWithPrefix name (map (\<lambda>ob. if isAt (kind_of csv) (ObjectKeyFromObject csv) ob then csv' else ob) items) =
    Some csv'"
  using assms by (induction items) (auto simp: isAt_def ObjectKeyFromObject_def split: if_splits)

lemma operatorCSV_member:
  assumes "operatorCSV name ns w = Some csv"
  shows "csv \<in> set w" and "kind_of csv = KClusterServiceVersion" and "Namespace (meta csv) = ns"
  using csvWithPrefix_Some [OF assms [unfolded operatorCSV_def]] by (auto simp: mem_listed_def)

lemma operatorCSV_stored: "operatorCSV name ns w = Some csv \<Longrightarrow> contents w (keyOf csv) \<noteq> None"
  by (rule contents_present [OF operatorCSV_member(1)])

lemma operatorCSV_updated:
  assumes csv: "operatorCSV name ns w = Some csv" and same: "keyOf csv' = keyOf csv"
    and up: "mem_Update csv' w = (Inr csv', w')"
  shows "operatorCSV name ns w' = Some csv'"
proof -
  note csv_mem = operatorCSV_member [OF csv]
  have at: "kind_of csv' = kind_of csv" "ObjectKeyFromObject csv' = ObjectKeyFromObject csv"
    using same by (simp_all add: keyOf_def)
  have w': "w' = map (\<lambda>ob. if isAt (kind_of csv) (ObjectKeyFromObject csv) ob then csv' else ob) w"
    using up by (auto simp: mem_Update_def at split: if_splits)
  let ?g = "\<lambda>ob. if isAt (kind_of csv) (ObjectKeyFromObject csv) ob then csv' else ob"
    and ?P = "\<lambda>ob. kind_of ob = KClusterServiceVersion \<and> ns = Namespace (meta ob)"
  have "?P (?g ob) = ?P ob" for ob
    using csv_mem(2,3) at by (auto simp: isAt_def ObjectKeyFromObject_def)
  then have "?P \<circ> ?g = ?P" by (simp add: fun_eq_iff)
  then have "filter ?P (map ?g w) = map ?g (filter ?P w)" unfolding filter_map by simp
  then have "mem_listed w' KClusterServiceVersion (Some ns) None =
      map ?g (mem_listed w KClusterServiceVersion (Some ns) None)"
    by (simp add: w' mem_listed_def)
  moreover have "\<forall>ob\<in>set (mem_listed w KClusterServiceVersion (Some ns) None). kind_of ob = kind_of csv"
    by (simp add: mem_listed_def csv_mem(2))
  ultimately show ?thesis
    using csvWithPrefix_updated [OF csv [unfolded operatorCSV_def] at(2)] by (simp add: operatorCSV_def)
qed

lemma operatorCSV_cong:
  "assigned ws w w' \<Longrightarrow> KClusterServiceVersion \<notin> (\<lambda>a. fst (fst a)) ` set ws \<Longrightarrow>
   operatorCSV name ns w' = operatorCSV name ns w"
  by (simp add: assigned_def operatorCSV_def)

lemma mem_List_listed: "mem_List k ns None w = (Inr (mem_listed w k ns None), w)"
  by (simp add: mem_List_def mem_listed_def Let_def)

lemma decoded_list: "map (decodeAs k) (mem_listed w k ns None) = mem_listed w k ns None"
  by (rule map_idI) (auto simp: mem_listed_def intro: decodeAs_same)

text \<open>The plugin finds it.\<close>

lemma offeringCSVByPrefix_found:
  assumes "api_List x = mem_List" and "operatorCSV name (namespace t) (world t) = Some csv"
  obtains cs where "offeringCSVByPrefix x name t = (Ok csv, t\<lparr>calls := cs\<rparr>)"
proof -
  have "\<exists>cs. offeringCSVByPrefix x name t = (Ok csv, t\<lparr>calls := cs\<rparr>)"
    using assms by (simp add: prog_unfold operatorCSV_def mem_List_listed decoded_list) blast
  then show thesis using that by blast
qed

section \<open>A run up to the plugin\<close>

text \<open>The finalizer is on the stored offering afterwards, whether the phase has to write it or not.\<close>

lemma finalizer_assigns:
  assumes x: "stores x" and off: "managedFusionOffering r = off"
    and stored: "contents (world r) (keyOf off) = Some off"
  obtains w cs where
      "offeringFinalizerPhase x r = (Ok (), r\<lparr>world := w, calls := cs, managedFusionOffering := withFinalizer off\<rparr>)"
    and "assigned [(keyOf off, \<lambda>_. withFinalizer off)] (world r) w"
proof (cases "Contains (Finalizers (meta off)) managedFusionFinalizer")
  case True
  then have same: "withFinalizer off = off" by (simp add: withFinalizer_def AddFinalizer_def)
  have "offeringFinalizerPhase x r = (Ok (), r)"
    using True by (simp add: offeringFinalizerPhase_def storeOffering_def gets_def bindM_step AddFinalizer_def ret_def off)
  then have "offeringFinalizerPhase x r =
      (Ok (), r\<lparr>world := world r, calls := calls r, managedFusionOffering := withFinalizer off\<rparr>)"
    unfolding same unfolding off [symmetric] by simp
  then show thesis
    by (rule that) (simp add: same assigned_same stored)
next
  case False
  have there: "contents (world r) (keyOf (withFinalizer off)) \<noteq> None" by (simp add: stored)
  obtain w where w: "mem_Update (withFinalizer off) (world r) = (Inr (withFinalizer off), w)"
    "assigned [(keyOf (withFinalizer off), \<lambda>_. withFinalizer off)] (world r) w"
    by (rule assigned_update [OF there])
  have "AddFinalizer off managedFusionFinalizer = (True, withFinalizer off)"
    using False by (simp add: withFinalizer_def AddFinalizer_def)
  then have "\<exists>cs. offeringFinalizerPhase x r =
      (Ok (), r\<lparr>world := w, calls := cs, managedFusionOffering := withFinalizer off\<rparr>)"
    using x w(1) off
    by (simp add: offeringFinalizerPhase_def storeOffering_def prog_unfold stores_def del: AddFinalizer_def) blast
  with w(2) show thesis using that by auto
qed

lemma stored_key: "contents w (KManagedFusionOffering, n, ns) = Some off \<Longrightarrow> keyOf off = (KManagedFusionOffering, n, ns)"
  by (auto simp: contents_def dest: find_isAt)

lemma keyOf_kind: "keyOf ob = (k, key) \<Longrightarrow> kind_of ob = k"
  by (simp add: keyOf_def)

lemma offering_start:
  assumes "stores x" and "contents (world r) (KManagedFusionOffering, n, ns) = Some off"
  obtains r0 where
      "offeringReconcile x ns n r = wrapErr ''an error was encountered during reconcilePhases'' (offeringPhases x) r0"
    and "worksOn off ns r0" and "world r0 = world r" and "offeringCRDs r0 = offeringCRDs r"
proof -
  define r0 where "r0 = (snd (initOffering ns n r))
    \<lparr>calls := calls r @ [CGet KManagedFusionOffering (n, ns) (Inr off)], managedFusionOffering := off\<rparr>"
  show thesis
  proof (rule that)
    show "offeringReconcile x ns n r = wrapErr ''an error was encountered during reconcilePhases'' (offeringPhases x) r0"
      using assms keyOf_kind [OF stored_key [OF assms(2)]]
      by (simp add: offeringReconcile_def prog_unfold stores_def mem_Get_contents r0_def bindM_step thenM_step)
  qed (simp_all add: r0_def worksOn_def initOffering_def modify_def)
qed

lemma offering_run:
  assumes x: "stores x" and stored: "contents (world r) (KManagedFusionOffering, n, ns) = Some off"
    and live: "IsZero (DeletionTimestamp (meta off))" "UID (meta off) \<noteq> ''''" and known: "knownKind off"
  obtains r1 where
      "offeringReconcile x ns n r = wrapErr ''an error was encountered during reconcilePhases'' (pluginPhase x) r1"
    and "assigned (offeringWrites (withFinalizer off) ns) (world r) (world r1)"
    and "managedFusionOffering r1 = withFinalizer off" and "namespace r1 = ns" and "offeringCRDs r1 = offeringCRDs r"
proof -
  let ?off = "withFinalizer off"
  note key = stored_key [OF stored]
  obtain r0 where start: "offeringReconcile x ns n r =
      wrapErr ''an error was encountered during reconcilePhases'' (offeringPhases x) r0"
    and r0: "worksOn off ns r0" "world r0 = world r" "offeringCRDs r0 = offeringCRDs r"
    by (rule offering_start [OF x stored])
  have at: "managedFusionOffering r0 = off" "contents (world r0) (keyOf off) = Some off"
    using r0 stored key by (simp_all add: worksOn_def)
  obtain w1 c1 where fin: "offeringFinalizerPhase x r0 = (Ok (), r0\<lparr>world := w1, calls := c1, managedFusionOffering := ?off\<rparr>)"
    and a1: "assigned [(keyOf off, \<lambda>_. ?off)] (world r0) w1"
    by (rule finalizer_assigns [OF x at])
  define r1 where "r1 = r0\<lparr>world := w1, calls := c1, managedFusionOffering := ?off\<rparr>"
  have r1: "worksOn ?off ns r1" "world r1 = w1" "offeringCRDs r1 = offeringCRDs r"
    using r0 by (simp_all add: r1_def worksOn_def)
  have kinds: "kind_of ?off = KManagedFusionOffering" "knownKind ?off"
    using known keyOf_kind [OF key] by (simp_all add: knownKind_def del: offeringSpecOf.simps)
  obtain r2 where ops: "operatorResources x r1 = (Ok (), r2)" "assigned (operatorWrites ?off ns) (world r1) (world r2)"
    and r2: "managedFusionOffering r2 = ?off" "namespace r2 = ns" "offeringCRDs r2 = offeringCRDs r1"
    by (rule operatorResources_places [OF x kinds r1(1)])
  have "offeringPhases x r0 = pluginPhase x r2"
    using fin ops(1) live at(1)
    by (simp add: offeringPhases_def operatorPhase_split gets_def bindM_step thenM_step r1_def [symmetric])
  then have "offeringReconcile x ns n r = wrapErr ''an error was encountered during reconcilePhases'' (pluginPhase x) r2"
    using start by (simp add: wrapErr_def)
  moreover have "assigned (offeringWrites ?off ns) (world r) (world r2)"
    using assigned_append [OF a1, of _ "world r2"] ops(2) r0(2) r1(2) by (simp add: offeringWrites_def)
  ultimately show thesis using that r2 r1(3) by simp
qed

section \<open>The steps of a plugin\<close>

text \<open>
  From a state with \<open>P\<close> the program succeeds in one with \<open>Q\<close>, and its effect on the list server are
  the assignments.
\<close>

definition implements :: "((store, 'z) offering_scheme, unit) prog \<Rightarrow> ((store, 'z) offering_scheme \<Rightarrow> bool) \<Rightarrow>
    assignment list \<Rightarrow> ((store, 'z) offering_scheme \<Rightarrow> bool) \<Rightarrow> bool" where
  "implements m P ws Q \<longleftrightarrow>
     (\<forall>t. P t \<longrightarrow> (\<exists>t'. m t = (Ok (), t') \<and> assigned ws (world t) (world t') \<and> Q t'))"

lemma implements_thenM:
  "implements m P ws Q \<Longrightarrow> implements m' Q vs R \<Longrightarrow> implements (thenM m m') P (ws @ vs) R"
  unfolding implements_def using assigned_append by (fastforce simp: thenM_step)

lemma implements_wrapErr: "implements m P ws Q \<Longrightarrow> implements (wrapErr msg m) P ws Q"
  unfolding implements_def by (simp add: wrapErr_def) fastforce

lemma implements_owned:
  assumes x: "stores x" and off: "kind_of off = KManagedFusionOffering"
    and P: "\<And>t. P t \<Longrightarrow> managedFusionOffering t = off \<and> field t = named k n ns"
    and pm: "\<And>t. P t \<Longrightarrow> pure_mutator k (withOwner (ownBy True t) (h t))"
    and h: "\<And>t ob. P t \<Longrightarrow> h t ob = Ok (setBody (bd ob) ob)"
    and owned: "\<And>off ob. bd (ownedAs True off ob) = bd ob"
    and bd: "\<And>ob b. semBody b = bd ob \<Longrightarrow> b = bd ob" "\<And>ob. semBody (bd ob) = bd ob"
    and Q: "\<And>t w cs ob. P t \<Longrightarrow> assigned [placedAs True off k (n, ns) bd] (world t) w \<Longrightarrow> Name (meta ob) = n \<Longrightarrow>
      Namespace (meta ob) = ns \<Longrightarrow> world (upd (\<lambda>_. ob) (t\<lparr>world := w, calls := cs\<rparr>)) = w \<and>
        Q (upd (\<lambda>_. ob) (t\<lparr>world := w, calls := cs\<rparr>))"
  shows "implements (createOrUpdateOwned x field upd h) P [placedAs True off k (n, ns) bd] Q"
  unfolding implements_def
proof (intro allI impI)
  fix t assume t: "P t"
  have at: "managedFusionOffering t = off" "field t = named k n ns" using P [OF t] by simp_all
  obtain w cs ob where "createOrUpdateOwned x field upd h t = (Ok (), upd (\<lambda>_. ob) (t\<lparr>world := w, calls := cs\<rparr>))"
    and "assigned [placedAs True off k (n, ns) bd] (world t) w" and "Name (meta ob) = n" and "Namespace (meta ob) = ns"
    by (rule createOrUpdateOwned_places [where r = t and field = field and upd = upd and h = h and bd = bd,
          OF x _ pm [OF t] at(2) h [OF t] owned bd])
      (auto simp: off at(1))
  with Q [OF t] show "\<exists>t'. createOrUpdateOwned x field upd h t = (Ok (), t') \<and>
      assigned [placedAs True off k (n, ns) bd] (world t) (world t') \<and> Q t'"
    by fastforce
qed

end
