(* ===== verification/Client_Refinement.thy ===== *)
theory Client_Refinement
  imports Offering_Refinement
begin

text \<open>
  A whole run for an offering of the client's kind, against the abstract cluster: on the list server
  it is a sequence of assignments, and running it again changes nothing.
\<close>

section \<open>The specification\<close>

text \<open>A claim has no owner and no namespace.\<close>

definition claimed :: "string \<Rightarrow> string \<Rightarrow> string \<Rightarrow> assignment" where
  "claimed n claimType ns =
     ((KStorageClassClaim, n, ''''), \<lambda>v.
        setBody (StorageClassClaim \<lparr>scc_Type = claimType, scc_StorageClient = Some (''ocs-storageclient'', ns)\<rparr>)
          (case v of None \<Rightarrow> named KStorageClassClaim n '''' | Some ob \<Rightarrow> ob))"

section \<open>The plugin's resources\<close>





lemma csiKMS_filled [simp]: "Some (nilToEmpty csiKMSConnectionDetails) = csiKMSConnectionDetails"
  by (simp add: csiKMSConnectionDetails_def nilToEmpty_def)







section \<open>A run\<close>






section \<open>Refinement\<close>



lemma fst_claimed [simp]: "fst (claimed n claimType ns) = (KStorageClassClaim, n, '''')"
  by (simp add: claimed_def)








end
