(* ===== verification/Provider_Refinement.thy ===== *)
theory Provider_Refinement
  imports Offering_Refinement Data_Foundation
begin

text \<open>
  A whole run for an offering of the data foundation's kind, against the abstract cluster: on the
  list server it is a sequence of assignments and a pass over the monitoring objects of the
  namespace, and running it again changes nothing.
\<close>

section \<open>The specification\<close>

text \<open>The device sets of the storage cluster that is there are kept when they are more.\<close>

definition desiredCluster :: "int \<Rightarrow> obj \<Rightarrow> obody" where
  "desiredCluster capacity ob =
     StorageCluster
       (clusterWithCount (max (deviceSetCountFor capacity)
          (currentDeviceSetCount (sc_StorageDeviceSets (storageClusterSpecOf ob)))))
       (storageClusterPhase ob)"




definition onboardingBody :: "string \<Rightarrow> obody" where
  "onboardingBody key = Secret (Some (fmupd ''key'' (onboardingValidationData key) fmempty))"



text \<open>Every pod monitor, service monitor and Prometheus rule of the namespace has the label.\<close>

abbreviation labelled :: "obj \<Rightarrow> obj" where
  "labelled ob \<equiv> AddLabel ob monLabelKey monLabelValue"





section \<open>Labels\<close>




lemma keyOf_labelled [simp]: "keyOf (labelled ob) = keyOf ob"
  by (simp add: keyOf_def)




section \<open>The steps of the plugin\<close>






lemma semBody_provider [simp]:
  "semBody (onboardingBody key) = onboardingBody key" "semBody (desiredCluster c ob) = desiredCluster c ob"
  by (simp_all add: onboardingBody_def desiredCluster_def nilToEmpty_def)

lemma desiredCluster_owned [simp]: "desiredCluster c (ownedAs b off ob) = desiredCluster c ob"
  by (simp add: desiredCluster_def)
















section \<open>A run\<close>




text \<open>The configuration, as the decoder gives it.\<close>

definition providerConfig :: "('w, 'y) offering_host_scheme \<Rightarrow> obj \<Rightarrow> dataFoundationSpec \<Rightarrow> bool" where
  "providerConfig x off spec \<longleftrightarrow>
     mfo_Kind (offeringSpecOf off) = KindDataFoundation \<and>
     yaml_dataFoundation x (mfo_Config (offeringSpecOf off)) = (spec, None) \<and>
     OnboardingValidationKey spec \<noteq> '''' \<and> 0 < UsableCapacityInTiB spec"

lemma providerConfig_withFinalizer [simp]: "providerConfig x (withFinalizer off) spec = providerConfig x off spec"
  by (simp add: providerConfig_def del: offeringSpecOf.simps)










section \<open>Refinement\<close>










end
