(* ===== verification/Shared_Props.thy ===== *)
theory Shared_Props
  imports Egress Utils Scheme Mem_Server
begin

text \<open>Properties of the code the components share: egress rules, pod names, retries, the scheme.\<close>

section \<open>Egress\<close>

text \<open>
  C38: the two egress resources say the same: for every destination, the network policy rules made
  from the desired firewall rules give the verdict of the firewall rules, and that verdict denies
  exactly what the whole IPv4 range covers and none of the two fixed names, the cluster's own range,
  the mail host and the ranges of the VPC that are not empty does.
\<close>

theorem egress_verdicts:
  "allowedN hit (egressFirewallSpecToEgressNetworkPolicySpec (desiredEgress vpcCIDR hostname)) =
     allowedF hit (desiredEgress vpcCIDR hostname) \<and>
   (\<not> allowedF hit (desiredEgress vpcCIDR hostname) \<longleftrightarrow>
      hit ''0.0.0.0/0'' '''' \<and> \<not> hit '''' ''events.pagerduty.com'' \<and> \<not> hit '''' RemoteWriteDNSName \<and>
      \<not> hit ''100.64.0.0/16'' '''' \<and> \<not> hit '''' hostname \<and>
      \<not> list_ex (\<lambda>cidr. cidr \<noteq> '''' \<and> hit cidr '''') (Split vpcCIDR (CHR 0x3B)))"
proof -
  have "list_ex (hitsF hit) (desiredAllows vpcCIDR hostname) \<longleftrightarrow>
      hit '''' ''events.pagerduty.com'' \<or> hit '''' RemoteWriteDNSName \<or> hit ''100.64.0.0/16'' '''' \<or>
      list_ex (\<lambda>cidr. cidr \<noteq> '''' \<and> hit cidr '''') (Split vpcCIDR (CHR 0x3B)) \<or> hit '''' hostname"
    by (auto simp: desiredAllows_def hitsF_def allowRule_def toDNS_def toCIDR_def list_ex_iff)
  then show ?thesis
    by (auto simp: convert_desired allowedF_desired list_ex_iff list_all_iff)
qed

section \<open>Pod names\<close>

text \<open>
  The name of a pod of a deployment is the deployment's name and two generated parts without a
  hyphen, and the name of the deployment is read back from it; no other pod name is accepted.
\<close>

lemma pod_name_parsed:
  "DeploymentNameFromPodName podName = Inr deployment \<longleftrightarrow>
     (\<exists>replicaSet pod. podName = deployment @ CHR 0x2D # replicaSet @ CHR 0x2D # pod \<and>
        CHR 0x2D \<notin> set replicaSet \<and> CHR 0x2D \<notin> set pod)"
proof
  assume "DeploymentNameFromPodName podName = Inr deployment"
  then obtain i j where i: "LastIndex podName (CHR 0x2D) = Some i"
    and j: "LastIndex (take i podName) (CHR 0x2D) = Some j" and d: "deployment = take j podName"
    by (auto simp: DeploymentNameFromPodName_def split: option.splits)
  obtain pod where pod: "podName = take i podName @ CHR 0x2D # pod" "CHR 0x2D \<notin> set pod"
    using LastIndex_Some [OF i] by blast
  obtain rs where rs: "take i podName = take j (take i podName) @ CHR 0x2D # rs" "CHR 0x2D \<notin> set rs"
    and lt: "j < length (take i podName)"
    using LastIndex_Some [OF j] by blast
  have "take j (take i podName) = deployment"
    using lt by (simp add: d min_absorb1)
  then have t: "take i podName = deployment @ CHR 0x2D # rs" using rs(1) by simp
  have "podName = (deployment @ CHR 0x2D # rs) @ CHR 0x2D # pod" using pod(1) unfolding t .
  then show "\<exists>replicaSet pod. podName = deployment @ CHR 0x2D # replicaSet @ CHR 0x2D # pod \<and>
      CHR 0x2D \<notin> set replicaSet \<and> CHR 0x2D \<notin> set pod"
    using pod(2) rs(2) by auto
next
  assume "\<exists>replicaSet pod. podName = deployment @ CHR 0x2D # replicaSet @ CHR 0x2D # pod \<and>
      CHR 0x2D \<notin> set replicaSet \<and> CHR 0x2D \<notin> set pod"
  then obtain rs pod where p: "podName = (deployment @ CHR 0x2D # rs) @ CHR 0x2D # pod"
    and rs: "CHR 0x2D \<notin> set rs" and pod: "CHR 0x2D \<notin> set pod" by auto
  have "LastIndex podName (CHR 0x2D) = Some (length (deployment @ CHR 0x2D # rs))"
    unfolding p by (rule LastIndex_append [OF pod])
  moreover have "LastIndex (deployment @ CHR 0x2D # rs) (CHR 0x2D) = Some (length deployment)"
    by (rule LastIndex_append [OF rs])
  ultimately show "DeploymentNameFromPodName podName = Inr deployment"
    by (simp add: DeploymentNameFromPodName_def p)
qed

section \<open>Retries\<close>

text \<open>The state after \<open>n\<close> attempts, each with a sleep after it.\<close>

primrec afterFailures ::
  "('w, 'y) host_scheme \<Rightarrow> int \<Rightarrow> (('w, call, 'z) env_scheme, unit) prog \<Rightarrow> nat \<Rightarrow>
   ('w, call, 'z) env_scheme \<Rightarrow> ('w, call, 'z) env_scheme" where
  "afterFailures x sleep f 0 s = s"
| "afterFailures x sleep f (Suc n) s = afterFailures x sleep f n (snd (host_sleep x sleep (snd (f s))))"

text \<open>The error of a run of failures that ends with the outcome \<open>r\<close>; none when there was no attempt.\<close>

definition retriesError :: "unit outcome option \<Rightarrow> gerror" where
  "retriesError r = (case r of
     Some (Err e) \<Rightarrow> Errorf ''Failed after retries. Last error'' e
   | _ \<Rightarrow> ErrorNew ''Failed after retries. Last error: <nil>'')"

definition lastOutcome ::
  "('w, 'y) host_scheme \<Rightarrow> int \<Rightarrow> (('w, call, 'z) env_scheme, unit) prog \<Rightarrow> nat \<Rightarrow>
   ('w, call, 'z) env_scheme \<Rightarrow> unit outcome option \<Rightarrow> unit outcome option" where
  "lastOutcome x sleep f n s r = (case n of 0 \<Rightarrow> r | Suc m \<Rightarrow> Some (fst (f (afterFailures x sleep f m s))))"

fun isErr :: "'a outcome \<Rightarrow> bool" where
  "isErr (Err e) = True"
| "isErr _ = False"

lemma retryFrom_stops:
  "\<exists>n\<le>nat (attempts - i). (\<forall>m<n. isErr (fst (f (afterFailures x sleep f m s)))) \<and>
     (if n < nat (attempts - i)
      then \<not> isErr (fst (f (afterFailures x sleep f n s))) \<and>
        retryFrom x i attempts sleep f err s = f (afterFailures x sleep f n s)
      else retryFrom x i attempts sleep f err s =
        (Err (retriesError (lastOutcome x sleep f n s (map_option Err err))), afterFailures x sleep f n s))"
proof (induction "nat (attempts - i)" arbitrary: i err s)
  case 0
  then show ?case
    by (auto simp: retryFrom.simps [of x i] fail_def retriesError_def lastOutcome_def split: option.split)
next
  case (Suc k)
  then have lt: "i < attempts" and k: "k = nat (attempts - (i + 1))" by simp_all
  show ?case
  proof (cases "fst (f s)")
    case (Err e)
    let ?s1 = "snd (host_sleep x sleep (snd (f s)))"
    have step: "retryFrom x i attempts sleep f err s = retryFrom x (i + 1) attempts sleep f (Some e) ?s1"
      using lt Err
      by (subst retryFrom.simps) (cases "f s"; simp add: bindM_step thenM_step tryM_def host_sleep_def callM_def)
    obtain n where n: "n \<le> k" "\<forall>m<n. isErr (fst (f (afterFailures x sleep f m ?s1)))"
      "if n < k then \<not> isErr (fst (f (afterFailures x sleep f n ?s1))) \<and>
          retryFrom x (i + 1) attempts sleep f (Some e) ?s1 = f (afterFailures x sleep f n ?s1)
        else retryFrom x (i + 1) attempts sleep f (Some e) ?s1 =
          (Err (retriesError (lastOutcome x sleep f n ?s1 (Some (Err e)))), afterFailures x sleep f n ?s1)"
      using Suc.hyps(1) [OF k, where err = "Some e" and s = ?s1] k by auto
    have last: "lastOutcome x sleep f (Suc n) s (map_option Err err) = lastOutcome x sleep f n ?s1 (Some (Err e))"
      using Err by (cases n) (simp_all add: lastOutcome_def)
    show ?thesis
      using n Suc.hyps(2) [symmetric] step last Err
      by (intro exI [of _ "Suc n"]) (auto simp: less_Suc_eq_0_disj)
  next
    case (Ok u)
    then have "retryFrom x i attempts sleep f err s = f s"
      using lt by (subst retryFrom.simps) (cases "f s"; simp add: bindM_step tryM_def ret_def)
    with Ok Suc.hyps(2) [symmetric] show ?thesis by (intro exI [of _ 0]) simp
  next
    case (Crash msg)
    then have "retryFrom x i attempts sleep f err s = f s"
      using lt by (subst retryFrom.simps) (cases "f s"; simp add: bindM_step tryM_def ret_def)
    with Crash Suc.hyps(2) [symmetric] show ?thesis by (intro exI [of _ 0]) simp
  qed
qed

text \<open>
  C37: \<open>Retry\<close> ends after at most the number of attempts asked for (none for a negative number): it
  sleeps after each failed attempt, returns what the first attempt that does not fail returned, and
  otherwise the error of the last attempt.
\<close>

theorem retry_terminates:
  "\<exists>n\<le>nat attempts. (\<forall>m<n. isErr (fst (f (afterFailures x sleep f m s)))) \<and>
     (if n < nat attempts
      then \<not> isErr (fst (f (afterFailures x sleep f n s))) \<and>
        Retry x attempts sleep f s = f (afterFailures x sleep f n s)
      else Retry x attempts sleep f s =
        (Err (retriesError (lastOutcome x sleep f n s None)), afterFailures x sleep f n s))"
  using retryFrom_stops [of attempts 0 f x sleep s None] unfolding Retry_def option.map diff_0_right .

theorem retry_terminates_witness:
  "fst (Retry sampleHost 2 1000 (fail (ErrorNew ''no route'')) (\<lparr>world = [], calls = []\<rparr> :: (store, call, unit) env_scheme)) =
     Err (Errorf ''Failed after retries. Last error'' (ErrorNew ''no route''))"
proof -
  have fails: "fst (fail e (s :: (store, call, unit) env_scheme)) = (Err e :: unit outcome)" for e s
    by (simp add: fail_def)
  show ?thesis
    using retry_terminates [of 2 "fail (ErrorNew ''no route'')" sampleHost 1000
        "\<lparr>world = [], calls = []\<rparr> :: (store, call, unit) env_scheme"]
    by (auto simp: fails retriesError_def lastOutcome_def split: if_splits nat.splits)
qed

section \<open>The scheme\<close>

text \<open>Any group and version without a slash parse back from their \<open>apiVersion\<close>.\<close>

lemma ParseGroupVersion_String:
  assumes "CHR ''/'' \<notin> set grp" and "CHR ''/'' \<notin> set ver" and "ver \<noteq> ''''"
  shows "ParseGroupVersion (GroupVersion_String grp ver) = Some (grp, ver)"
proof -
  have none: "count_list s (CHR ''/'') = 0" if "CHR ''/'' \<notin> set s" for s
    using that by (simp add: count_list_0_iff)
  have take: "takeWhile (\<lambda>c. c \<noteq> CHR ''/'') (grp @ CHR ''/'' # ver) = grp"
    using assms(1) by (induction grp) auto
  have drop: "dropWhile (\<lambda>c. c \<noteq> CHR ''/'') (grp @ CHR ''/'' # ver) = CHR ''/'' # ver"
    using assms(1) by (induction grp) auto
  show ?thesis
    using assms none take drop
    by (cases grp) (auto simp: ParseGroupVersion_def GroupVersion_String_def)
qed


end
