(* ===== verification/Agent_Convergence.thy ===== *)
theory Agent_Convergence
  imports Settling Agent_Runs Mem_Server
begin

text \<open>
  The agent's reconciliation converges: on a server that stores what it is sent, a run that
  succeeds leaves the resources as the next run wants them, and that run only reads.
\<close>

section \<open>What the phases look at\<close>

type_synonym 'w looks = "'w \<Rightarrow> kind \<times> nname \<Rightarrow> obj option"

type_synonym 'w lists = "'w \<Rightarrow> kind \<Rightarrow> string option \<Rightarrow> nat option \<Rightarrow> obj list"

definition agentView where
  "agentView look listed (r :: 'w agent) =
     (agentNamespace r, AvailableCRDs r, CustomerNotificationHTMLPath r, managedFusionSecret r,
      smtpConfigData r, pagerDutyConfigData r, remoteWriteConfigData r, Name (meta (alertmanagerSecret r)),
      (\<lambda>n. (look :: 'w looks) (world r) (KConfigMap, IMDSConfigMapName, n)),
      look (world r) (KClusterVersion, ''version'', ''''),
      (listed :: 'w lists) (world r) KClusterServiceVersion)"

lemma agent_unseen:
  assumes "k \<noteq> KClusterServiceVersion" and "k \<noteq> KClusterVersion" and "k = KConfigMap \<Longrightarrow> fst key \<noteq> IMDSConfigMapName"
  shows "unseen look listed (agentView look listed) (k, key)"
proof -
  have "(k, key) \<noteq> (KConfigMap, IMDSConfigMapName, n)" for n
    using assms(3) by (cases key) auto
  then show ?thesis
    using assms(1,2) by (simp add: unseen_def apart_def agentView_def) (metis prod.inject)
qed

lemma agent_blind: "blind (agentView look listed)"
  by (simp add: blind_def agentView_def)

lemma agentView_eqD:
  assumes "agentView look listed r = agentView look listed r'"
  shows "agentNamespace r = agentNamespace r'" "AvailableCRDs r = AvailableCRDs r'"
    "CustomerNotificationHTMLPath r = CustomerNotificationHTMLPath r'" "managedFusionSecret r = managedFusionSecret r'"
    "smtpConfigData r = smtpConfigData r'" "pagerDutyConfigData r = pagerDutyConfigData r'"
    "remoteWriteConfigData r = remoteWriteConfigData r'" "Name (meta (alertmanagerSecret r)) = Name (meta (alertmanagerSecret r'))"
    "look (world r) (KConfigMap, IMDSConfigMapName, n) = look (world r') (KConfigMap, IMDSConfigMapName, n)"
    "look (world r) (KClusterVersion, ''version'', '''') = look (world r') (KClusterVersion, ''version'', '''')"
    "listed (world r) KClusterServiceVersion = listed (world r') KClusterServiceVersion"
  using assms by (simp_all add: agentView_def fun_eq_iff)

lemma agentView_own: "agentView look listed r = agentView look listed r' \<Longrightarrow> own r = own r'"
  by (drule agentView_eqD(4)) (simp add: own_def fun_eq_iff)

text \<open>The reconciler of a namespace and of the definitions known at its start.\<close>

definition agentAt :: "string \<Rightarrow> (string, bool) fmap \<Rightarrow> 'w agent \<Rightarrow> bool" where
  "agentAt ns crds r \<longleftrightarrow> agentKeyed ns r \<and> AvailableCRDs r = crds"

lemma agentAt_stable: "env_stable (agentAt ns crds)"
  by (simp add: agentAt_def env_stable_def agentKeyed_def)

section \<open>The closures that read\<close>

lemma reader_csv:
  "object_server x look listed \<Longrightarrow> reader (agentView look listed) (getCSVByPrefix x name)"
  unfolding getCSVByPrefix_def csvInNamespace_def
  by (intro reader_rules reader_gets agent_blind reader_client_list; (assumption | erule agentView_eqD)?)

lemma reader_egress:
  assumes "object_server x look listed"
  shows "reader (agentView look listed) (getEgressFirewallDesiredState x)"
  unfolding getEgressFirewallDesiredState_def
proof (rule reader_gets_bind, goal_cases)
  case (1 r)
  show ?case
    by (intro reader_rules agent_blind reader_client_get [OF assms]) (erule agentView_eqD(9))
next
  case (2 r r')
  show ?case unfolding agentView_eqD(1,5) [OF 2] ..
qed

text \<open>A phase of the agent with one object.\<close>

lemma agent_phase:
  assumes srv: "object_server x look listed"
    and k: "k \<noteq> KClusterServiceVersion" "k \<noteq> KClusterVersion" "k = KConfigMap \<Longrightarrow> n \<noteq> IMDSConfigMapName"
    and field: "\<And>s. agentKeyed ns s \<Longrightarrow> keyOf (field s) = (k, n, ns)"
    and upd: "\<And>s ob. agentKeyed ns s \<Longrightarrow> keyOf ob = (k, n, ns) \<Longrightarrow> agentKeyed ns (upd (\<lambda>_. ob) s)"
      "\<And>s ob. agentKeyed ns s \<Longrightarrow> keyOf ob = (k, n, ns) \<Longrightarrow>
         agentView look listed (upd (\<lambda>_. ob) s) = agentView look listed s"
      "\<And>s ob. AvailableCRDs (upd (\<lambda>_. ob) s) = AvailableCRDs s"
      "\<And>s ob. world (upd (\<lambda>_. ob) s) = world s" "\<And>s ob. calls (upd (\<lambda>_. ob) s) = calls s"
    and f: "\<And>r. reading_mutator (agentView look listed) k (f r)"
      "\<And>r r'. agentView look listed r = agentView look listed r' \<Longrightarrow> f r = f r'"
  shows "settling look (agentView look listed) (agentAt ns crds) (createOrUpdate x field upd f) {(k, n, ns)}"
  by (rule settling_createOrUpdate [OF srv agent_unseen agentAt_stable _ _ _ _ f])
    (use k field upd in \<open>auto simp: agentAt_def\<close>)

lemma agent_pure_phase:
  assumes srv: "object_server x look listed"
    and k: "k \<noteq> KClusterServiceVersion" "k \<noteq> KClusterVersion" "k = KConfigMap \<Longrightarrow> n \<noteq> IMDSConfigMapName"
    and field: "\<And>s. agentKeyed ns s \<Longrightarrow> keyOf (field s) = (k, n, ns)"
    and upd: "\<And>s ob. agentKeyed ns s \<Longrightarrow> keyOf ob = (k, n, ns) \<Longrightarrow> agentKeyed ns (upd (\<lambda>_. ob) s)"
      "\<And>s ob. agentKeyed ns s \<Longrightarrow> keyOf ob = (k, n, ns) \<Longrightarrow>
         agentView look listed (upd (\<lambda>_. ob) s) = agentView look listed s"
      "\<And>s ob. AvailableCRDs (upd (\<lambda>_. ob) s) = AvailableCRDs s"
      "\<And>s ob. world (upd (\<lambda>_. ob) s) = world s" "\<And>s ob. calls (upd (\<lambda>_. ob) s) = calls s"
    and h: "\<And>r. pure_mutator k (withOwner (own r) (h r))"
      "\<And>r r'. agentView look listed r = agentView look listed r' \<Longrightarrow> h r = h r'"
  shows "settling look (agentView look listed) (agentAt ns crds) (createOrUpdatePure x field upd h) {(k, n, ns)}"
  unfolding createOrUpdatePure_def
proof (rule agent_phase, goal_cases)
  case (11 r)
  show ?case by (rule pure_reading [OF h(1)])
next
  case (12 r r')
  show ?case unfolding agentView_own [OF 12] h(2) [OF 12] ..
qed (use srv k field upd in simp_all)

abbreviation agentSettles where
  "agentSettles look listed ns crds \<equiv> settling look (agentView look listed) (agentAt ns crds)"

lemmas field_simps_agent = agentKeyed_def agentView_def const_defs keyOf_def ObjectKeyFromObject_def

lemma settling_relabel_secret:
  assumes srv: "object_server x look listed"
  shows "agentSettles look listed ns crds (reconcileAlertRelabelConfigSecret x) {(KSecret, alertRelabelConfigSecretName, ns)}"
  unfolding reconcileAlertRelabelConfigSecret_def
proof (intro settling_wrapErr agent_pure_phase [OF srv], goal_cases)
  case (10 r)
  show ?case by (rule relabel_secret_fill.owned.pure_mutator_axioms)
next
  case (11 r r')
  show ?case unfolding fillAlertRelabelConfigSecret_def agentView_eqD(1) [OF 11] ..
qed (auto simp: field_simps_agent)

lemma settling_rbac_config:
  assumes srv: "object_server x look listed"
  shows "agentSettles look listed ns crds (reconcilePrometheusKubeRBACConfigMap x) {(KConfigMap, PrometheusKubeRBACPoxyConfigMapName, ns)}"
  unfolding reconcilePrometheusKubeRBACConfigMap_def
proof (rule settling_wrapErr, rule agent_pure_phase [OF srv], goal_cases)
  case (10 r)
  show ?case by (rule rbac_config_fill.owned.pure_mutator_axioms)
next
  case (11 r r')
  show ?case ..
qed (auto simp: field_simps_agent)

lemma settling_service:
  assumes srv: "object_server x look listed"
  shows "agentSettles look listed ns crds (reconcilePrometheusService x) {(KService, prometheusServiceName, ns)}"
  unfolding reconcilePrometheusService_def
proof (rule agent_pure_phase [OF srv], goal_cases)
  case (10 r)
  show ?case by (rule prometheus_service_fill.owned.pure_mutator_axioms)
next
  case (11 r r')
  show ?case ..
qed (auto simp: field_simps_agent)

lemma settling_alertmanager:
  assumes srv: "object_server x look listed"
  shows "agentSettles look listed ns crds (reconcileAlertmanager x) {(KAlertmanager, alertmanagerName, ns)}"
  unfolding reconcileAlertmanager_def
proof (rule agent_pure_phase [OF srv], goal_cases)
  case (10 r)
  show ?case by (rule alertmanager_fill.owned.pure_mutator_axioms)
next
  case (11 r r')
  show ?case ..
qed (auto simp: field_simps_agent)

lemma settling_alertmanager_secret:
  assumes srv: "object_server x look listed"
  shows "agentSettles look listed ns crds (reconcileAlertmanagerSecret x) {(KSecret, alertmanagerSecretName, ns)}"
  unfolding reconcileAlertmanagerSecret_def
proof (rule agent_pure_phase [OF srv], goal_cases)
  case (10 r)
  show ?case by (rule alertmanager_secret_fill.owned.pure_mutator_axioms)
next
  case (11 r r')
  show ?case unfolding fillAlertmanagerSecret_def alertmanagerSecretData_def agentView_eqD(5,6) [OF 11] ..
qed (auto simp: field_simps_agent)

lemma settling_metrics_monitor:
  assumes srv: "object_server x look listed"
  shows "agentSettles look listed ns crds (reconcileK8SMetricsServiceMonitor x) {(KServiceMonitor, k8sMetricsServiceMonitorName, ns)}"
  unfolding reconcileK8SMetricsServiceMonitor_def
proof (rule settling_wrapErr, rule agent_pure_phase [OF srv], goal_cases)
  case (10 r)
  show ?case by (rule metrics_monitor_fill.owned.pure_mutator_axioms)
next
  case (11 r r')
  show ?case ..
qed (auto simp: field_simps_agent)

lemma settling_proxy_policy:
  assumes srv: "object_server x look listed"
  shows "agentSettles look listed ns crds (reconcilePrometheusProxyNetworkPolicy x) {(KNetworkPolicy, prometheusProxyNetworkPolicyName, ns)}"
  unfolding reconcilePrometheusProxyNetworkPolicy_def
proof (rule settling_wrapErr, rule agent_pure_phase [OF srv], goal_cases)
  case (10 r)
  show ?case by (rule proxy_policy_fill.owned.pure_mutator_axioms)
next
  case (11 r r')
  show ?case ..
qed (auto simp: field_simps_agent)

text \<open>Phases whose desired body is read from the cluster.\<close>

lemma agent_reading_phase:
  assumes srv: "object_server x look listed"
    and k: "k \<noteq> KClusterServiceVersion" "k \<noteq> KClusterVersion" "k \<noteq> KConfigMap"
    and field: "\<And>s. agentKeyed ns s \<Longrightarrow> keyOf (field s) = (k, n, ns)"
    and upd: "\<And>s ob. agentKeyed ns s \<Longrightarrow> keyOf ob = (k, n, ns) \<Longrightarrow> agentKeyed ns (upd (\<lambda>_. ob) s)"
      "\<And>s ob. agentKeyed ns s \<Longrightarrow> keyOf ob = (k, n, ns) \<Longrightarrow>
         agentView look listed (upd (\<lambda>_. ob) s) = agentView look listed s"
      "\<And>s ob. AvailableCRDs (upd (\<lambda>_. ob) s) = AvailableCRDs s"
      "\<And>s ob. world (upd (\<lambda>_. ob) s) = world s" "\<And>s ob. calls (upd (\<lambda>_. ob) s) = calls s"
    and m: "\<And>r. reader (agentView look listed) (m r)" "\<And>r s b. fst (m r s) = Ok b \<Longrightarrow> content_setter k (h b)"
      "\<And>r r'. agentView look listed r = agentView look listed r' \<Longrightarrow> m r = m r'"
    and f: "\<And>r ob. f r ob = bindM (liftSum (own r ob)) (\<lambda>ob1. bindM (m r) (\<lambda>b. liftOutcome (h b ob1)))"
  shows "settling look (agentView look listed) (agentAt ns crds) (createOrUpdate x field upd f) {(k, n, ns)}"
proof (rule agent_phase, goal_cases)
  case (11 r)
  show ?case
    unfolding f by (rule owned_reading [OF agent_blind agent_owner.owner_setter_axioms m(1) m(2)])
next
  case (12 r r')
  show ?case unfolding fun_eq_iff f m(3) [OF 12] agentView_own [OF 12] by simp
qed (use srv k field upd in simp_all)

lemma liftOutcome_Ok [simp]: "liftOutcome (Ok a) = ret a"
  by (simp add: liftOutcome_def ret_def)

definition egressBody ::
  "('w, 'y) client_scheme \<Rightarrow> (EgressFirewallRule list \<Rightarrow> obody) \<Rightarrow> ('w, obody) agent_prog" where
  "egressBody x g = bindM (getEgressFirewallDesiredState x) (\<lambda>rules. ret (g rules))"

lemma egressBody_reads: "object_server x look listed \<Longrightarrow> reader (agentView look listed) (egressBody x g)"
  unfolding egressBody_def by (intro reader_rules agent_blind reader_egress)

lemma egressBody_kind: "(\<And>rules. kind_of_body (g rules) = k) \<Longrightarrow> fst (egressBody x g s) = Ok b \<Longrightarrow> kind_of_body b = k"
  by (auto simp: egressBody_def bindM_def ret_def split: prod.splits outcome.splits)

lemma settling_egress_firewall:
  assumes srv: "object_server x look listed"
  shows "agentSettles look listed ns crds (reconcileEgressFirewall x)
    (if crdAvailable crds EgressFirewallCRD then {(KEgressFirewall, egressFirewallName, ns)} else {})"
  unfolding reconcileEgressFirewall_def
proof (rule settling_when, simp add: agentAt_def, rule settling_wrapErr,
    rule agent_reading_phase [where h = fillBody and m = "\<lambda>_. egressBody x EgressFirewall", OF srv],
    goal_cases)
  case (10 r)
  show ?case by (rule egressBody_reads [OF srv])
next
  case (11 r s b)
  then show ?case by (intro fillBody_content) (auto dest: egressBody_kind [rotated])
qed (auto simp: field_simps_agent egressBody_def bindM_assoc fillBody_def)

lemma settling_egress_policy:
  assumes srv: "object_server x look listed"
  shows "agentSettles look listed ns crds (reconcileEgressNetworkPolicy x)
    (if crdAvailable crds EgressNetworkPolicyCRD then {(KEgressNetworkPolicy, egressNetworkPolicyName, ns)} else {})"
  unfolding reconcileEgressNetworkPolicy_def
proof (rule settling_when, simp add: agentAt_def, rule settling_wrapErr,
    rule agent_reading_phase [where h = fillBody and
      m = "\<lambda>_. egressBody x (\<lambda>rules. EgressNetworkPolicy (egressFirewallSpecToEgressNetworkPolicySpec rules))", OF srv],
    goal_cases)
  case (10 r)
  show ?case by (rule egressBody_reads [OF srv])
next
  case (11 r s b)
  then show ?case by (intro fillBody_content) (auto dest: egressBody_kind [rotated])
qed (auto simp: field_simps_agent egressBody_def bindM_assoc fillBody_def)

lemma AddLabel_setBody: "AddLabel (setBody b ob) key v = setBody b (AddLabel ob key v)"
  by (simp add: AddLabel_def setLabels_def setBody_def split: option.split)

definition prometheusBody :: "('w, 'y) client_scheme \<Rightarrow> 'w agent \<Rightarrow> ('w, obody) agent_prog" where
  "prometheusBody x r =
     bindM (wrapErr ''unable to set image for kube-rbac-proxy container'' (getCSVByPrefix x agentCSVPrefix)) (\<lambda>agentCSV.
     bindM (liftOutcome (kubeRbacImage agentCSV)) (\<lambda>img.
     bindM (client_get x KClusterVersion (''version'', '''')) (\<lambda>clusterVersion.
     bindM (liftOutcome (prometheusSpec r img (clusterID clusterVersion))) (\<lambda>spec. ret (Prometheus spec)))))"

lemma prometheusSpec_view:
  assumes "agentView look listed r = agentView look listed r'"
  shows "prometheusSpec r = prometheusSpec r'"
  unfolding prometheusSpec_def fun_eq_iff agentView_eqD(1,7) [OF assms] by simp

lemma prometheusBody_reads:
  "object_server x look listed \<Longrightarrow> reader (agentView look listed) (prometheusBody x r)"
  unfolding prometheusBody_def
  by (intro reader_rules agent_blind reader_csv reader_client_get; (assumption | erule agentView_eqD(10))?)

lemma prometheusBody_kind: "fst (prometheusBody x r s) = Ok b \<Longrightarrow> kind_of_body b = KPrometheus"
  by (auto simp: prometheusBody_def bindM_def ret_def split: prod.splits outcome.splits)

lemma prometheus_closure:
  "bindM (liftSum (own r ob)) (\<lambda>ob.
     let ob = AddLabel ob monLabelKey monLabelValue in
     bindM (wrapErr ''unable to set image for kube-rbac-proxy container'' (getCSVByPrefix x agentCSVPrefix)) (\<lambda>agentCSV.
     bindM (liftOutcome (kubeRbacImage agentCSV)) (\<lambda>img.
     bindM (client_get x KClusterVersion (''version'', '''')) (\<lambda>clusterVersion.
     bindM (liftOutcome (prometheusSpec r img (clusterID clusterVersion))) (\<lambda>spec.
     ret (setBody (Prometheus spec) ob)))))) =
   bindM (liftSum (own r ob)) (\<lambda>ob1. bindM (prometheusBody x r) (\<lambda>b. liftOutcome (fillLabelled b ob1)))"
  by (simp add: prometheusBody_def bindM_assoc fillLabelled_def AddLabel_setBody Let_def)

lemma settling_prometheus:
  assumes srv: "object_server x look listed"
  shows "agentSettles look listed ns crds (reconcilePrometheus x) {(KPrometheus, prometheusName, ns)}"
  unfolding reconcilePrometheus_def
proof (rule settling_wrapErr, rule agent_reading_phase [where h = fillLabelled and m = "prometheusBody x", OF srv], goal_cases)
  case (10 r)
  show ?case by (rule prometheusBody_reads [OF srv])
next
  case (11 r s b)
  then show ?case by (intro fillLabelled_content prometheusBody_kind)
next
  case (12 r r')
  show ?case unfolding prometheusBody_def prometheusSpec_view [OF 12] ..
next
  case (13 r ob)
  show ?case by (rule prometheus_closure)
qed (auto simp: field_simps_agent)

text \<open>The body of the Alertmanager configuration; the customer notification is a file of the image.\<close>

definition alertmanagerConfigBody :: "('w, 'y) host_scheme \<Rightarrow> 'w agent \<Rightarrow> ('w, obody) agent_prog" where
  "alertmanagerConfigBody x r =
     (if pd_SOPEndpoint (pagerDutyConfigData r) = ''''
      then fail (ErrorNew ''agent PagerDuty configuration does not contain sopEndpoint entry'')
      else if smtp_Username (smtpConfigData r) = ''''
      then fail (ErrorNew ''agent SMTP configuration does not contain username entry'')
      else if smtp_Endpoint (smtpConfigData r) = ''''
      then fail (ErrorNew ''agent SMTP configuration does not contain endpoint entry'')
      else if smtp_FromAddress (smtpConfigData r) = ''''
      then fail (ErrorNew ''agent SMTP configuration does not contain fromAddress entry'')
      else
        bindM (wrapErr ''unable to read customernotification.html file''
                 (host_readFile x (CustomerNotificationHTMLPath r))) (\<lambda>smtpHTML.
        bindM (wrapErr ''unable to parse SMTP Endpoint url''
                 (liftSum (ParseRequestURI (smtp_Endpoint (smtpConfigData r))))) (\<lambda>smtpURL.
        if url_Host smtpURL = ''''
        then fail (ErrorNew ''cannot retrieve host, might be a malformed or partial URL'')
        else
          bindM (liftOutcome (alertmanagerConfigSpec r (url_Host smtpURL) smtpHTML)) (\<lambda>spec.
          ret (AlertmanagerConfig spec)))))"

lemma alertmanagerConfigSpec_view:
  assumes "agentView look listed r = agentView look listed r'"
  shows "alertmanagerConfigSpec r = alertmanagerConfigSpec r'"
  unfolding alertmanagerConfigSpec_def setReceiver_def fun_eq_iff agentView_eqD(5,6,8) [OF assms] by simp

lemma alertmanagerConfigBody_reads:
  assumes "\<And>path w. os_ReadFile x path w = (files path, w)"
  shows "reader (agentView look listed) (alertmanagerConfigBody x r)"
  unfolding alertmanagerConfigBody_def
  by (intro reader_rules agent_blind reader_readFile [where files = files]) (rule assms)

lemma alertmanagerConfigBody_kind: "fst (alertmanagerConfigBody x r s) = Ok b \<Longrightarrow> kind_of_body b = KAlertmanagerConfig"
  by (auto simp: alertmanagerConfigBody_def bindM_def ret_def fail_def split: prod.splits outcome.splits if_splits)

lemma alertmanagerConfig_closure:
  "bindM (liftSum (own r ob)) (\<lambda>ob.
       if pd_SOPEndpoint (pagerDutyConfigData r) = ''''
       then fail (ErrorNew ''agent PagerDuty configuration does not contain sopEndpoint entry'')
       else if smtp_Username (smtpConfigData r) = ''''
       then fail (ErrorNew ''agent SMTP configuration does not contain username entry'')
       else if smtp_Endpoint (smtpConfigData r) = ''''
       then fail (ErrorNew ''agent SMTP configuration does not contain endpoint entry'')
       else if smtp_FromAddress (smtpConfigData r) = ''''
       then fail (ErrorNew ''agent SMTP configuration does not contain fromAddress entry'')
       else
         bindM (wrapErr ''unable to read customernotification.html file''
                  (host_readFile x (CustomerNotificationHTMLPath r))) (\<lambda>smtpHTML.
         bindM (wrapErr ''unable to parse SMTP Endpoint url''
                  (liftSum (ParseRequestURI (smtp_Endpoint (smtpConfigData r))))) (\<lambda>smtpURL.
         if url_Host smtpURL = ''''
         then fail (ErrorNew ''cannot retrieve host, might be a malformed or partial URL'')
         else
           bindM (liftOutcome (alertmanagerConfigSpec r (url_Host smtpURL) smtpHTML)) (\<lambda>spec.
           ret (AddLabel (setBody (AlertmanagerConfig spec) ob) monLabelKey monLabelValue))))) =
   bindM (liftSum (own r ob)) (\<lambda>ob1. bindM (alertmanagerConfigBody x r) (\<lambda>b. liftOutcome (fillLabelled b ob1)))"
  by (simp add: alertmanagerConfigBody_def bindM_assoc fillLabelled_def AddLabel_setBody if_distrib [of "\<lambda>m. bindM m _"]
      cong: if_cong)

lemma settling_alertmanager_config:
  assumes srv: "object_server x look listed" and files: "\<And>path w. os_ReadFile x path w = (files path, w)"
  shows "agentSettles look listed ns crds (reconcileAlertmanagerConfig x) {(KAlertmanagerConfig, alertmanagerConfigName, ns)}"
  unfolding reconcileAlertmanagerConfig_def
proof (rule agent_reading_phase [where h = fillLabelled and m = "alertmanagerConfigBody x", OF srv], goal_cases)
  case (10 r)
  show ?case by (rule alertmanagerConfigBody_reads [OF files])
next
  case (11 r s b)
  then show ?case by (intro fillLabelled_content alertmanagerConfigBody_kind)
next
  case (12 r r')
  show ?case
    unfolding alertmanagerConfigBody_def alertmanagerConfigSpec_view [OF 12] agentView_eqD(3,5,6) [OF 12] ..
next
  case (13 r ob)
  show ?case by (rule alertmanagerConfig_closure)
qed (auto simp: field_simps_agent)

section \<open>The resources together\<close>

definition agentResources :: "string \<Rightarrow> (string, bool) fmap \<Rightarrow> (kind \<times> nname) set" where
  "agentResources ns crds =
     {(KSecret, alertRelabelConfigSecretName, ns), (KConfigMap, PrometheusKubeRBACPoxyConfigMapName, ns),
      (KService, prometheusServiceName, ns), (KPrometheus, prometheusName, ns), (KAlertmanager, alertmanagerName, ns),
      (KSecret, alertmanagerSecretName, ns), (KAlertmanagerConfig, alertmanagerConfigName, ns),
      (KServiceMonitor, k8sMetricsServiceMonitorName, ns), (KNetworkPolicy, prometheusProxyNetworkPolicyName, ns)} \<union>
     (if crdAvailable crds EgressFirewallCRD then {(KEgressFirewall, egressFirewallName, ns)} else {}) \<union>
     (if crdAvailable crds EgressNetworkPolicyCRD then {(KEgressNetworkPolicy, egressNetworkPolicyName, ns)} else {})"

lemmas settling_phases = settling_relabel_secret settling_rbac_config settling_service settling_prometheus
  settling_alertmanager settling_alertmanager_secret settling_metrics_monitor settling_proxy_policy
  settling_egress_firewall settling_egress_policy

lemma agentResources_nested:
  "agentResources ns crds =
    {(KSecret, alertRelabelConfigSecretName, ns)} \<union> ({(KConfigMap, PrometheusKubeRBACPoxyConfigMapName, ns)} \<union>
    ({(KService, prometheusServiceName, ns)} \<union> ({(KPrometheus, prometheusName, ns)} \<union>
    ({(KAlertmanager, alertmanagerName, ns)} \<union> ({(KSecret, alertmanagerSecretName, ns)} \<union>
    ({(KAlertmanagerConfig, alertmanagerConfigName, ns)} \<union> ({(KServiceMonitor, k8sMetricsServiceMonitorName, ns)} \<union>
    ({(KNetworkPolicy, prometheusProxyNetworkPolicyName, ns)} \<union>
    ((if crdAvailable crds EgressFirewallCRD then {(KEgressFirewall, egressFirewallName, ns)} else {}) \<union>
     (if crdAvailable crds EgressNetworkPolicyCRD then {(KEgressNetworkPolicy, egressNetworkPolicyName, ns)} else {}))))))))))"
  by (simp add: agentResources_def Un_assoc [symmetric] insert_commute)

lemma settling_resourcePhases:
  assumes srv: "object_server x look listed" and files: "\<And>path w. os_ReadFile x path w = (files path, w)"
  shows "agentSettles look listed ns crds (resourcePhases x) (agentResources ns crds)"
  unfolding resourcePhases_def agentResources_nested
  by (intro settling_thenM settling_phases [OF srv] settling_alertmanager_config [OF srv files])
    (auto simp: const_defs split: if_splits)

section \<open>The start of a run\<close>

lemma loadPagerDuty_Ok:
  assumes "loadPagerDuty x s = (Ok (), s')"
  shows "\<exists>pd. s' = s\<lparr>pagerDutyConfigData := pd\<rparr> \<and>
     (\<forall>t. secretData (managedFusionSecret t) = secretData (managedFusionSecret s) \<longrightarrow>
        loadPagerDuty x t = (Ok (), t\<lparr>pagerDutyConfigData := pd\<rparr>))"
proof -
  obtain c where "goMapGet (secretData (managedFusionSecret s)) ''pager_duty_config'' = Some c" "snd (yaml_pagerDuty x c) = None"
    using assms by (auto simp: load_runs simp del: secretData.simps split: option.splits)
  with assms show ?thesis
    by (intro exI [of _ "fst (yaml_pagerDuty x c)"]) (simp add: load_runs del: secretData.simps)
qed

lemma loadSmtp_Ok:
  assumes "loadSmtp x s = (Ok (), s')"
  shows "\<exists>sm. s' = s\<lparr>smtpConfigData := sm\<rparr> \<and>
     (\<forall>t. secretData (managedFusionSecret t) = secretData (managedFusionSecret s) \<longrightarrow>
        loadSmtp x t = (Ok (), t\<lparr>smtpConfigData := sm\<rparr>))"
proof -
  obtain c where "goMapGet (secretData (managedFusionSecret s)) ''smtp_config'' = Some c" "snd (yaml_smtp x c) = None"
    using assms by (auto simp: load_runs simp del: secretData.simps split: option.splits)
  with assms show ?thesis
    by (intro exI [of _ "fst (yaml_smtp x c)"]) (simp add: load_runs del: secretData.simps)
qed

lemma loadRemoteWrite_Ok:
  assumes "loadRemoteWrite x s = (Ok (), s')"
  shows "\<exists>rw. s' = s\<lparr>remoteWriteConfigData := rw\<rparr> \<and>
     (\<forall>t. secretData (managedFusionSecret t) = secretData (managedFusionSecret s) \<longrightarrow>
        remoteWriteConfigData t = rw \<longrightarrow> loadRemoteWrite x t = (Ok (), t))"
proof (cases "goMapGet (secretData (managedFusionSecret s)) ''remote_write_config''")
  case None
  with assms show ?thesis
    by (intro exI [of _ "remoteWriteConfigData s"]) (simp add: load_runs del: secretData.simps)
next
  case (Some c)
  then have "snd (yaml_remoteWrite x c) = None"
    using assms by (auto simp: load_runs simp del: secretData.simps split: option.splits)
  with assms Some show ?thesis
    by (intro exI [of _ "Some (fst (yaml_remoteWrite x c))"]) (simp add: load_runs del: secretData.simps)
qed

lemma loadConfig_Ok:
  assumes "loadConfig x s = (Ok (), s')"
  obtains pd sm rw where "s' = s\<lparr>pagerDutyConfigData := pd, smtpConfigData := sm, remoteWriteConfigData := rw\<rparr>"
    and "\<And>t. secretData (managedFusionSecret t) = secretData (managedFusionSecret s) \<Longrightarrow> remoteWriteConfigData t = rw \<Longrightarrow>
      loadConfig x t = (Ok (), t\<lparr>pagerDutyConfigData := pd, smtpConfigData := sm, remoteWriteConfigData := rw\<rparr>)"
proof -
  obtain s1 s2 where runs: "loadPagerDuty x s = (Ok (), s1)" "loadSmtp x s1 = (Ok (), s2)" "loadRemoteWrite x s2 = (Ok (), s')"
    using assms by (auto simp: loadConfig_def thenM_step split: prod.splits outcome.splits)
  obtain pd where pd: "s1 = s\<lparr>pagerDutyConfigData := pd\<rparr>"
    "\<forall>t. secretData (managedFusionSecret t) = secretData (managedFusionSecret s) \<longrightarrow>
       loadPagerDuty x t = (Ok (), t\<lparr>pagerDutyConfigData := pd\<rparr>)"
    using loadPagerDuty_Ok [OF runs(1)] by blast
  obtain sm where sm: "s2 = s1\<lparr>smtpConfigData := sm\<rparr>"
    "\<forall>t. secretData (managedFusionSecret t) = secretData (managedFusionSecret s1) \<longrightarrow>
       loadSmtp x t = (Ok (), t\<lparr>smtpConfigData := sm\<rparr>)"
    using loadSmtp_Ok [OF runs(2)] by blast
  obtain w where rw: "s' = s2\<lparr>remoteWriteConfigData := w\<rparr>"
    "\<forall>t. secretData (managedFusionSecret t) = secretData (managedFusionSecret s2) \<longrightarrow>
       remoteWriteConfigData t = w \<longrightarrow> loadRemoteWrite x t = (Ok (), t)"
    using loadRemoteWrite_Ok [OF runs(3)] by blast
  have s': "s' = s\<lparr>pagerDutyConfigData := pd, smtpConfigData := sm, remoteWriteConfigData := w\<rparr>"
    by (simp add: rw(1) pd(1) sm(1))
  show thesis
  proof (rule that [OF s'])
    fix t :: "'a agent"
    assume t: "secretData (managedFusionSecret t) = secretData (managedFusionSecret s)" "remoteWriteConfigData t = w"
    let ?t = "t\<lparr>pagerDutyConfigData := pd, smtpConfigData := sm\<rparr>"
    have "loadRemoteWrite x ?t = (Ok (), ?t)"
      using rw(2) t by (simp add: pd(1) sm(1) del: secretData.simps)
    moreover have "?t = t\<lparr>pagerDutyConfigData := pd, smtpConfigData := sm, remoteWriteConfigData := w\<rparr>"
      using t(2) by simp
    ultimately show "loadConfig x t = (Ok (), t\<lparr>pagerDutyConfigData := pd, smtpConfigData := sm, remoteWriteConfigData := w\<rparr>)"
      using pd(2) sm(2) t(1) by (simp add: loadConfig_def thenM_step pd(1) del: secretData.simps)
  qed
qed

lemma Reconcile_start:
  assumes srv: "object_server x look listed"
    and sec: "look (world r) (KSecret, managedFusionSecretName, agentNamespace r) = Some sec"
  obtains s0 ans where "Reconcile x r = thenM (loadConfig x) (reconcilePhases x) s0" and "managedFusionSecret s0 = sec"
    and "world s0 = world r" and "calls s0 = calls r @ [CGet KSecret (secretKey r) ans]"
    and "agentAt (agentNamespace r) (AvailableCRDs r) s0" and "agentNamespace s0 = agentNamespace r"
    and "CustomerNotificationHTMLPath s0 = CustomerNotificationHTMLPath r"
    and "remoteWriteConfigData s0 = remoteWriteConfigData r"
    and "s0 = (snd (initReconciler r))\<lparr>calls := calls r @ [CGet KSecret (secretKey r) ans], managedFusionSecret := sec\<rparr>"
proof -
  define r0 where "r0 = snd (initReconciler r)"
  let ?s0 = "r0\<lparr>calls := calls r @ [CGet KSecret (secretKey r) (Inr sec)], managedFusionSecret := sec\<rparr>"
  have key: "keyOf sec = (KSecret, secretKey r)"
    using server_keys [OF srv sec] by (simp add: secretKey_def)
  then have dec: "decodeAs KSecret sec = sec" by (intro decodeAs_same) (simp add: keyOf_def)
  obtain missing where get: "\<forall>w k key. api_Get x k key w = (case look w (k, key) of None \<Rightarrow> Inl (missing k key) | Some ob \<Rightarrow> Inr ob, w)"
    using server_Get [OF srv] by blast
  have r0: "initReconciler r = (Ok (), r0)" "world r0 = world r" "calls r0 = calls r"
    "ObjectKeyFromObject (managedFusionSecret r0) = secretKey r" "AvailableCRDs r0 = AvailableCRDs r"
    "agentNamespace r0 = agentNamespace r" "CustomerNotificationHTMLPath r0 = CustomerNotificationHTMLPath r"
    "remoteWriteConfigData r0 = remoteWriteConfigData r"
    by (simp_all add: r0_def initReconciler_def modify_def Let_def secretKey_def)
  have "loadSecret x r0 = (Ok True, ?s0)"
    using sec dec by (simp add: loadSecret_def prog_unfold r0 get secretKey_def)
  then have "Reconcile x r = thenM (loadConfig x) (reconcilePhases x) ?s0"
    unfolding Reconcile_loadConfig by (simp add: thenM_step [of initReconciler] r0(1) bindM_def [of "loadSecret x"])
  moreover have "agentAt (agentNamespace r) (AvailableCRDs r) ?s0"
    using agentKeyed_init [of r, folded r0_def] key r0(5) by (simp add: agentAt_def agentKeyed_def secretKey_def)
  ultimately show thesis
    using r0 by (intro that [of ?s0 "Inr sec"]) (simp_all add: r0_def [symmetric])
qed

section \<open>The finalizer of the secret\<close>

lemma finalizerPhase_present:
  "managedFusionFinalizer \<in> set (Finalizers (meta (managedFusionSecret t))) \<Longrightarrow> finalizerPhase x t = (Ok (), t)"
  by (simp add: finalizerPhase_def AddFinalizer_def bindM_def gets_def ret_def)

lemma finalizerPhase_Ok:
  assumes srv: "object_server x look listed" and run: "finalizerPhase x s = (Ok (), s')"
    and sec: "managedFusionSecret s = sec" "look (world s) (keyOf sec) = Some sec"
  obtains w c sec' where "s' = s\<lparr>world := w, calls := c, managedFusionSecret := sec'\<rparr>"
    and "look w (keyOf sec) = Some sec'" and "keyOf sec' = keyOf sec" and "secretData sec' = secretData sec"
    and "DeletionTimestamp (meta sec') = DeletionTimestamp (meta sec)"
    and "managedFusionFinalizer \<in> set (Finalizers (meta sec'))" and "apart look listed (keyOf sec) (world s) w"
proof (cases "managedFusionFinalizer \<in> set (Finalizers (meta sec))")
  case True
  then have "s' = s" using run sec(1) by (simp add: finalizerPhase_present)
  with True sec show thesis by (intro that [where w = "world s" and c = "calls s" and sec' = sec]) (simp_all add: apart_refl)
next
  case False
  let ?o = "setFinalizers (Finalizers (meta sec) @ [managedFusionFinalizer]) sec"
  have add: "AddFinalizer sec managedFusionFinalizer = (True, ?o)"
    using False by (simp add: AddFinalizer_def)
  obtain o2 t where put: "client_update x ?o s = (Ok o2, t)" and s': "s' = t\<lparr>managedFusionSecret := o2\<rparr>"
    using run sec(1) add
    by (auto simp: finalizerPhase_def bindM_def gets_def modify_def wrapErr_def split: prod.splits outcome.splits)
  obtain w c where w: "stored look listed (world s) w ?o o2" "t = s\<lparr>world := w, calls := c\<rparr>"
    by (rule client_put_Ok [OF srv disjI2 [OF put]])
  then obtain u v where o2: "o2 = stamp u v ?o" by (auto simp: stored_def)
  have key: "keyOf ?o = keyOf sec" by (simp add: keyOf_def setFinalizers_def kind_of_def ObjectKeyFromObject_def)
  show thesis
  proof (rule that)
    show "s' = s\<lparr>world := w, calls := c, managedFusionSecret := o2\<rparr>" by (simp add: s' w(2))
    show "look w (keyOf sec) = Some o2" using w(1) key by (simp add: stored_def)
    show "keyOf o2 = keyOf sec" using key by (simp add: o2 keyOf_def)
    show "apart look listed (keyOf sec) (world s) w" using stored_apart [OF w(1)] key by simp
    show "secretData o2 = secretData sec" by (simp add: o2 setFinalizers_def)
    show "DeletionTimestamp (meta o2) = DeletionTimestamp (meta sec)"
      and "managedFusionFinalizer \<in> set (Finalizers (meta o2))"
      by (simp_all add: o2 stamp_def setFinalizers_def)
  qed
qed

section \<open>Convergence\<close>

text \<open>
  C5: on a server that stores what it is sent, a run of the agent that succeeds for a live secret
  leaves each of its resources in the cluster (the egress resources when their definitions are
  known), and the next run succeeds, only reads, asks for no requeue and changes nothing.
\<close>

theorem agent_converges:
  assumes srv: "object_server x look listed" and files: "\<And>path w. os_ReadFile x path w = (files path, w)"
    and sec: "look (world r) (KSecret, managedFusionSecretName, agentNamespace r) = Some sec"
    and live: "IsZero (DeletionTimestamp (meta sec))" "UID (meta sec) \<noteq> ''''"
    and run: "Reconcile x r = (Ok res, r1)"
  shows "(\<forall>kk \<in> agentResources (agentNamespace r) (AvailableCRDs r). look (world r1) kk \<noteq> None) \<and>
    fst (Reconcile x r1) = Ok noRequeue \<and> world (snd (Reconcile x r1)) = world r1 \<and>
    list_all is_read (issued (Reconcile x) r1)"
proof -
  let ?ns = "agentNamespace r" and ?crds = "AvailableCRDs r" and ?K = "(KSecret, managedFusionSecretName, agentNamespace r)"
  obtain s0 ans where s0: "Reconcile x r = thenM (loadConfig x) (reconcilePhases x) s0" "managedFusionSecret s0 = sec"
      "world s0 = world r" "agentAt ?ns ?crds s0" "agentNamespace s0 = ?ns"
    by (rule Reconcile_start [where r = r, OF srv sec])
  obtain s1 where load: "loadConfig x s0 = (Ok (), s1)" and phases: "reconcilePhases x s1 = (Ok res, r1)"
    using run unfolding s0(1) by (auto simp: thenM_step split: prod.splits outcome.splits)
  obtain pd sm rw where s1: "s1 = s0\<lparr>pagerDutyConfigData := pd, smtpConfigData := sm, remoteWriteConfigData := rw\<rparr>"
    and again: "\<forall>t. secretData (managedFusionSecret t) = secretData (managedFusionSecret s0) \<longrightarrow> remoteWriteConfigData t = rw \<longrightarrow>
      loadConfig x t = (Ok (), t\<lparr>pagerDutyConfigData := pd, smtpConfigData := sm, remoteWriteConfigData := rw\<rparr>)"
    by (rule loadConfig_Ok [OF load]) blast
  have sec1: "managedFusionSecret s1 = sec" by (simp add: s1 s0(2))
  obtain s2 where fin: "finalizerPhase x s1 = (Ok (), s2)" and res: "resourcePhases x s2 = (Ok (), r1)"
    using phases live unfolding reconcilePhases_def
    by (auto simp: bindM_step thenM_step gets_def ret_def sec1 split: prod.splits outcome.splits)
  have key: "keyOf sec = ?K" by (rule server_keys [OF srv sec])
  have "look (world s1) (keyOf sec) = Some sec" using sec by (simp add: key s1 s0(3))
  then obtain w c sec' where s2: "s2 = s1\<lparr>world := w, calls := c, managedFusionSecret := sec'\<rparr>"
    and sec': "look w ?K = Some sec'" "keyOf sec' = ?K" "secretData sec' = secretData sec"
      "DeletionTimestamp (meta sec') = DeletionTimestamp (meta sec)" "managedFusionFinalizer \<in> set (Finalizers (meta sec'))"
    by (rule finalizerPhase_Ok [OF srv fin sec1]) (auto simp: key simp del: secretData.simps)
  have at2: "agentAt ?ns ?crds s2" using s0(4) sec'(2) by (simp add: s2 s1 agentAt_def agentKeyed_def)
  note S = settlingD [where look = look and V = "agentView look listed" and I = "agentAt ?ns ?crds" and P = "resourcePhases x",
      OF settling_resourcePhases [OF srv files] at2 res]
  note same = agentView_eqD [OF S(1)]
  have r1: "agentNamespace r1 = ?ns" "AvailableCRDs r1 = ?crds" "managedFusionSecret r1 = sec'"
      "pagerDutyConfigData r1 = pd" "smtpConfigData r1 = sm" "remoteWriteConfigData r1 = rw"
    using same(1,4-7) S(2) by (simp_all add: s2 s1 s0(5) agentAt_def)
  have "?K \<notin> agentResources ?ns ?crds"
    by (simp add: agentResources_def const_defs)
  from S(3) [OF this] have "look (world r1) ?K = Some sec'"
    using sec'(1) by (simp add: s2)
  then obtain q0 ans2 where q0: "Reconcile x r1 = thenM (loadConfig x) (reconcilePhases x) q0" "managedFusionSecret q0 = sec'"
      "world q0 = world r1" "calls q0 = calls r1 @ [CGet KSecret (secretKey r1) ans2]" "agentAt ?ns ?crds q0"
      "agentNamespace q0 = ?ns" "CustomerNotificationHTMLPath q0 = CustomerNotificationHTMLPath r1"
      "remoteWriteConfigData q0 = rw"
    by (rule Reconcile_start [where r = r1, OF srv, unfolded r1(1,2,6)])
  define q1 where "q1 = q0\<lparr>pagerDutyConfigData := pd, smtpConfigData := sm, remoteWriteConfigData := rw\<rparr>"
  have "loadConfig x q0 = (Ok (), q1)"
    unfolding q1_def by (rule again [rule_format]) (simp_all add: q0(2,8) s0(2) sec'(3) del: secretData.simps)
  then have second: "Reconcile x r1 = reconcilePhases x q1"
    by (simp add: q0(1) thenM_step)
  have q1: "managedFusionSecret q1 = sec'" "agentAt ?ns ?crds q1" "world q1 = world r1" "calls q1 = calls q0"
    using q0(5) by (simp_all add: q1_def q0(2,3) agentAt_def agentKeyed_def)
  have amName: "Name (meta (alertmanagerSecret t)) = alertmanagerSecretName" if "agentAt ?ns ?crds t" for t :: "'a agent"
    using that by (simp add: agentAt_def agentKeyed_def keyOf_def ObjectKeyFromObject_def)
  have "agentView look listed q1 = agentView look listed r1"
    using q0(5) S(2) amName [OF S(2)] amName [OF q1(2)] q1(1,3) r1
    by (simp add: agentView_def q1_def q0(6,7) agentAt_def)
  then have "idle (agentView look listed) (agentAt ?ns ?crds) (resourcePhases x) q1"
    by (rule S(5) [OF q1(2)]) (simp add: q1(3))
  then obtain t cs where t: "resourcePhases x q1 = (Ok (), t)" "world t = world r1" "calls t = calls q1 @ cs" "list_all is_read cs"
    unfolding idle_def q1(3) by blast
  have "\<exists>q2 cs. reconcilePhases x q1 = (Ok noRequeue, q2) \<and> world q2 = world r1 \<and> calls q2 = calls q1 @ cs \<and> list_all is_read cs"
    using t live(1) finalizerPhase_present [of q1 x] sec'(4,5) q1(1,3)
    by (cases "UID (meta sec') = ''''")
      (auto simp: reconcilePhases_def bindM_step thenM_step gets_def ret_def)
  then show ?thesis
    using S(4) by (auto simp: second issued_def q1(4) q0(4))
qed

end
