(* ===== verification/Agent_Install.thy ===== *)
theory Agent_Install
  imports Agent_Convergence Agent_Outcomes Mem_Cluster
begin

text \<open>
  The agent's installation succeeds: with a complete configuration and the objects it reads in the
  cluster, a run on a cluster without the agent's resources creates them all.
\<close>

section \<open>Creating a missing object\<close>

definition accepting :: "('w, 'y) client_scheme \<Rightarrow> 'w looks \<Rightarrow> bool" where
  "accepting x look \<longleftrightarrow> (\<forall>w ob. \<exists>ob' w'.
     (look w (keyOf ob) = None \<longrightarrow> api_Create x ob w = (Inr ob', w')) \<and>
     (look w (keyOf ob) \<noteq> None \<longrightarrow> api_Update x ob w = (Inr ob', w')))"

lemma createOrUpdate_creates:
  assumes srv: "object_server x look listed" and acc: "accepting x look" and blind: "blind V"
    and rm: "reading_mutator V k (f s)" and field: "field s = named k n ns"
    and none: "look (world s) (k, n, ns) = None" and made: "isOk (fst (f s (named k n ns) s))"
  obtains w c ob where "createOrUpdate x field upd f s = (Ok (), upd (\<lambda>_. ob) (s\<lparr>world := w, calls := c\<rparr>))"
    and "keyOf ob = (k, n, ns)" and "look w (k, n, ns) \<noteq> None" and "apart look listed (k, n, ns) (world s) w"
proof -
  let ?ob = "named k n ns" and ?key = "(n, ns)"
  have ob: "keyOf ?ob = (k, ?key)" "kind_of ?ob = k" "ObjectKeyFromObject ?ob = ?key" by (simp_all add: keyOf_def)
  obtain missing where missing: "\<forall>k key. IsNotFound (missing k key)"
    and get: "\<forall>w k key. api_Get x k key w = (case look w (k, key) of None \<Rightarrow> Inl (missing k key) | Some ob \<Rightarrow> Inr ob, w)"
    using server_Get [OF srv] by blast
  let ?s = "s\<lparr>calls := calls s @ [CGet k ?key (Inl (missing k ?key))]\<rparr>"
  have at: "CreateOrUpdate x ?ob (f s) s = bindM (mutate (f s) ?key ?ob) (\<lambda>ob'.
      bindM (client_create x ob') (\<lambda>created. ret (OperationResultCreated, created))) ?s"
    using none missing [rule_format, of k ?key] by (simp add: CreateOrUpdate_def ob get prog_unfold)
  have eqv: "fst (f s ?ob ?s) = fst (f s ?ob s)"
    using blind by (intro reader_fst [OF reading_mutator.reads [OF rm]]) (simp add: blind_def)
  show thesis
  proof (rule reading_mutator.mutate_reads [OF rm ob(1) blind, of ?s])
    fix ob' cs assume m: "keyOf ob' = (k, ?key)" "mutate (f s) ?key ?ob ?s = (Ok ob', ?s\<lparr>calls := calls ?s @ cs\<rparr>)"
    obtain o2 w' where put: "api_Create x ob' (world s) = (Inr o2, w')"
      using acc none m(1) unfolding accepting_def by metis
    have st: "stored look listed (world s) w' ob' o2" by (rule server_writes(1) [OF srv put])
    then obtain u v where o2: "o2 = stamp u v ob'" by (auto simp: stored_def)
    note step = bindM_Ok [where m = "mutate (f s) ?key ?ob" and s = ?s, OF m(2)]
    have run: "CreateOrUpdate x ?ob (f s) s = (Ok (OperationResultCreated, o2),
        s\<lparr>world := w', calls := calls s @ [CGet k ?key (Inl (missing k ?key))] @ cs @ [CCreate ob' (Inr o2)]\<rparr>)"
      unfolding at step using put by (simp add: client_create_def callM_def bindM_def liftSum_def ret_def o2)
    have "createOrUpdate x field upd f s = (Ok (), upd (\<lambda>_. o2)
        (s\<lparr>world := w', calls := calls s @ [CGet k ?key (Inl (missing k ?key))] @ cs @ [CCreate ob' (Inr o2)]\<rparr>))"
      by (simp add: createOrUpdate_def bindM_def gets_def field run modify_def)
    moreover have "keyOf o2 = (k, n, ns)" using m(1) by (simp add: o2 keyOf_def)
    moreover have "look w' (k, n, ns) \<noteq> None" using st m(1) by (simp add: stored_def)
    moreover have "apart look listed (k, n, ns) (world s) w'" using stored_apart [OF st] m(1) by simp
    ultimately show thesis by (rule that)
  next
    assume "\<not> isOk (fst (mutate (f s) ?key ?ob ?s))"
    moreover obtain ob1 where ob1: "fst (f s ?ob s) = Ok ob1" using made by (auto simp: isOk_iff)
    moreover obtain cs where "f s ?ob ?s = (fst (f s ?ob ?s), ?s\<lparr>calls := calls ?s @ cs\<rparr>)"
      by (rule reader_log [OF reading_mutator.reads [OF rm]])
    moreover have "ObjectKeyFromObject ob1 = ?key"
      using reading_mutator.mutated_key [OF rm ob(2) ob1] ob(3) by simp
    ultimately show thesis by (simp add: mutate_def bindM_def eqv ret_def)
  qed
qed

section \<open>Phases that make their object\<close>

text \<open>As long as an object is missing, the reconciler holds what \<open>initReconciler\<close> made of it.\<close>

definition pristine :: "'w looks \<Rightarrow> string \<Rightarrow> 'w agent \<Rightarrow> bool" where
  "pristine look ns r \<longleftrightarrow>
     (look (world r) (KPrometheus, prometheusName, ns) = None \<longrightarrow> prometheus r = named KPrometheus prometheusName ns) \<and>
     (look (world r) (KConfigMap, PrometheusKubeRBACPoxyConfigMapName, ns) = None \<longrightarrow>
        prometheusKubeRBACConfigMap r = named KConfigMap PrometheusKubeRBACPoxyConfigMapName ns) \<and>
     (look (world r) (KService, prometheusServiceName, ns) = None \<longrightarrow> prometheusService r = named KService prometheusServiceName ns) \<and>
     (look (world r) (KServiceMonitor, k8sMetricsServiceMonitorName, ns) = None \<longrightarrow>
        k8sMetricsServiceMonitor r = named KServiceMonitor k8sMetricsServiceMonitorName ns) \<and>
     (look (world r) (KNetworkPolicy, prometheusProxyNetworkPolicyName, ns) = None \<longrightarrow>
        prometheusProxyNetworkPolicy r = named KNetworkPolicy prometheusProxyNetworkPolicyName ns) \<and>
     (look (world r) (KAlertmanager, alertmanagerName, ns) = None \<longrightarrow> alertmanager r = named KAlertmanager alertmanagerName ns) \<and>
     (look (world r) (KSecret, alertmanagerSecretName, ns) = None \<longrightarrow> alertmanagerSecret r = named KSecret alertmanagerSecretName ns) \<and>
     (look (world r) (KAlertmanagerConfig, alertmanagerConfigName, ns) = None \<longrightarrow>
        alertmanagerConfig r = named KAlertmanagerConfig alertmanagerConfigName ns) \<and>
     (look (world r) (KSecret, alertRelabelConfigSecretName, ns) = None \<longrightarrow>
        alertRelabelConfigSecret r = named KSecret alertRelabelConfigSecretName ns) \<and>
     (look (world r) (KEgressNetworkPolicy, egressNetworkPolicyName, ns) = None \<longrightarrow>
        egressNetworkPolicy r = named KEgressNetworkPolicy egressNetworkPolicyName ns) \<and>
     (look (world r) (KEgressFirewall, egressFirewallName, ns) = None \<longrightarrow>
        egressFirewall r = named KEgressFirewall egressFirewallName ns)"

definition advances ::
  "'w looks \<Rightarrow> 'w lists \<Rightarrow> string \<Rightarrow> (string, bool) fmap \<Rightarrow> 'w agent \<Rightarrow> ('w, unit) agent_prog \<Rightarrow> (kind \<times> nname) set \<Rightarrow> bool" where
  "advances look listed ns crds r0 P K \<longleftrightarrow>
     (\<forall>s. agentAt ns crds s \<longrightarrow> pristine look ns s \<longrightarrow> agentView look listed s = agentView look listed r0 \<longrightarrow>
        (\<forall>kk\<in>K. look (world s) kk = None) \<longrightarrow> (\<exists>s1. P s = (Ok (), s1) \<and> pristine look ns s1))"

lemma advances_thenM:
  assumes p: "agentSettles look listed ns crds P K" "advances look listed ns crds r0 P K"
    and q: "advances look listed ns crds r0 Q L" and dis: "K \<inter> L = {}"
  shows "advances look listed ns crds r0 (thenM P Q) (K \<union> L)"
  unfolding advances_def
proof (intro allI impI)
  fix s assume s: "agentAt ns crds s" "pristine look ns s" "agentView look listed s = agentView look listed r0"
    "\<forall>kk\<in>K \<union> L. look (world s) kk = None"
  obtain s1 where s1: "P s = (Ok (), s1)" "pristine look ns s1"
    using p(2) s unfolding advances_def by blast
  note S = settlingD [OF p(1) s(1) s1(1)]
  have "\<forall>kk\<in>L. look (world s1) kk = None"
  proof
    fix kk assume kk: "kk \<in> L"
    then have "kk \<notin> K" using dis by blast
    from S(3) [OF this] s(4) kk show "look (world s1) kk = None" by simp
  qed
  moreover have "agentView look listed s1 = agentView look listed r0" using S(1) s(3) by simp
  ultimately obtain s2 where "Q s1 = (Ok (), s2)" "pristine look ns s2"
    using q S(2) s1(2) unfolding advances_def by blast
  with s1(1) show "\<exists>s2. thenM P Q s = (Ok (), s2) \<and> pristine look ns s2"
    by (simp add: thenM_step)
qed

lemma advances_wrapErr: "advances look listed ns crds r0 P K \<Longrightarrow> advances look listed ns crds r0 (wrapErr msg P) K"
  unfolding advances_def by (metis wrapErr_Ok)

lemma advances_when:
  assumes "advances look listed ns crds r0 P K"
  shows "advances look listed ns crds r0 (bindM (gets (\<lambda>r. crdAvailable (AvailableCRDs r) c))
    (\<lambda>available. if \<not> available then ret () else P)) (if crdAvailable crds c then K else {})"
  using assms by (auto simp: advances_def bindM_def gets_def ret_def agentAt_def)

lemma advances_phase:
  assumes srv: "object_server x look listed" and acc: "accepting x look"
    and rm: "\<And>r. reading_mutator (agentView look listed) k (f r)"
    and field: "\<And>s. pristine look ns s \<Longrightarrow> look (world s) (k, n, ns) = None \<Longrightarrow> field s = named k n ns"
    and upd: "\<And>s w c ob e. pristine look ns s \<Longrightarrow> look w (k, n, ns) = Some e \<Longrightarrow>
      (\<forall>kk. kk \<noteq> (k, n, ns) \<longrightarrow> look w kk = look (world s) kk) \<Longrightarrow> pristine look ns (upd (\<lambda>_. ob) (s\<lparr>world := w, calls := c\<rparr>))"
    and made: "\<And>s. agentAt ns crds s \<Longrightarrow> agentView look listed s = agentView look listed r0 \<Longrightarrow>
      isOk (fst (f s (named k n ns) s))"
  shows "advances look listed ns crds r0 (createOrUpdate x field upd f) {(k, n, ns)}"
  unfolding advances_def
proof (intro allI impI)
  fix s assume s: "agentAt ns crds s" "pristine look ns s" "agentView look listed s = agentView look listed r0"
    "\<forall>kk\<in>{(k, n, ns)}. look (world s) kk = None"
  then have none: "look (world s) (k, n, ns) = None" by simp
  obtain w c ob where run: "createOrUpdate x field upd f s = (Ok (), upd (\<lambda>_. ob) (s\<lparr>world := w, calls := c\<rparr>))"
    and look: "look w (k, n, ns) \<noteq> None" "apart look listed (k, n, ns) (world s) w"
    by (rule createOrUpdate_creates [where s = s and f = f and field = field and upd = upd,
          OF srv acc agent_blind rm field [OF s(2) none] none made [OF s(1,3)]])
  then show "\<exists>s1. createOrUpdate x field upd f s = (Ok (), s1) \<and> pristine look ns s1"
    using upd [OF s(2)] by (auto simp: apart_def)
qed

text \<open>The secret can own every object of its namespace that has no owner yet.\<close>

lemma own_named:
  assumes "agentAt ns crds s"
  shows "\<exists>os. own s (named k n ns) = Inr (setOwners os (named k n ns))"
proof -
  have "kind_of (managedFusionSecret s) = KSecret" "Namespace (meta (managedFusionSecret s)) = ns"
    using assms by (simp_all add: agentAt_def agentKeyed_def keyOf_def ObjectKeyFromObject_def)
  then show ?thesis
    by (auto simp: own_def SetControllerReference_def validateOwner_def GVKForObject_def upsertOwnerRef_def named_def emptyMeta_def
        scheme_defs map_add_def Let_def split: option.splits)
qed

lemma advances_pure_phase:
  assumes srv: "object_server x look listed" and acc: "accepting x look"
    and pm: "\<And>r. pure_mutator k (withOwner (own r) (h r))"
    and field: "\<And>s. pristine look ns s \<Longrightarrow> look (world s) (k, n, ns) = None \<Longrightarrow> field s = named k n ns"
    and upd: "\<And>s w c ob e. pristine look ns s \<Longrightarrow> look w (k, n, ns) = Some e \<Longrightarrow>
      (\<forall>kk. kk \<noteq> (k, n, ns) \<longrightarrow> look w kk = look (world s) kk) \<Longrightarrow> pristine look ns (upd (\<lambda>_. ob) (s\<lparr>world := w, calls := c\<rparr>))"
    and made: "\<And>s ob. agentView look listed s = agentView look listed r0 \<Longrightarrow> isOk (h s ob)"
  shows "advances look listed ns crds r0 (createOrUpdatePure x field upd h) {(k, n, ns)}"
  unfolding createOrUpdatePure_def
proof (rule advances_phase, goal_cases)
  case 1
  show ?case by (rule srv)
next
  case 2
  show ?case by (rule acc)
next
  case (3 r)
  show ?case by (rule pure_reading [OF pm])
next
  case (4 s)
  then show ?case by (rule field)
next
  case (5 s w c ob e)
  then show ?case by (rule upd)
next
  case (6 s)
  obtain os where "own s (named k n ns) = Inr (setOwners os (named k n ns))"
    using own_named [OF 6(1)] by blast
  then show ?case
    using made [OF 6(2)] by (simp add: liftOutcome_def withOwner_def)
qed

lemma advances_reading_phase:
  assumes srv: "object_server x look listed" and acc: "accepting x look"
    and m: "\<And>r. reader (agentView look listed) (m r)" "\<And>r s b. fst (m r s) = Ok b \<Longrightarrow> content_setter k (h b)"
    and field: "\<And>s. pristine look ns s \<Longrightarrow> look (world s) (k, n, ns) = None \<Longrightarrow> field s = named k n ns"
    and upd: "\<And>s w c ob e. pristine look ns s \<Longrightarrow> look w (k, n, ns) = Some e \<Longrightarrow>
      (\<forall>kk. kk \<noteq> (k, n, ns) \<longrightarrow> look w kk = look (world s) kk) \<Longrightarrow> pristine look ns (upd (\<lambda>_. ob) (s\<lparr>world := w, calls := c\<rparr>))"
    and f: "\<And>r ob. f r ob = bindM (liftSum (own r ob)) (\<lambda>ob1. bindM (m r) (\<lambda>b. liftOutcome (h b ob1)))"
    and made: "\<And>s. agentView look listed s = agentView look listed r0 \<Longrightarrow> isOk (fst (m s s))" "\<And>b ob. isOk (h b ob)"
  shows "advances look listed ns crds r0 (createOrUpdate x field upd f) {(k, n, ns)}"
proof (rule advances_phase, goal_cases)
  case 1
  show ?case by (rule srv)
next
  case 2
  show ?case by (rule acc)
next
  case (3 r)
  show ?case
    unfolding f by (rule owned_reading [OF agent_blind agent_owner.owner_setter_axioms m(1) m(2)])
next
  case (4 s)
  then show ?case by (rule field)
next
  case (5 s w c ob e)
  then show ?case by (rule upd)
next
  case (6 s)
  obtain os where "own s (named k n ns) = Inr (setOwners os (named k n ns))"
    using own_named [OF 6(1)] by blast
  then show ?case
    using made(1) [OF 6(2)] made(2)
    by (auto simp: f bindM_def liftSum_def liftOutcome_def isOk_iff ret_def split: prod.splits outcome.splits) (metis outcome.distinct fst_conv outcome.inject)?
qed

section \<open>The phases\<close>

text \<open>What the phases need of the configuration and of the cluster.\<close>

definition readyFor ::
  "('w, 'y) agent_host_scheme \<Rightarrow> 'w looks \<Rightarrow> 'w lists \<Rightarrow> (string \<Rightarrow> gerror + string) \<Rightarrow> 'w agent \<Rightarrow> bool" where
  "readyFor x look listed files r \<longleftrightarrow>
     (\<exists>rules. yaml_Marshal x (alertRelabelConfig (agentNamespace r)) = Inr rules) \<and>
     (\<exists>html. files (CustomerNotificationHTMLPath r) = Inr html) \<and>
     pd_SOPEndpoint (pagerDutyConfigData r) \<noteq> '''' \<and> pd_ServiceKey (pagerDutyConfigData r) \<noteq> '''' \<and>
     smtp_Username (smtpConfigData r) \<noteq> '''' \<and> smtp_Password (smtpConfigData r) \<noteq> '''' \<and>
     smtp_Endpoint (smtpConfigData r) \<noteq> '''' \<and> smtp_FromAddress (smtpConfigData r) \<noteq> '''' \<and>
     (\<exists>u. ParseRequestURI (smtp_Endpoint (smtpConfigData r)) = Inr u \<and> url_Host u \<noteq> '''' \<and> Hostname u \<noteq> '''') \<and>
     (case remoteWriteConfigData r of None \<Rightarrow> True | Some c \<Rightarrow> rwc_BearerToken c \<noteq> '''') \<and>
     (\<exists>csv img. csvWithPrefix agentCSVPrefix (map (decodeAs KClusterServiceVersion)
         (listed (world r) KClusterServiceVersion (Some (agentNamespace r)) None)) = Some csv \<and> kubeRbacImage csv = Ok img) \<and>
     look (world r) (KClusterVersion, ''version'', '''') \<noteq> None \<and>
     (\<exists>cm cidr. look (world r) (KConfigMap, IMDSConfigMapName, agentNamespace r) = Some cm \<and>
         goMapGet (configMapData cm) CIDRKey = Some cidr)"

lemma readyFor_view:
  assumes "readyFor x look listed files r0" and "agentView look listed s = agentView look listed r0"
  shows "readyFor x look listed files s"
  using assms(1) unfolding readyFor_def agentView_eqD [OF assms(2)] .

lemma server_run:
  assumes "object_server x look listed"
  shows "look (world s) (k, key) = Some ob \<Longrightarrow> client_get x k key s = (Ok ob, s\<lparr>calls := calls s @ [CGet k key (Inr ob)]\<rparr>)"
    and "client_list x k ns lim s = (Ok (map (decodeAs k) (listed (world s) k ns lim)),
      s\<lparr>calls := calls s @ [CList k ns lim (Inr (map (decodeAs k) (listed (world s) k ns lim)))]\<rparr>)"
proof -
  obtain missing where get: "\<forall>w k key. api_Get x k key w = (case look w (k, key) of None \<Rightarrow> Inl (missing k key) | Some ob \<Rightarrow> Inr ob, w)"
    using server_Get [OF assms] by blast
  show "client_get x k key s = (Ok ob, s\<lparr>calls := calls s @ [CGet k key (Inr ob)]\<rparr>)" if ob: "look (world s) (k, key) = Some ob"
  proof -
    have "decodeAs k ob = ob" using server_keys [OF assms ob] by (intro decodeAs_same) (simp add: keyOf_def)
    then show ?thesis using ob by (simp add: prog_unfold get)
  qed
  show "client_list x k ns lim s = (Ok (map (decodeAs k) (listed (world s) k ns lim)),
      s\<lparr>calls := calls s @ [CList k ns lim (Inr (map (decodeAs k) (listed (world s) k ns lim)))]\<rparr>)"
    by (simp add: prog_unfold server_List [OF assms])
qed

lemma isOk_simps [simp]: "isOk (Ok a)" "\<not> isOk (Err e)" "\<not> isOk (Crash c)"
  by simp_all

lemma remoteWrites_made:
  "(case cfg of None \<Rightarrow> True | Some c \<Rightarrow> rwc_BearerToken c \<noteq> '''') \<Longrightarrow> isOk (remoteWrites cfg (ps_RemoteWrite PrometheusTemplate))"
  by (auto simp: remoteWrites_def PrometheusTemplate_def atFirst_def split: option.splits)

lemma prometheusSpec_made:
  assumes "case remoteWriteConfigData r of None \<Rightarrow> True | Some c \<Rightarrow> rwc_BearerToken c \<noteq> ''''"
  shows "\<exists>spec. prometheusSpec r img cid = Ok spec"
  using remoteWrites_made [OF assms]
  by (auto simp: isOk_iff prometheusSpec_def bindO_Ok) (auto simp: PrometheusTemplate_def goMapSet_def atPointer_def atFirst_def)

lemma alertmanagerConfigSpec_made: "\<exists>spec. alertmanagerConfigSpec r host html = Ok spec"
  by (simp add: alertmanagerConfigSpec_def AlertmanagerConfigTemplate_def pagerdutyReceiver_def
      sendGridReceiver_def setReceiver_def setPagerDuty_def setEmail_def atFirst_def atPointer_def Let_def)

lemma prometheusBody_made:
  assumes srv: "object_server x look listed" and ready: "readyFor h look listed files s"
  shows "isOk (fst (prometheusBody x s s))"
proof -
  obtain csv img cv where csv: "csvWithPrefix agentCSVPrefix (map (decodeAs KClusterServiceVersion)
      (listed (world s) KClusterServiceVersion (Some (agentNamespace s)) None)) = Some csv" "kubeRbacImage csv = Ok img"
    and cv: "look (world s) (KClusterVersion, ''version'', '''') = Some cv"
    and rw: "case remoteWriteConfigData s of None \<Rightarrow> True | Some c \<Rightarrow> rwc_BearerToken c \<noteq> ''''"
    using ready unfolding readyFor_def by (metis not_None_eq)
  obtain spec where spec: "prometheusSpec s img (clusterID cv) = Ok spec"
    using prometheusSpec_made [OF rw] by blast
  show ?thesis
    by (simp add: prometheusBody_def getCSVByPrefix_def csvInNamespace_def bindM_step wrapErr_def gets_def ret_def
        server_run(2) [OF srv] csv liftOutcome_def server_run(1) [OF srv] cv spec del: clusterID.simps)
qed

lemma alertmanagerConfigBody_made:
  assumes files: "\<And>path w. os_ReadFile x path w = (files path, w)" and ready: "readyFor h look listed files s"
  shows "isOk (fst (alertmanagerConfigBody x s s))"
proof -
  obtain html u where html: "files (CustomerNotificationHTMLPath s) = Inr html"
    and u: "ParseRequestURI (smtp_Endpoint (smtpConfigData s)) = Inr u" "url_Host u \<noteq> ''''"
    using ready unfolding readyFor_def by blast
  obtain spec where "alertmanagerConfigSpec s (url_Host u) html = Ok spec"
    using alertmanagerConfigSpec_made by blast
  then show ?thesis
    using ready by (simp add: readyFor_def alertmanagerConfigBody_def host_readFile_def callM_def files html u bindM_step
        wrapErr_def liftSum_def liftOutcome_def ret_def)
qed

lemma egress_made:
  assumes srv: "object_server x look listed" and ready: "readyFor h look listed files s"
  shows "isOk (fst (getEgressFirewallDesiredState x s))"
proof -
  obtain cm cidr u where cm: "look (world s) (KConfigMap, IMDSConfigMapName, agentNamespace s) = Some cm"
    "goMapGet (configMapData cm) CIDRKey = Some cidr"
    and u: "ParseRequestURI (smtp_Endpoint (smtpConfigData s)) = Inr u" "Hostname u \<noteq> ''''"
    using ready unfolding readyFor_def by blast
  show ?thesis
    by (simp add: getEgressFirewallDesiredState_def gets_def bindM_step wrapErr_def server_run(1) [OF srv] cm u liftSum_def ret_def
        del: configMapData.simps)
qed

lemma egressBody_made:
  "object_server x look listed \<Longrightarrow> readyFor h look listed files s \<Longrightarrow> isOk (fst (egressBody x g s))"
  using egress_made [of x look listed h files s]
  by (auto simp: egressBody_def bindM_def ret_def isOk_iff split: prod.splits outcome.splits)

lemma secret_names: "alertRelabelConfigSecretName \<noteq> alertmanagerSecretName" "alertmanagerSecretName \<noteq> alertRelabelConfigSecretName"
  by (simp_all add: const_defs)

lemma advances_pure_phases:
  assumes srv: "object_server x look listed" and acc: "accepting x look" and ready: "readyFor x look listed files r0"
  shows "advances look listed ns crds r0 (reconcileAlertRelabelConfigSecret x) {(KSecret, alertRelabelConfigSecretName, ns)}"
    and "advances look listed ns crds r0 (reconcilePrometheusKubeRBACConfigMap x) {(KConfigMap, PrometheusKubeRBACPoxyConfigMapName, ns)}"
    and "advances look listed ns crds r0 (reconcilePrometheusService x) {(KService, prometheusServiceName, ns)}"
    and "advances look listed ns crds r0 (reconcileAlertmanager x) {(KAlertmanager, alertmanagerName, ns)}"
    and "advances look listed ns crds r0 (reconcileAlertmanagerSecret x) {(KSecret, alertmanagerSecretName, ns)}"
    and "advances look listed ns crds r0 (reconcileK8SMetricsServiceMonitor x) {(KServiceMonitor, k8sMetricsServiceMonitorName, ns)}"
    and "advances look listed ns crds r0 (reconcilePrometheusProxyNetworkPolicy x) {(KNetworkPolicy, prometheusProxyNetworkPolicyName, ns)}"
proof -
  note view = readyFor_view [OF ready]
  show "advances look listed ns crds r0 (reconcileAlertRelabelConfigSecret x) {(KSecret, alertRelabelConfigSecretName, ns)}"
    unfolding reconcileAlertRelabelConfigSecret_def
  proof (rule advances_wrapErr, rule advances_pure_phase [OF srv acc relabel_secret_fill.owned.pure_mutator_axioms], goal_cases)
    case (3 s ob)
    show ?case using view [OF 3] by (auto simp: fillAlertRelabelConfigSecret_def readyFor_def)
  qed (simp_all add: pristine_def secret_names)
  show "advances look listed ns crds r0 (reconcilePrometheusKubeRBACConfigMap x) {(KConfigMap, PrometheusKubeRBACPoxyConfigMapName, ns)}"
    unfolding reconcilePrometheusKubeRBACConfigMap_def
    by (rule advances_wrapErr, rule advances_pure_phase [OF srv acc rbac_config_fill.owned.pure_mutator_axioms])
      (simp_all add: pristine_def secret_names fillBody_def)
  show "advances look listed ns crds r0 (reconcilePrometheusService x) {(KService, prometheusServiceName, ns)}"
    unfolding reconcilePrometheusService_def
    by (rule advances_pure_phase [OF srv acc prometheus_service_fill.owned.pure_mutator_axioms])
      (simp_all add: pristine_def secret_names fillPrometheusService_def)
  show "advances look listed ns crds r0 (reconcileAlertmanager x) {(KAlertmanager, alertmanagerName, ns)}"
    unfolding reconcileAlertmanager_def
    by (rule advances_pure_phase [OF srv acc alertmanager_fill.owned.pure_mutator_axioms])
      (simp_all add: pristine_def secret_names fillLabelled_def)
  show "advances look listed ns crds r0 (reconcileAlertmanagerSecret x) {(KSecret, alertmanagerSecretName, ns)}"
    unfolding reconcileAlertmanagerSecret_def
  proof (rule advances_pure_phase [OF srv acc alertmanager_secret_fill.owned.pure_mutator_axioms], goal_cases)
    case (3 s ob)
    show ?case using view [OF 3] by (simp add: fillAlertmanagerSecret_def readyFor_def)
  qed (simp_all add: pristine_def secret_names)
  show "advances look listed ns crds r0 (reconcileK8SMetricsServiceMonitor x) {(KServiceMonitor, k8sMetricsServiceMonitorName, ns)}"
    unfolding reconcileK8SMetricsServiceMonitor_def
    by (rule advances_wrapErr, rule advances_pure_phase [OF srv acc metrics_monitor_fill.owned.pure_mutator_axioms])
      (simp_all add: pristine_def secret_names fillLabelled_def)
  show "advances look listed ns crds r0 (reconcilePrometheusProxyNetworkPolicy x) {(KNetworkPolicy, prometheusProxyNetworkPolicyName, ns)}"
    unfolding reconcilePrometheusProxyNetworkPolicy_def
    by (rule advances_wrapErr, rule advances_pure_phase [OF srv acc proxy_policy_fill.owned.pure_mutator_axioms])
      (simp_all add: pristine_def secret_names fillBody_def)
qed

lemma advances_prometheus:
  assumes srv: "object_server x look listed" and acc: "accepting x look" and ready: "readyFor h look listed files r0"
  shows "advances look listed ns crds r0 (reconcilePrometheus x) {(KPrometheus, prometheusName, ns)}"
  unfolding reconcilePrometheus_def
proof (rule advances_wrapErr, rule advances_reading_phase [where h = fillLabelled and m = "prometheusBody x", OF srv acc], goal_cases)
  case (1 r)
  show ?case by (rule prometheusBody_reads [OF srv])
next
  case (2 r s b)
  then show ?case by (intro fillLabelled_content) (auto dest: prometheusBody_kind)
next
  case (6 s)
  show ?case by (rule prometheusBody_made [OF srv readyFor_view [OF ready 6]])
next
  case (5 r ob)
  show ?case by (rule prometheus_closure)
qed (simp_all add: pristine_def secret_names fillLabelled_def)

lemma advances_alertmanager_config:
  assumes srv: "object_server x look listed" and acc: "accepting x look" and ready: "readyFor h look listed files r0" and files: "\<And>path w. os_ReadFile x path w = (files path, w)"
  shows "advances look listed ns crds r0 (reconcileAlertmanagerConfig x) {(KAlertmanagerConfig, alertmanagerConfigName, ns)}"
  unfolding reconcileAlertmanagerConfig_def
proof (rule advances_reading_phase [where h = fillLabelled and m = "alertmanagerConfigBody x", OF srv acc], goal_cases)
  case (1 r)
  show ?case by (rule alertmanagerConfigBody_reads [OF files])
next
  case (2 r s b)
  then show ?case by (intro fillLabelled_content) (auto dest: alertmanagerConfigBody_kind)
next
  case (6 s)
  show ?case by (rule alertmanagerConfigBody_made [OF files readyFor_view [OF ready 6]])
next
  case (5 r ob)
  show ?case by (rule alertmanagerConfig_closure)
qed (simp_all add: pristine_def secret_names fillLabelled_def)

lemma advances_egress_firewall:
  assumes srv: "object_server x look listed" and acc: "accepting x look" and ready: "readyFor h look listed files r0"
  shows "advances look listed ns crds r0 (reconcileEgressFirewall x) (if crdAvailable crds EgressFirewallCRD then {(KEgressFirewall, egressFirewallName, ns)} else {})"
  unfolding reconcileEgressFirewall_def
proof (rule advances_when, rule advances_wrapErr, rule advances_reading_phase [where h = fillBody and m = "\<lambda>_. egressBody x EgressFirewall", OF srv acc], goal_cases)
  case (1 r)
  show ?case by (rule egressBody_reads [OF srv])
next
  case (2 r s b)
  then show ?case by (intro fillBody_content) (auto dest: egressBody_kind [rotated])
next
  case (6 s)
  show ?case by (rule egressBody_made [OF srv readyFor_view [OF ready 6]])
qed (simp_all add: pristine_def secret_names fillBody_def egressBody_def bindM_assoc)

lemma advances_egress_policy:
  assumes srv: "object_server x look listed" and acc: "accepting x look" and ready: "readyFor h look listed files r0"
  shows "advances look listed ns crds r0 (reconcileEgressNetworkPolicy x) (if crdAvailable crds EgressNetworkPolicyCRD then {(KEgressNetworkPolicy, egressNetworkPolicyName, ns)} else {})"
  unfolding reconcileEgressNetworkPolicy_def
proof (rule advances_when, rule advances_wrapErr, rule advances_reading_phase [where h = fillBody and m = "\<lambda>_. egressBody x (\<lambda>rules. EgressNetworkPolicy (egressFirewallSpecToEgressNetworkPolicySpec rules))", OF srv acc], goal_cases)
  case (1 r)
  show ?case by (rule egressBody_reads [OF srv])
next
  case (2 r s b)
  then show ?case by (intro fillBody_content) (auto dest: egressBody_kind [rotated])
next
  case (6 s)
  show ?case by (rule egressBody_made [OF srv readyFor_view [OF ready 6]])
qed (simp_all add: pristine_def secret_names fillBody_def egressBody_def bindM_assoc)

section \<open>The installation\<close>

lemma advances_resourcePhases:
  assumes srv: "object_server x look listed" and acc: "accepting x look" and ready: "readyFor x look listed files r0"
    and files: "\<And>path w. os_ReadFile x path w = (files path, w)"
  shows "advances look listed ns crds r0 (resourcePhases x) (agentResources ns crds)"
  unfolding resourcePhases_def agentResources_nested
  by (intro advances_thenM settling_thenM settling_phases [OF srv] settling_alertmanager_config [OF srv files]
      advances_pure_phases [OF srv acc ready] advances_prometheus [OF srv acc ready] advances_egress_firewall [OF srv acc ready]
      advances_egress_policy [OF srv acc ready] advances_alertmanager_config [OF srv acc ready files])
    (auto simp: const_defs split: if_splits)

lemma finalizerPhase_succeeds:
  assumes srv: "object_server x look listed" and acc: "accepting x look"
    and sec: "look (world s) (keyOf (managedFusionSecret s)) \<noteq> None"
  shows "\<exists>s'. finalizerPhase x s = (Ok (), s')"
proof (cases "managedFusionFinalizer \<in> set (Finalizers (meta (managedFusionSecret s)))")
  case True
  then show ?thesis by (simp add: finalizerPhase_present)
next
  case False
  let ?o = "setFinalizers (Finalizers (meta (managedFusionSecret s)) @ [managedFusionFinalizer]) (managedFusionSecret s)"
  have "keyOf ?o = keyOf (managedFusionSecret s)" by (simp add: keyOf_def)
  then obtain o2 w' where put: "api_Update x ?o (world s) = (Inr o2, w')"
    using acc sec unfolding accepting_def by metis
  then show ?thesis
    using False by (simp add: finalizerPhase_def AddFinalizer_def gets_def bindM_step wrapErr_def client_update_def callM_def
        liftSum_def ret_def modify_def)
qed

lemma readyFor_cong:
  assumes "readyFor x look listed files r" and "agentNamespace s = agentNamespace r"
    and "CustomerNotificationHTMLPath s = CustomerNotificationHTMLPath r" "smtpConfigData s = smtpConfigData r"
    and "pagerDutyConfigData s = pagerDutyConfigData r" "remoteWriteConfigData s = remoteWriteConfigData r"
    and "listed (world s) KClusterServiceVersion = listed (world r) KClusterServiceVersion"
    and "\<And>kk. fst kk \<noteq> KSecret \<Longrightarrow> look (world s) kk = look (world r) kk"
  shows "readyFor x look listed files s"
  using assms(1) unfolding readyFor_def by (simp add: assms(2-8))

lemma loadConfig_succeeds:
  assumes "goMapGet (secretData (managedFusionSecret s)) ''pager_duty_config'' = Some c1" "yaml_pagerDuty x c1 = (pd, None)"
    and "goMapGet (secretData (managedFusionSecret s)) ''smtp_config'' = Some c2" "yaml_smtp x c2 = (sm, None)"
    and "case goMapGet (secretData (managedFusionSecret s)) ''remote_write_config'' of
      None \<Rightarrow> rw = remoteWriteConfigData s | Some c \<Rightarrow> \<exists>d. yaml_remoteWrite x c = (d, None) \<and> rw = Some d"
  shows "loadConfig x s = (Ok (), s\<lparr>pagerDutyConfigData := pd, smtpConfigData := sm, remoteWriteConfigData := rw\<rparr>)"
  using assms
  by (auto simp: loadConfig_def thenM_step load_runs simp del: secretData.simps split: option.splits)

text \<open>
  On a cluster without the agent's resources, with a live secret whose configuration is complete, a
  run of the agent succeeds: it makes them all.
\<close>

lemma Reconcile_installs:
  assumes srv: "object_server x look listed" and acc: "accepting x look"
    and files: "\<And>path w. os_ReadFile x path w = (files path, w)"
    and sec: "look (world r) (KSecret, managedFusionSecretName, agentNamespace r) = Some sec"
    and live: "IsZero (DeletionTimestamp (meta sec))" "UID (meta sec) \<noteq> ''''"
    and pd: "goMapGet (secretData sec) ''pager_duty_config'' = Some c1" "yaml_pagerDuty x c1 = (pd, None)"
    and sm: "goMapGet (secretData sec) ''smtp_config'' = Some c2" "yaml_smtp x c2 = (sm, None)"
    and rw: "case goMapGet (secretData sec) ''remote_write_config'' of
      None \<Rightarrow> rw = remoteWriteConfigData r | Some c \<Rightarrow> \<exists>d. yaml_remoteWrite x c = (d, None) \<and> rw = Some d"
    and ready: "readyFor x look listed files (r\<lparr>pagerDutyConfigData := pd, smtpConfigData := sm, remoteWriteConfigData := rw\<rparr>)"
    and missing: "\<forall>kk \<in> agentResources (agentNamespace r) (AvailableCRDs r). look (world r) kk = None"
  shows "fst (Reconcile x r) = Ok noRequeue"
proof -
  let ?ns = "agentNamespace r" and ?crds = "AvailableCRDs r" and ?K = "(KSecret, managedFusionSecretName, agentNamespace r)"
  obtain s0 ans where s0: "Reconcile x r = thenM (loadConfig x) (reconcilePhases x) s0" "managedFusionSecret s0 = sec"
      "world s0 = world r" "agentAt ?ns ?crds s0" "agentNamespace s0 = ?ns"
      "CustomerNotificationHTMLPath s0 = CustomerNotificationHTMLPath r" "remoteWriteConfigData s0 = remoteWriteConfigData r"
      "s0 = (snd (initReconciler r))\<lparr>calls := calls r @ [CGet KSecret (secretKey r) ans], managedFusionSecret := sec\<rparr>"
    by (rule Reconcile_start [where r = r, OF srv sec])
  define s1 where "s1 = s0\<lparr>pagerDutyConfigData := pd, smtpConfigData := sm, remoteWriteConfigData := rw\<rparr>"
  have load: "loadConfig x s0 = (Ok (), s1)"
    unfolding s1_def by (rule loadConfig_succeeds) (use pd sm rw in \<open>simp_all add: s0(2,7) del: secretData.simps cong: option.case_cong\<close>)
  have sec1: "managedFusionSecret s1 = sec" by (simp add: s1_def s0(2))
  have key: "keyOf sec = ?K" by (rule server_keys [OF srv sec])
  have at1: "look (world s1) (keyOf sec) = Some sec" using sec by (simp add: key s1_def s0(3))
  obtain s2 where fin: "finalizerPhase x s1 = (Ok (), s2)"
    using finalizerPhase_succeeds [OF srv acc, of s1] at1 by (auto simp: sec1)
  obtain w c sec' where s2: "s2 = s1\<lparr>world := w, calls := c, managedFusionSecret := sec'\<rparr>"
    and sec': "keyOf sec' = ?K" and w: "apart look listed ?K (world r) w"
    by (rule finalizerPhase_Ok [OF srv fin sec1 at1]) (auto simp: key s1_def s0(3) simp del: secretData.simps)
  have other: "look w kk = look (world r) kk" if "kk \<noteq> ?K" for kk
    using w that unfolding apart_def by blast
  have at2: "agentAt ?ns ?crds s2" using s0(4) sec' by (simp add: s2 s1_def agentAt_def agentKeyed_def)
  have pristine: "pristine look ?ns s2"
    by (simp add: pristine_def s2 s1_def s0(8) initReconciler_def modify_def Let_def)
  have none: "\<forall>kk \<in> agentResources ?ns ?crds. look (world s2) kk = None"
  proof
    fix kk assume kk: "kk \<in> agentResources ?ns ?crds"
    moreover have "?K \<notin> agentResources ?ns ?crds" by (simp add: agentResources_def const_defs)
    ultimately have "kk \<noteq> ?K" by blast
    from other [OF this] kk missing show "look (world s2) kk = None" by (simp add: s2)
  qed
  have "readyFor x look listed files s2"
    using w other by (intro readyFor_cong [OF ready]) (auto simp: s2 s1_def s0(5,6) apart_def)
  then obtain s3 where "resourcePhases x s2 = (Ok (), s3)"
    using advances_resourcePhases [OF srv acc _ files] at2 pristine none unfolding advances_def by blast
  then have "reconcilePhases x s1 = (Ok noRequeue, s3)"
    using fin live by (simp add: reconcilePhases_def gets_def bindM_step thenM_step sec1 ret_def)
  then show ?thesis by (simp add: s0(1) thenM_step load)
qed

section \<open>A concrete installation\<close>

lemma sample_server: "object_server sampleHost contents mem_listed"
  by (rule mem_object_server) (simp_all add: stores_def)

lemma sample_accepting: "accepting sampleHost contents"
  unfolding accepting_def
proof (intro allI)
  fix w :: store and ob
  show "\<exists>ob' w'. (contents w (keyOf ob) = None \<longrightarrow> api_Create sampleHost ob w = (Inr ob', w')) \<and>
      (contents w (keyOf ob) \<noteq> None \<longrightarrow> api_Update sampleHost ob w = (Inr ob', w'))"
    using mem_Create_contents [of w ob] mem_Update_contents [of w ob]
    by (cases "contents w (keyOf ob) = None") auto
qed

lemma sample_files: "os_ReadFile sampleHost path w = (Inr ''<html/>'', w)"
  by (simp add: sampleHost_def memHost_def)

lemma sample_yaml:
  "yaml_pagerDuty sampleHost ''pd'' = (samplePagerDuty, None)" "yaml_smtp sampleHost ''smtp'' = (sampleSmtp, None)"
  "yaml_Marshal sampleHost rules = Inr ''rules''"
  by (simp_all add: sampleHost_def memHost_def yamlTable_def)

lemma sample_secret:
  "contents sampleStore (KSecret, managedFusionSecretName, ''ns'') = Some (sampleSecret [] None)"
  "goMapGet (secretData (sampleSecret [] None)) ''pager_duty_config'' = Some ''pd''"
  "goMapGet (secretData (sampleSecret [] None)) ''smtp_config'' = Some ''smtp''"
  "goMapGet (secretData (sampleSecret [] None)) ''remote_write_config'' = None"
  "IsZero (DeletionTimestamp (meta (sampleSecret [] None)))" "UID (meta (sampleSecret [] None)) \<noteq> ''''"
  by (simp_all add: contents_def sampleStore_def) (simp_all add: sampleSecret_def goMapGet_def IsZero_def emptyMeta_def)

lemma sampleURL: "ParseRequestURI ''smtp://h:25'' = Inr \<lparr>url_Scheme = ''smtp'', url_Opaque = '''', url_Host = ''h:25''\<rparr>"
  by code_simp

lemma sampleURL_host: "Hostname \<lparr>url_Scheme = ''smtp'', url_Opaque = '''', url_Host = ''h:25''\<rparr> \<noteq> ''''"
  by code_simp

abbreviation sampleAgent :: "store agent" where
  "sampleAgent \<equiv> freshAgent ''ns'' [EgressFirewallCRD] sampleStore"

lemma sample_missing:
  "\<forall>kk \<in> agentResources (agentNamespace sampleAgent) (AvailableCRDs sampleAgent). contents (world sampleAgent) kk = None"
  by (simp add: agentResources_def contents_def sampleStore_def isAt_def sampleCSV_def named_def kind_of_def ObjectKeyFromObject_def
      sampleSecret_def emptyMeta_def const_defs setBody_def)

lemma sample_ready:
  "readyFor sampleHost contents mem_listed (\<lambda>_. Inr ''<html/>'')
     (sampleAgent\<lparr>pagerDutyConfigData := samplePagerDuty, smtpConfigData := sampleSmtp, remoteWriteConfigData := None\<rparr>)"
  by (simp add: readyFor_def sample_yaml samplePagerDuty_def sampleSmtp_def sampleURL sampleURL_host mem_listed_def
      sampleStore_def sampleCSV_def named_def kind_of_def sampleSecret_def emptyMeta_def HasPrefix_def const_defs
      kubeRbacImage_def contents_def isAt_def ObjectKeyFromObject_def goMapGet_def decodeAs_def)

lemma installed_run: "fst (Reconcile sampleHost sampleAgent) = Ok noRequeue"
  by (rule Reconcile_installs [OF sample_server sample_accepting sample_files _ sample_secret(5,6,2) sample_yaml(1)
        sample_secret(3) sample_yaml(2) _ sample_ready sample_missing])
    (simp_all add: sample_secret del: secretData.simps)

lemma agent_converges_witness:
  "fst (Reconcile sampleHost (snd (Reconcile sampleHost sampleAgent))) = Ok noRequeue \<and>
   list_all is_read (issued (Reconcile sampleHost) (snd (Reconcile sampleHost sampleAgent))) \<and>
   contents (world (snd (Reconcile sampleHost sampleAgent))) (KPrometheus, prometheusName, ''ns'') \<noteq> None"
proof -
  have run: "Reconcile sampleHost sampleAgent = (Ok noRequeue, snd (Reconcile sampleHost sampleAgent))"
    using installed_run by (simp add: prod_eq_iff)
  have sec: "contents (world sampleAgent) (KSecret, managedFusionSecretName, agentNamespace sampleAgent) = Some (sampleSecret [] None)"
    by (simp add: sample_secret(1))
  from agent_converges [OF sample_server sample_files sec sample_secret(5,6) run]
  show ?thesis by (auto simp: agentResources_def)
qed

end
