(* ===== verification/Rook.thy ===== *)
theory Rook
  imports Kube_Objects
begin

text \<open>
  \<open>utils/rook.go\<close>: resource requirements as the text Rook reads. Nothing in the repository calls it.
  The quantities and their \<open>String\<close> method, and the YAML encoder with its verdict, are outside the
  repository: \<open>str\<close> and \<open>marshal\<close> are parameters. So is the order in which Go iterates over a
  map: \<open>entries m\<close> lists the entries of \<open>m\<close>.
\<close>

record 'q rookRequirements =
  rq_Name :: string
  rq_Limits :: "(string, 'q) fmap"
  rq_Requests :: "(string, 'q) fmap"

text \<open>The anonymous struct of the output; its maps are nil until the first entry.\<close>

record rookText =
  rt_Name :: string
  rt_Limits :: "smap option"
  rt_Requests :: "smap option"

text \<open>A loop over a map of quantities: the output map is made with the first entry.\<close>

fun renderEntries :: "('q \<Rightarrow> string) \<Rightarrow> (string \<times> 'q) list \<Rightarrow> smap option \<Rightarrow> smap option" where
  "renderEntries str [] out = out"
| "renderEntries str ((name, val) # rest) out =
     (let m = (case out of None \<Rightarrow> fmempty | Some m \<Rightarrow> m) in
      renderEntries str rest (Some (fmupd name (str val) m)))"

definition renderRequirements ::
  "('q \<Rightarrow> string) \<Rightarrow> ((string, 'q) fmap \<Rightarrow> (string \<times> 'q) list) \<Rightarrow> 'q rookRequirements \<Rightarrow> rookText" where
  "renderRequirements str entries req =
     \<lparr>rt_Name = rq_Name req,
      rt_Limits = renderEntries str (entries (rq_Limits req)) None,
      rt_Requests = renderEntries str (entries (rq_Requests req)) None\<rparr>"

definition MarshalRookResourceRequirements ::
  "('q \<Rightarrow> string) \<Rightarrow> ((string, 'q) fmap \<Rightarrow> (string \<times> 'q) list) \<Rightarrow> (rookText list \<Rightarrow> gerror + string) \<Rightarrow>
   'q rookRequirements list \<Rightarrow> string outcome" where
  "MarshalRookResourceRequirements str entries marshal reqList =
     (case marshal (map (renderRequirements str entries) reqList) of
        Inl err \<Rightarrow> Crash ''Marshalling failed''
      | Inr bytes \<Rightarrow> Ok bytes)"

section \<open>The order of the iteration does not matter\<close>

definition enumerates :: "(('k, 'v) fmap \<Rightarrow> ('k \<times> 'v) list) \<Rightarrow> bool" where
  "enumerates entries \<longleftrightarrow> (\<forall>m. distinct (map fst (entries m)) \<and> fmap_of_list (entries m) = m)"

lemma fmupd_add:
  "fmlookup n k = None \<Longrightarrow> fmupd k v m ++\<^sub>f n = fmupd k v (m ++\<^sub>f n)"
  by (rule fmap_ext) (auto simp: fmlookup_dom_iff)

lemma fmmap_upd: "fmmap f (fmupd k v m) = fmupd k (f v) (fmmap f m)"
  by (rule fmap_ext) simp

lemma fmadd_fmupd: "m ++\<^sub>f fmupd k v n = fmupd k v (m ++\<^sub>f n)"
  by (rule fmap_ext) (simp add: fmlookup_dom_iff)

lemma renderEntries_lookup:
  assumes "distinct (map fst es)"
  shows "renderEntries str es (Some out) = Some (out ++\<^sub>f fmmap str (fmap_of_list es))"
  using assms
proof (induction es arbitrary: out)
  case Nil
  then show ?case by (simp add: fmap_ext)
next
  case (Cons e es)
  obtain name val where e: "e = (name, val)" by (cases e)
  have "fmlookup (fmap_of_list es) name = None"
    using Cons.prems by (simp add: e fmlookup_of_list map_of_eq_None_iff)
  then have "fmupd name (str val) out ++\<^sub>f fmmap str (fmap_of_list es) =
      out ++\<^sub>f fmmap str (fmap_of_list (e # es))"
    by (simp add: e fmupd_add fmadd_fmupd fmmap_upd)
  with Cons show ?case by (simp add: e)
qed

lemma renderEntries_map:
  assumes "enumerates entries"
  shows "renderEntries str (entries m) None = (if m = fmempty then None else Some (fmmap str m))"
proof (cases "entries m")
  case Nil
  then have "m = fmempty" using assms unfolding enumerates_def by (metis fmap_of_list_simps(1))
  with Nil show ?thesis by simp
next
  case (Cons e es)
  obtain name val where e: "e = (name, val)" by (cases e)
  have m: "m = fmupd name val (fmap_of_list es)" and d: "distinct (map fst es)" "name \<notin> fst ` set es"
    using assms Cons e unfolding enumerates_def
    by (metis fmap_of_list_simps(2), metis distinct.simps(2) list.simps(9), metis distinct.simps(2) fst_conv list.set_map list.simps(9))
  have none: "fmlookup (fmap_of_list es) name = None" using d(2) by (simp add: fmlookup_of_list map_of_eq_None_iff)
  have "m \<noteq> fmempty" using m by (metis fmempty_lookup fmupd_lookup option.distinct(1))
  moreover have "fmupd name (str val) fmempty ++\<^sub>f fmmap str (fmap_of_list es) = fmmap str m"
    using none by (simp add: m fmupd_add fmmap_upd)
  ultimately show ?thesis by (simp add: Cons e renderEntries_lookup [OF d(1)])
qed

lemma marshal_any_order:
  assumes "enumerates entries" and "enumerates entries'"
  shows "MarshalRookResourceRequirements str entries marshal reqs =
    MarshalRookResourceRequirements str entries' marshal reqs"
  by (simp add: MarshalRookResourceRequirements_def renderRequirements_def renderEntries_map assms cong: map_cong)

text \<open>Every requirement keeps its name, its resources and nothing else, and nothing is dropped.\<close>

lemma renderRequirements_faithful:
  assumes "enumerates entries"
  shows "rt_Name (renderRequirements str entries req) = rq_Name req \<and>
    (case rt_Limits (renderRequirements str entries req) of None \<Rightarrow> fmempty | Some m \<Rightarrow> m) = fmmap str (rq_Limits req) \<and>
    (case rt_Requests (renderRequirements str entries req) of None \<Rightarrow> fmempty | Some m \<Rightarrow> m) = fmmap str (rq_Requests req)"
  by (simp add: renderRequirements_def renderEntries_map [OF assms] fmap_ext)

end
