(* ===== verification/Manager_Process.thy ===== *)
theory Manager_Process
  imports Process_Setup Setup_Props Agent_Runs Offering_Kinds
begin

text \<open>
  The manager's process over time. \<open>main\<close> makes the two reconcilers; \<open>mgr.Start\<close> then calls them
  for one request after the other until the process ends, by a panic, an exit or a kill, and it is
  started again. What a run finds in the cluster is not the process's to say: every run starts
  from any state of the cluster, and each reconciler keeps its struct from run to run.
\<close>

section \<open>What a run keeps of the reconcilers\<close>

definition knowsCRDs :: "(string, bool) fmap \<Rightarrow> ('w, 'z) offering_scheme \<Rightarrow> bool" where
  "knowsCRDs crds r \<longleftrightarrow> offeringCRDs r = crds"

lemma knowsCRDs_stable [simp]: "env_stable (knowsCRDs crds)"
  by (simp add: env_stable_def knowsCRDs_def)

lemma knowsCRDs_createOrUpdate:
  assumes f: "\<And>r ob. emits (knowsCRDs crds) (\<lambda>_. True) (f r ob)"
    and upd: "\<And>r ob. calls (upd (\<lambda>_. ob) r) = calls r" "\<And>r ob. offeringCRDs (upd (\<lambda>_. ob) r) = offeringCRDs r"
  shows "emits (knowsCRDs crds) (\<lambda>_. True) (createOrUpdate x field upd f)"
  unfolding createOrUpdate_def CreateOrUpdate_def mutate_def
  by (intro emits_rules emits_client_get emits_client_create emits_client_update emits_modify f)
    (simp_all add: upd, simp add: knowsCRDs_def upd)

lemma knowsCRDs_owned:
  assumes "\<And>r ob. calls (upd (\<lambda>_. ob) r) = calls r" "\<And>r ob. offeringCRDs (upd (\<lambda>_. ob) r) = offeringCRDs r"
  shows "emits (knowsCRDs crds) (\<lambda>_. True) (createOrUpdateOwned x field upd h)"
  unfolding createOrUpdateOwned_def by (intro knowsCRDs_createOrUpdate emits_liftOutcome assms)

lemma knowsCRDs_reads:
  "emits (knowsCRDs crds) (\<lambda>_. True) (client_get x k key)"
  "emits (knowsCRDs crds) (\<lambda>_. True) (client_list x k n lim)"
  "emits (knowsCRDs crds) (\<lambda>_. True) (client_update x ob)"
  "emits (knowsCRDs crds) (\<lambda>_. True) (deleteObj x k key)"
  "emits (knowsCRDs crds) (\<lambda>_. True) (offeringCSVByPrefix x name)"
  "emits (knowsCRDs crds) (\<lambda>_. True) (requireCRD x ds name)"
  "emits (knowsCRDs crds) (\<lambda>_. True) (labelAll x k ns msg)"
  by (rule emits_weaken [OF kinded_client(1)] emits_weaken [OF kinded_client(2)]
      emits_weaken [OF kinded_client(3)] emits_weaken [OF kinded_client(4)] emits_weaken [OF kinded_shared(1)]
      emits_weaken [OF kinded_shared(2)] emits_weaken [OF kinded_shared(3)]; simp)+

lemma knowsCRDs_GetAndUpdate:
  "(\<And>o1. emits (knowsCRDs crds) (\<lambda>_. True) (f o1)) \<Longrightarrow> emits (knowsCRDs crds) (\<lambda>_. True) (GetAndUpdate x ob f)"
  unfolding GetAndUpdate_def mutate_def by (intro emits_rules knowsCRDs_reads)

lemmas knowsCRDs_rules =
  emits_rules knowsCRDs_createOrUpdate knowsCRDs_owned knowsCRDs_reads knowsCRDs_GetAndUpdate

lemma knowsCRDs_operator:
  "emits (knowsCRDs crds) (\<lambda>_. True) (operatorPhase x)" "emits (knowsCRDs crds) (\<lambda>_. True) (removalPhase x)"
  unfolding operatorPhase_def offeringFinalizerPhase_def reconcileOperatorGroup_def reconcileCatalogSource_def
    reconcileSubscription_def storeOffering_def removalPhase_def pluginIsReadyToBeRemoved_def
    dfIsReadyToBeRemoved_def removeOfferingFinalizer_def
  by (intro knowsCRDs_rules emits_modify; simp add: knowsCRDs_def)+

lemma knowsCRDs_df: "emits (knowsCRDs crds) (\<lambda>_. True) (dfReconcilePhases x)"
  unfolding dfReconcilePhases_def dfInstall_def reconcileOnboardingValidationSecret_def
    reconcileStorageCluster_def reconcileMonitoringResources_def dfReconcileCSV_def
    reconcileCephIngressNetworkPolicy_def reconcileProviderAPIServerNetworkPolicy_def
    reconcileRookCephOperatorConfig_def reconcileOCSInitialization_def dfUninstall_def
  by (intro knowsCRDs_rules emits_modify; simp add: knowsCRDs_def)

lemma knowsCRDs_dfc: "emits (knowsCRDs crds) (\<lambda>_. True) (dfcReconcilePhases x)"
  unfolding dfcReconcilePhases_def dfcInstall_def reconcileStorageClient_def dfcReconcileCSV_def
    reconcileDefaultBlockStorageClassClaim_def reconcileDefaultFSStorageClassClaim_def
    reconcileCSIKMSConnectionDetailsConfigMap_def reconcileStorageClassClaim_def
  by (intro knowsCRDs_rules emits_modify; simp add: knowsCRDs_def)

lemma knowsCRDs_plugin: "emits (knowsCRDs crds) (\<lambda>_. True) (pluginReconcile x off spec)"
proof -
  have df: "emits (knowsCRDs crds) (\<lambda>_. True) (dfReconcile x off dspec)" for dspec
    unfolding dfReconcile_def
    by (rule emits_embedded [OF knowsCRDs_df]) (simp_all add: knowsCRDs_def initDataFoundation_def offering.defs dataFoundation.defs Let_def)
  have dfc: "emits (knowsCRDs crds) (\<lambda>_. True) (dfcReconcile x off cspec)" for cspec
    unfolding dfcReconcile_def
    by (rule emits_embedded [OF knowsCRDs_dfc]) (simp_all add: knowsCRDs_def initDataFoundationClient_def offering.defs dataFoundationClient.defs Let_def)
  show ?thesis
    unfolding pluginReconcile_def Let_def
    by (intro emits_rules) (auto intro!: df dfc emits_rules split: offeringSpec.split)
qed

lemma offeringReconcile_crds [simp]: "offeringCRDs (snd (offeringReconcile x ns n r)) = offeringCRDs r"
proof -
  have "emits (knowsCRDs (offeringCRDs r)) (\<lambda>_. True) (offeringReconcile x ns n)"
    unfolding offeringReconcile_def initOffering_def offeringPhases_def pluginPhase_def
    by (intro knowsCRDs_rules knowsCRDs_operator knowsCRDs_plugin emits_modify; simp add: knowsCRDs_def)
  from emits_inv [OF this, of r] show ?thesis by (simp add: knowsCRDs_def)
qed

text \<open>The agent keeps its namespace and the map of definitions, and remembers a remote-write configuration.\<close>

definition placed :: "string \<Rightarrow> (string, bool) fmap \<Rightarrow> 'w agent \<Rightarrow> bool" where
  "placed ns crds r \<longleftrightarrow> agentNamespace r = ns \<and> AvailableCRDs r = crds"

lemma Reconcile_placed [simp]:
  "agentNamespace (snd (Reconcile x r)) = agentNamespace r" "AvailableCRDs (snd (Reconcile x r)) = AvailableCRDs r"
proof -
  have frame: "agent_frame (placed ns crds)" for ns crds
    by (simp add: agent_frame_def placed_def env_stable_def)
  have "emits (placed (agentNamespace r) (AvailableCRDs r)) (\<lambda>_. True) (Reconcile x)"
    unfolding Reconcile_def initReconciler_def loadSecret_def loadPagerDuty_def loadSmtp_def loadRemoteWrite_def
    by (intro emits_rules frame_reconcilePhases frame emits_modify emits_client_get frame_stable;
        (rule frame)?; simp add: placed_def Let_def)
  from emits_inv [OF this, of r]
  show "agentNamespace (snd (Reconcile x r)) = agentNamespace r" "AvailableCRDs (snd (Reconcile x r)) = AvailableCRDs r"
    by (simp_all add: placed_def)
qed

text \<open>
  What a run makes of the remembered remote-write configuration: a secret with the two required
  parts decides by its third entry, and without that entry the configuration stays.
\<close>

definition decodes :: "(string \<Rightarrow> 'b \<times> gerror option) \<Rightarrow> string option \<Rightarrow> bool" where
  "decodes dec entry = (case entry of None \<Rightarrow> False | Some c \<Rightarrow> snd (dec c) = None)"

definition takes :: "('w, 'y) agent_host_scheme \<Rightarrow> obj \<Rightarrow> remoteWriteConfig option \<Rightarrow> remoteWriteConfig option" where
  "takes x sec old =
     (if decodes (yaml_pagerDuty x) (goMapGet (secretData sec) ''pager_duty_config'') \<and>
         decodes (yaml_smtp x) (goMapGet (secretData sec) ''smtp_config'')
      then (case goMapGet (secretData sec) ''remote_write_config'' of
              None \<Rightarrow> old | Some c \<Rightarrow> Some (fst (yaml_remoteWrite x c)))
      else old)"

lemma loadConfig_takes:
  "remoteWriteConfigData (snd (loadConfig x s)) = takes x (managedFusionSecret s) (remoteWriteConfigData s)"
  unfolding loadConfig_def thenM_step takes_def decodes_def
  by (auto simp: load_runs simp del: secretData.simps split: option.splits)

lemma Reconcile_remoteWrite:
  "remoteWriteConfigData (snd (Reconcile x r)) =
   (case secretAnswer x r of Inl e \<Rightarrow> remoteWriteConfigData r
    | Inr sec \<Rightarrow> takes x sec (remoteWriteConfigData r))"
proof -
  obtain r1 where r1: "initReconciler r = (Ok (), r1)" "world r1 = world r" "agentNamespace r1 = agentNamespace r"
      "ObjectKeyFromObject (managedFusionSecret r1) = secretKey r" "remoteWriteConfigData r1 = remoteWriteConfigData r"
    using initReconciler_run [of r] by blast
  obtain s1 where s1: "remoteWriteConfigData s1 = remoteWriteConfigData r"
      "loadSecret x r1 = (case secretAnswer x r of
          Inl err \<Rightarrow> (if IsNotFound err then Ok False else Err (Errorf ''failed to get secret'' err), s1)
        | Inr sec \<Rightarrow> (Ok True, s1\<lparr>managedFusionSecret := sec\<rparr>))"
    using loadSecret_run [OF r1(4), of x] r1 by (auto simp: secretAnswer_def)
  have run: "Reconcile x r = bindM (loadSecret x) (\<lambda>found. if \<not> found then ret noRequeue
      else thenM (loadConfig x) (reconcilePhases x)) r1"
    using r1(1) by (simp add: Reconcile_loadConfig thenM_def [of initReconciler] bindM_def [of initReconciler])
  show ?thesis
  proof (cases "secretAnswer x r")
    case (Inl err)
    then show ?thesis unfolding run using s1 by (auto simp: bindM_def [of "loadSecret x"] ret_def)
  next
    case (Inr sec)
    let ?t = "s1\<lparr>managedFusionSecret := sec\<rparr>"
    have "Reconcile x r = thenM (loadConfig x) (reconcilePhases x) ?t"
      unfolding run using s1 Inr by (simp add: bindM_def [of "loadSecret x"])
    moreover have "remoteWriteConfigData (snd (reconcilePhases x u)) = remoteWriteConfigData u" for u
      by (rule emits_inv [OF frame_reconcilePhases, of "\<lambda>s. remoteWriteConfigData s = remoteWriteConfigData u" u])
        (simp_all add: agent_frame_def env_stable_def)
    ultimately show ?thesis
      using snd_thenM [of "loadConfig x" "reconcilePhases x" ?t] loadConfig_takes [of x ?t] s1(1) Inr by auto
  qed
qed

section \<open>The process\<close>

text \<open>The outside world of each of the parts.\<close>

record 'w program =
  managerWorld :: "'w process_host"
  agentWorld :: "'w agent_host"
  offeringWorld :: "'w offering_host"

text \<open>A run and the calls it has issued until it ended or was cut off.\<close>

datatype managerRun =
    StartRun (callsOf: "call list")
  | AgentRun (callsOf: "call list")
  | OfferingRun string string (callsOf: "call list")

record 'w manager =
  reconcilers :: "('w agent \<times> 'w offering) option"     \<comment> \<open>none while no process runs\<close>
  history :: "managerRun list"

definition noManager :: "'w manager" where
  "noManager = \<lparr>reconcilers = None, history = []\<rparr>"

text \<open>The struct of a reconciler, in front of the cluster as it is.\<close>

definition agentIn :: "'w \<Rightarrow> 'w agent \<Rightarrow> 'w agent" where
  "agentIn w a = a\<lparr>world := w, calls := []\<rparr>"

definition offeringIn :: "'w \<Rightarrow> 'w offering \<Rightarrow> 'w offering" where
  "offeringIn w off = off\<lparr>world := w, calls := []\<rparr>"

text \<open>
  A start succeeds, or ends before the manager runs; a run of a reconciler returns a result or an
  error, and the process goes on; or the process ends, with a run of each controller under way and
  cut off after any of its calls. A panic or an exit is the last case with all calls issued, and
  a controller that is idle has issued none.
\<close>

inductive manager_step :: "'w program \<Rightarrow> flags \<Rightarrow> 'w manager \<Rightarrow> 'w manager \<Rightarrow> bool" for x fl where
  starts: "reconcilers m = None \<Longrightarrow>
    mainSetup (managerWorld x) fl \<lparr>world = w, calls = []\<rparr> = (Ok p, s) \<Longrightarrow>
    manager_step x fl m
      \<lparr>reconcilers = Some (agentReconciler p, offeringReconciler p), history = history m @ [StartRun (calls s)]\<rparr>"
| start_ends: "reconcilers m = None \<Longrightarrow>
    issued (mainSetup (managerWorld x) fl) \<lparr>world = w, calls = []\<rparr> = cs @ rest \<Longrightarrow>
    manager_step x fl m \<lparr>reconcilers = None, history = history m @ [StartRun cs]\<rparr>"
| agent_runs: "reconcilers m = Some (a, off) \<Longrightarrow>
    Reconcile (agentWorld x) (agentIn w a) = (out, a') \<Longrightarrow> \<nexists>msg. out = Crash msg \<Longrightarrow>
    manager_step x fl m \<lparr>reconcilers = Some (a', off), history = history m @ [AgentRun (calls a')]\<rparr>"
| offering_runs: "reconcilers m = Some (a, off) \<Longrightarrow>
    offeringReconcile (offeringWorld x) ns n (offeringIn w off) = (out, off') \<Longrightarrow> \<nexists>msg. out = Crash msg \<Longrightarrow>
    manager_step x fl m \<lparr>reconcilers = Some (a, off'), history = history m @ [OfferingRun ns n (calls off')]\<rparr>"
| ends: "reconcilers m = Some (a, off) \<Longrightarrow>
    issued (Reconcile (agentWorld x)) (agentIn w a) = cs @ rest \<Longrightarrow>
    issued (offeringReconcile (offeringWorld x) ns n) (offeringIn w' off) = cs' @ rest' \<Longrightarrow>
    manager_step x fl m \<lparr>reconcilers = None, history = history m @ [AgentRun cs, OfferingRun ns n cs']\<rparr>"

inductive manager_reaches :: "'w program \<Rightarrow> flags \<Rightarrow> 'w manager \<Rightarrow> bool" for x fl where
  initial: "manager_reaches x fl noManager"
| step: "manager_reaches x fl m \<Longrightarrow> manager_step x fl m m' \<Longrightarrow> manager_reaches x fl m'"

text \<open>What every run, cut off anywhere, satisfies, every run of the history satisfies.\<close>

lemma history_runs:
  fixes x :: "'w program"
  assumes "manager_reaches x fl m"
    and start: "\<And>(s :: ('w, call) env) cs rest. issued (mainSetup (managerWorld x) fl) s = cs @ rest \<Longrightarrow> P (StartRun cs)"
    and agent: "\<And>r cs rest. issued (Reconcile (agentWorld x)) r = cs @ rest \<Longrightarrow> P (AgentRun cs)"
    and offering: "\<And>ns n r cs rest. issued (offeringReconcile (offeringWorld x) ns n) r = cs @ rest \<Longrightarrow>
      P (OfferingRun ns n cs)"
  shows "list_all P (history m)"
  using assms(1)
proof (induction rule: manager_reaches.induct)
  case initial
  show ?case by (simp add: noManager_def)
next
  case (step m m')
  from step.hyps(2) show ?case
  proof cases
    case (starts w p s)
    then have "P (StartRun (calls s))" 
      by (intro start [of "\<lparr>world = w, calls = []\<rparr>" _ "[]"]) (simp add: issued_def)
    with starts step.IH show ?thesis by simp
  next
    case (agent_runs a off w out a')
    then have "P (AgentRun (calls a'))"
      by (intro agent [of "agentIn w a" _ "[]"]) (simp add: issued_def agentIn_def)
    with agent_runs step.IH show ?thesis by simp
  next
    case (offering_runs a off ns n w out off')
    then have "P (OfferingRun ns n (calls off'))"
      by (intro offering [of ns n "offeringIn w off" _ "[]"]) (simp add: issued_def offeringIn_def)
    with offering_runs step.IH show ?thesis by simp
  qed (use step.IH in \<open>simp_all add: start agent offering\<close>)
qed

end
