(* ===== verification/Manager_Props.thy ===== *)
theory Manager_Props
  imports Manager_Process Agent_Props Offering_Props
begin

text \<open>
  Properties of the manager's process over any number of starts and runs, whatever happens to the
  cluster meanwhile and wherever a run is cut off.
\<close>

section \<open>What the reconcilers remember\<close>

fun isStart :: "managerRun \<Rightarrow> bool" where
  "isStart (StartRun cs) = True"
| "isStart _ = False"

text \<open>The remote-write configuration after a run: decided by the secret the run has read.\<close>

definition remembers ::
  "('w, 'y) agent_host_scheme \<Rightarrow> managerRun \<Rightarrow> remoteWriteConfig option \<Rightarrow> remoteWriteConfig option" where
  "remembers x run old =
     (case run of AgentRun (CGet k key (Inr sec) # cs) \<Rightarrow> takes x sec old | _ \<Rightarrow> old)"

lemma offering_run_remembers [simp]: "remembers x (OfferingRun ns n cs) old = old"
  by (simp add: remembers_def)

lemma agent_run_remembers:
  assumes "Reconcile x (agentIn w a) = (out, a')"
  shows "remoteWriteConfigData a' = remembers x (AgentRun (calls a')) (remoteWriteConfigData a)"
proof -
  let ?r = "agentIn w a"
  have "\<exists>cs. issued (Reconcile x) ?r = CGet KSecret (secretKey ?r) (secretAnswer x ?r) # cs"
    by (rule Reconcile_issued [of x ?r]) auto
  then obtain cs where "calls a' = CGet KSecret (secretKey ?r) (secretAnswer x ?r) # cs"
    using assms by (auto simp: issued_def agentIn_def)
  then show ?thesis
    using Reconcile_remoteWrite [of x ?r] assms
    by (cases "secretAnswer x ?r") (simp_all add: remembers_def agentIn_def)
qed

text \<open>
  C10: at every moment of the process, the agent's namespace is the environment's, both reconcilers
  hold the map of the definitions the last start has listed, and the agent's remote-write
  configuration is what the secrets read since that start make of it, one after the other, from
  nothing: no other memory survives a run, and none a restart.
\<close>

theorem manager_remembers:
  assumes "manager_reaches x fl m" and "reconcilers m = Some (a, off)"
  shows "\<exists>before ans after.
    history m = before @ StartRun [CList KCustomResourceDefinition None None ans] # after \<and>
    list_all (\<lambda>run. \<not> isStart run) after \<and>
    os_LookupEnv (managerWorld x) ''NAMESPACE'' = Some (agentNamespace a) \<and>
    (\<forall>name. crdAvailable (AvailableCRDs a) name \<longleftrightarrow> (\<exists>crd\<in>set (listedCRDs ans). Name (meta crd) = name)) \<and>
    offeringCRDs off = AvailableCRDs a \<and>
    remoteWriteConfigData a = fold (remembers (agentWorld x)) after None"
  using assms
proof (induction arbitrary: a off rule: manager_reaches.induct)
  case initial
  then show ?case by (simp add: noManager_def)
next
  case (step m m')
  from step.hyps(2) show ?case
  proof cases
    case (starts w p s)
    obtain ans where "calls s = [CList KCustomResourceDefinition None None ans]"
        "os_LookupEnv (managerWorld x) ''NAMESPACE'' = Some (agentNamespace (agentReconciler p))"
        "\<forall>name. crdAvailable (AvailableCRDs (agentReconciler p)) name \<longleftrightarrow>
           (\<exists>crd\<in>set (listedCRDs ans). Name (meta crd) = name)"
        "offeringCRDs (offeringReconciler p) = AvailableCRDs (agentReconciler p)"
        "remoteWriteConfigData (agentReconciler p) = None"
      using mainSetup_wires [OF starts(3)] starts(3) by (auto simp: issued_def)
    then show ?thesis
      using starts(1) step.prems
      by (intro exI [of _ "history m"] exI [of _ ans] exI [of _ "[]"]) simp
  next
    case (agent_runs a0 off0 w out a')
    obtain before ans after where m: "history m = before @ StartRun [CList KCustomResourceDefinition None None ans] # after"
        "list_all (\<lambda>run. \<not> isStart run) after"
        "os_LookupEnv (managerWorld x) ''NAMESPACE'' = Some (agentNamespace a0)"
        "\<forall>name. crdAvailable (AvailableCRDs a0) name \<longleftrightarrow> (\<exists>crd\<in>set (listedCRDs ans). Name (meta crd) = name)"
        "offeringCRDs off0 = AvailableCRDs a0" "remoteWriteConfigData a0 = fold (remembers (agentWorld x)) after None"
      using step.IH [OF agent_runs(2)] by blast
    have "agentNamespace a' = agentNamespace a0" "AvailableCRDs a' = AvailableCRDs a0"
      using Reconcile_placed [of "agentWorld x" "agentIn w a0"] agent_runs(3)
      by (simp_all add: agentIn_def del: Reconcile_placed)
    then show ?thesis
      using m agent_runs(1) step.prems agent_run_remembers [OF agent_runs(3)]
      by (intro exI [of _ before] exI [of _ ans] exI [of _ "after @ [AgentRun (calls a')]"]) simp
  next
    case (offering_runs a0 off0 ns n w out off')
    obtain before ans after where m: "history m = before @ StartRun [CList KCustomResourceDefinition None None ans] # after"
        "list_all (\<lambda>run. \<not> isStart run) after"
        "os_LookupEnv (managerWorld x) ''NAMESPACE'' = Some (agentNamespace a0)"
        "\<forall>name. crdAvailable (AvailableCRDs a0) name \<longleftrightarrow> (\<exists>crd\<in>set (listedCRDs ans). Name (meta crd) = name)"
        "offeringCRDs off0 = AvailableCRDs a0" "remoteWriteConfigData a0 = fold (remembers (agentWorld x)) after None"
      using step.IH [OF offering_runs(2)] by blast
    have "offeringCRDs off' = offeringCRDs off0"
      using offeringReconcile_crds [of "offeringWorld x" ns n "offeringIn w off0"] offering_runs(3)
      by (simp add: offeringIn_def del: offeringReconcile_crds)
    then show ?thesis
      using m offering_runs(1) step.prems
      by (intro exI [of _ before] exI [of _ ans] exI [of _ "after @ [OfferingRun ns n (calls off')]"]) simp
  qed (use step.prems in simp_all)
qed

section \<open>Namespaces\<close>

text \<open>A run cut off after a call has issued everything before it.\<close>

lemma cut_off_two:
  assumes "log = cs @ rest" and "log = g # h # later" and "c \<in> set cs" and "c \<noteq> g" and "c \<noteq> h"
  shows "\<exists>later. cs = g # h # later"
  using assms by (cases cs; cases "tl cs") auto

definition terminates :: "obj \<Rightarrow> bool" where
  "terminates ob \<longleftrightarrow> \<not> IsZero (DeletionTimestamp (meta ob))"

text \<open>What must have been read, in which run, before a namespace is deleted.\<close>

definition namespaceGuard :: "managerRun \<Rightarrow> string \<Rightarrow> bool" where
  "namespaceGuard run ns \<longleftrightarrow>
     (\<exists>sec later. run = AgentRun (CGet KSecret (managedFusionSecretName, ns) (Inr sec) #
        CList KManagedFusionOffering None None (Inr []) # later) \<and> terminates sec) \<or>
     (\<exists>n off e later. run = OfferingRun ns n (CGet KManagedFusionOffering (n, ns) (Inr off) #
        CGet KStorageCluster (storageClusterName, Namespace (meta off)) (Inl e) # later) \<and>
        terminates off \<and> IsNotFound e)"

definition deletesGuarded :: "managerRun \<Rightarrow> bool" where
  "deletesGuarded run \<longleftrightarrow>
     (\<forall>key res. CDelete KNamespace key res \<in> set (callsOf run) \<longrightarrow> snd key = '''' \<and> namespaceGuard run (fst key))"

lemma agent_run_guarded:
  assumes "issued (Reconcile x) r = cs @ rest"
  shows "deletesGuarded (AgentRun cs)"
  unfolding deletesGuarded_def
proof (intro allI impI)
  fix key res assume "CDelete KNamespace key res \<in> set (callsOf (AgentRun cs))"
  then have c: "CDelete KNamespace key res \<in> set cs" by simp
  then have "CDelete KNamespace key res \<in> set (issued (Reconcile x) r)" using assms by simp
  from Reconcile_deletes [OF this] obtain sec later where log: "issued (Reconcile x) r =
      CGet KSecret (managedFusionSecretName, agentNamespace r) (Inr sec) #
      CList KManagedFusionOffering None None (Inr []) # later"
    and sec: "terminates sec" "key = (agentNamespace r, '''')"
    by (auto simp: terminates_def split: if_splits)
  then show "snd key = '''' \<and> namespaceGuard (AgentRun cs) (fst key)"
    using cut_off_two [OF assms log c] by (auto simp: namespaceGuard_def)
qed

lemma offering_run_guarded:
  assumes "issued (offeringReconcile x ns n) r = cs @ rest"
  shows "deletesGuarded (OfferingRun ns n cs)"
  unfolding deletesGuarded_def
proof (intro allI impI)
  fix key res assume "CDelete KNamespace key res \<in> set (callsOf (OfferingRun ns n cs))"
  then have c: "CDelete KNamespace key res \<in> set cs" by simp
  then have "CDelete KNamespace key res \<in> set (issued (offeringReconcile x ns n) r)" using assms by simp
  from offeringReconcile_namespace [OF this] obtain off e later where log: "issued (offeringReconcile x ns n) r =
      CGet KManagedFusionOffering (n, ns) (Inr off) #
      CGet KStorageCluster (storageClusterName, Namespace (meta off)) (Inl e) # later"
    and off: "IsNotFound e" "terminates off" "key = (ns, '''')"
    by (auto simp: terminates_def)
  then show "snd key = '''' \<and> namespaceGuard (OfferingRun ns n cs) (fst key)"
    using cut_off_two [OF assms log c] by (auto simp: namespaceGuard_def)
qed

lemma nodelete_orExit: "emits (\<lambda>_. True) (\<lambda>c. \<not> is_delete c) (orExit msg f)"
  by (auto simp: emits_def orExit_def split: prod.split sum.split)

lemma nodelete_mainSetup: "emits (\<lambda>_. True) (\<lambda>c. \<not> is_delete c) (mainSetup x fl)"
  unfolding mainSetup_def mapCRDAvailability_def getUnrestrictedClient_def completeOrExit_def
  by (intro emits_rules nodelete_orExit emits_client_list; simp)

lemma start_run_guarded:
  assumes "issued (mainSetup x fl) s = cs @ rest"
  shows "deletesGuarded (StartRun cs)"
proof -
  have "\<not> is_delete c" if "c \<in> set cs" for c
    using emits_issued [OF nodelete_mainSetup TrueI, of c x fl s] that assms by simp
  then show ?thesis by (fastforce simp: deletesGuarded_def)
qed

text \<open>
  C3: in every history of the process, whatever its starts, panics and kills, a namespace is deleted
  only by a run of the agent that has read its terminating secret there and an empty list of
  offerings, or by a run for an offering of that namespace that has read it terminating and its
  storage cluster gone.
\<close>

theorem manager_deletes_namespaces_safely:
  assumes "manager_reaches x fl m" and "run \<in> set (history m)" and "CDelete KNamespace key res \<in> set (callsOf run)"
  shows "snd key = '''' \<and> namespaceGuard run (fst key)"
proof -
  have "list_all deletesGuarded (history m)"
    using assms(1) by (rule history_runs) (fact start_run_guarded agent_run_guarded offering_run_guarded)+
  then show ?thesis using assms(2,3) unfolding list_all_iff deletesGuarded_def by blast
qed

section \<open>A process\<close>

definition sampleProgram :: "store program" where
  "sampleProgram = \<lparr>managerWorld = sampleProcessHost, agentWorld = sampleHost, offeringWorld = sampleOfferingHost\<rparr>"

definition noFlags :: flags where
  "noFlags = \<lparr>flag_metrics_addr = None, flag_enable_leader_election = None\<rparr>"

text \<open>The agent of a process started in an empty cluster.\<close>

definition startedAgent :: "store agent" where
  "startedAgent = newAgentReconciler ''ns'' fmempty \<lparr>world = [], calls = []\<rparr>"

lemma sample_starts:
  obtains m a off where "manager_reaches sampleProgram noFlags m" and "reconcilers m = Some (a, off)"
    and "\<forall>w. agentIn w a = agentIn w startedAgent"
proof -
  let ?s = "\<lparr>world = [], calls = []\<rparr> :: (store, call) env"
  let ?s1 = "?s\<lparr>calls := [CList KCustomResourceDefinition None None (Inr [])]\<rparr>"
  obtain aspec where aspec: "agentSetupWithManager (newAgentReconciler ''ns'' fmempty ?s1) None = Inr aspec"
    using agent_setup_total by blast
  obtain ospec where ospec: "offeringSetupWithManager (newOfferingReconciler fmempty ?s1) None = Inr ospec"
    using offering_built [of "newOfferingReconciler fmempty ?s1" None] by auto
  have "mapCRDAvailability sampleProcessHost ?s = (Ok fmempty, ?s1)"
    by (simp add: mapCRDAvailability_def thenM_step bindM_step tryM_def client_list_def callM_def liftSum_def
        ret_def mem_List_def Let_def)
  then obtain p where run: "mainSetup sampleProcessHost noFlags ?s = (Ok p, ?s1)"
    and p: "agentReconciler p = newAgentReconciler ''ns'' fmempty ?s1"
    using aspec ospec
    by (auto simp: mainSetup_def getUnrestrictedClient_def completeOrExit_def thenM_step bindM_step gets_def ret_def)
  let ?m = "\<lparr>reconcilers = Some (agentReconciler p, offeringReconciler p), history = [] @ [StartRun (calls ?s1)]\<rparr>"
  have "manager_step sampleProgram noFlags noManager ?m"
    using manager_step.starts [of noManager sampleProgram noFlags "[]" p ?s1] run
    by (simp add: noManager_def sampleProgram_def)
  then have reach: "manager_reaches sampleProgram noFlags ?m"
    by (rule manager_reaches.step [OF manager_reaches.initial])
  have "agentIn w (agentReconciler p) = agentIn w startedAgent" for w
    by (simp add: p agentIn_def startedAgent_def newAgentReconciler_def Let_def)
  then show thesis using that [OF reach, of "agentReconciler p" "offeringReconciler p"] by simp
qed

text \<open>After reading a secret with a token, and then one without, the token is still there.\<close>

definition tokenSecret :: "bool \<Rightarrow> obj" where
  "tokenSecret token = (named KSecret managedFusionSecretName ''ns'')\<lparr>body := Secret (Some (fmap_of_list
     ([(''pager_duty_config'', ''pd''), (''smtp_config'', ''smtp'')] @
      (if token then [(''remote_write_config'', ''rw'')] else []))))\<rparr>"

lemma token_run: "fst (Reconcile sampleHost (agentIn [tokenSecret True] startedAgent)) = Ok noRequeue"
  by code_simp

lemma manager_remembers_witness:
  "\<exists>m a off after. manager_reaches sampleProgram noFlags m \<and> reconcilers m = Some (a, off) \<and>
     offeringCRDs off = AvailableCRDs a \<and> agentNamespace a = ''ns'' \<and>
     remoteWriteConfigData a = fold (remembers sampleHost) after None \<and>
     remoteWriteConfigData a = Some \<lparr>rwc_BearerToken = ''t''\<rparr>"
proof -
  obtain m a off where m: "manager_reaches sampleProgram noFlags m" "reconcilers m = Some (a, off)"
    and a: "\<forall>w. agentIn w a = agentIn w startedAgent"
    by (rule sample_starts)
  let ?a1 = "snd (Reconcile sampleHost (agentIn [tokenSecret True] startedAgent))"
  let ?m1 = "\<lparr>reconcilers = Some (?a1, off), history = history m @ [AgentRun (calls ?a1)]\<rparr>"
  have "manager_step sampleProgram noFlags m ?m1"
    by (rule manager_step.agent_runs [OF m(2), where out = "Ok noRequeue" and w = "[tokenSecret True]"])
      (use token_run in \<open>simp_all add: a sampleProgram_def prod_eq_iff\<close>)
  with m(1) have reach: "manager_reaches sampleProgram noFlags ?m1" by (rule manager_reaches.step)
  have "remoteWriteConfigData ?a1 = Some \<lparr>rwc_BearerToken = ''t''\<rparr>" by code_simp
  moreover have "os_LookupEnv (managerWorld sampleProgram) ''NAMESPACE'' = Some ''ns''" "agentWorld sampleProgram = sampleHost"
    by (simp_all add: sampleProgram_def)
  ultimately show ?thesis
    using manager_remembers [OF reach, of ?a1 off] reach
    by (intro exI [of _ ?m1] exI [of _ ?a1] exI [of _ off]) auto
qed

lemma manager_deletes_namespaces_safely_witness:
  "\<exists>m run. manager_reaches sampleProgram noFlags m \<and> run \<in> set (history m) \<and> namespaceGuard run ''ns'' \<and>
     list_ex (deletes_at KNamespace (''ns'', '''')) (callsOf run)"
proof -
  obtain m a off where m: "manager_reaches sampleProgram noFlags m" "reconcilers m = Some (a, off)"
    and a: "\<forall>w. agentIn w a = agentIn w startedAgent"
    by (rule sample_starts)
  let ?cs = "issued (Reconcile sampleHost) (agentIn [sampleSecret [managedFusionFinalizer] (Some 5)] startedAgent)"
  have del: "list_ex (deletes_at KNamespace (''ns'', '''')) ?cs" by code_simp
  then obtain res where res: "CDelete KNamespace (''ns'', '''') res \<in> set ?cs"
    unfolding list_ex_iff deletes_at_iff by blast
  let ?m1 = "\<lparr>reconcilers = None, history = history m @ [AgentRun ?cs, OfferingRun '''' '''' []]\<rparr>"
  have "manager_step sampleProgram noFlags m ?m1"
    by (rule manager_step.ends [OF m(2), where rest = "[]"]) (simp_all add: a sampleProgram_def)
  with m(1) have reach: "manager_reaches sampleProgram noFlags ?m1" by (rule manager_reaches.step)
  moreover have "AgentRun ?cs \<in> set (history ?m1)" by simp
  moreover from manager_deletes_namespaces_safely [OF reach this, of "(''ns'', '''')" res] res
  have "namespaceGuard (AgentRun ?cs) ''ns''"
    by simp
  ultimately show ?thesis using del by (intro exI [of _ ?m1] exI [of _ "AgentRun ?cs"]) simp
qed

end
