(* ===== verification/Spec2Isabelle.thy ===== *)
theory Spec2Isabelle
  imports Agent_Props Offering_Props AWS_Props DF_Props Setup_Props Client_Refinement Provider_Refinement Shared_Props Agent_Install Rook Manager_Props
begin

text \<open>
  A verification library of the managed-fusion agent, an operator that runs in an OpenShift cluster
  and installs, configures and removes the managed Fusion offerings and their monitoring.

  \<^bold>\<open>The program.\<close> Two processes, written in Go under \<open>src/\<close>.

  \<^item> The manager (\<open>main.go\<close>) reads which custom resource definitions the cluster has, makes two
    reconcilers and runs them. The agent's reconciler (\<open>controllers/managedfusion_controller.go\<close>)
    reads the configuration secret \<open>managed-fusion-agent-config\<close> of its namespace and keeps the
    monitoring stack and the egress rules as that secret wants them; when the secret is terminating
    it deletes the offerings, and its namespace when none is left. The offering's reconciler
    (\<open>controllers/managedfusionoffering_controller.go\<close>) installs the operator of a
    \<open>ManagedFusionOffering\<close> and hands the rest to a plugin by the offering's kind, the data
    foundation (\<open>controllers/datafoundation.go\<close>) or its client
    (\<open>controllers/datafoundationclient.go\<close>); when the offering is terminating it deletes its namespace
    once the storage cluster is gone.
  \<^item> The gatherer (\<open>cmd/awsDataGather/main.go\<close>) asks the cloud's metadata service for the address
    ranges of the VPC and saves them in a config map, from which the agent makes its egress rules.

  The two processes share nothing but the objects of the cluster.

  \<^bold>\<open>How the code is modelled.\<close> A function of the source is a program in the sense of \<open>Prelude\<close>: a
  function from a state to an outcome and a state. An outcome is a value, an error or a crash of the
  process (a panic or \<open>os.Exit\<close>), so every early return of the source is a branch. The state of a
  reconciler is a record with the fields of its Go struct; it extends a record with the state of the
  outside world, of any type, and the log of the calls made to it with their answers. The API server,
  the file system, the HTTP client, the clock, the environment and the YAML decoder are operations in a
  record that the definitions take as an argument (\<open>client\<close>, \<open>host\<close>, \<open>agent_host\<close>,
  \<open>offering_host\<close>, \<open>process_host\<close>); they may answer anything and change the world in any way,
  so that what other clients of the cluster do during a run is among the behaviours covered (the state of
  the world may hold what they are going to do). Where a
  property relies on more, it names it: \<open>answers_keyed\<close> (the server answers a read and a write
  with an object of the key asked for), \<open>object_server\<close> (it stores what it is sent, up to the fields
  the server sets itself), \<open>accepting\<close> (it refuses no write), \<open>providerReady\<close> (what a data
  foundation offering needs of the cluster), \<open>stores\<close> (it is the server over a list of objects of
  \<open>Mem_Server\<close>). With that server the hypotheses are met and the witnesses evaluated.

  Objects are the API structs with the fields the code touches; the Go type behind
  \<open>client.Object\<close> is the constructor of the body. Nil maps are distinguished from empty ones where
  the code can tell (a write into a nil map crashes). Strings are byte lists. Go's 64-bit integers are
  \<open>int\<close>s with the wrap-around written out or proved away; \<open>float64\<close> is modelled by its rounding where
  the capacity of a storage cluster goes through it.

  \<^bold>\<open>The theories\<close>, in the order they build on each other:

  \<^item> \<open>Prelude\<close>: errors, outcomes, programs, and four logics over them: \<open>emits\<close> (which calls a program
    issues, under an invariant of its state), \<open>yields\<close> (what it returns), \<open>crashes_if\<close> (after which
    calls it can crash). \<open>Call_Order\<close> adds \<open>guarded\<close> (a call comes only after another).
  \<^item> \<open>Kube_Objects\<close>: metadata, object kinds and bodies. \<open>Kube_Client\<close>: the client, and
    \<open>CreateOrUpdate\<close> and the owner references of the vendored controller-runtime. Its locales are the
    contracts of the reconcilers' closures: \<open>owner_setter\<close>, \<open>content_setter\<close>, \<open>pure_mutator\<close> and
    their combination; every closure of the program is an interpretation of them.
  \<^item> \<open>Go_Strings\<close>, \<open>Go_Url\<close>, \<open>Go_Json\<close>: the parts of Go's library the code calls.
    \<open>Utils\<close> is \<open>utils/utils.go\<close> and \<open>utils/imds.go\<close>, \<open>Resources\<close> the resource tables of
    \<open>utils/resources.go\<close> and \<open>datafoundation/resources.go\<close>, \<open>Rook\<close> is \<open>utils/rook.go\<close>,
    \<open>Scheme\<close> the schemes of \<open>main.go\<close> and the API group.
  \<^item> \<open>Templates\<close> and \<open>DF_Templates\<close>: the desired objects of \<open>templates/*.go\<close> and
    \<open>datafoundation/templates/*.go\<close>. \<open>Controllers\<close>: what both controllers share, with
    \<open>utils/reconcile.go\<close>.
  \<^item> The agent: \<open>Egress\<close> (the egress rules), \<open>Agent\<close> (the state and one operation per resource),
    \<open>Agent_Reconcile\<close> (the phases and \<open>Reconcile\<close>). About them: \<open>Agent_Calls\<close> (which calls, at
    which keys), \<open>Agent_Runs\<close> (the shape of a run), \<open>Agent_Outcomes\<close> (how runs end),
    \<open>Agent_Props\<close> (the properties).
  \<^item> The offering: \<open>Offering\<close>, \<open>Data_Foundation\<close>, \<open>Data_Foundation_Client\<close>,
    \<open>Offering_Reconcile\<close>; about them \<open>Offering_Calls\<close>, \<open>Offering_Order\<close>, \<open>Offering_Kinds\<close>,
    \<open>Offering_Outcomes\<close>, \<open>Offering_Props\<close> and, for the plugins, \<open>DF_Props\<close>.
  \<^item> The gatherer: \<open>AWS_Gather\<close> and \<open>AWS_Props\<close>, which also joins it to the agent's firewall.
  \<^item> \<open>Watches\<close>: the watches of \<open>SetupWithManager\<close> over the builder, handlers and predicates of
    the vendored controller-runtime. \<open>Watch_Runs\<close> and \<open>Watch_Props\<close> join them to the runs.
  \<^item> \<open>Process_Setup\<close> is \<open>main.go\<close>, with its properties in \<open>Setup_Props\<close>. \<open>Manager_Process\<close> is the
    process over time, a step relation: starts, runs of the reconcilers, and the end of the process in
    the middle of runs; \<open>Manager_Props\<close> are invariants of every history.
  \<^item> \<open>Settling\<close>: the contract of a phase that finds nothing left to do once it has succeeded, with the
    locale \<open>reading_mutator\<close> for closures that read the cluster. \<open>Agent_Convergence\<close> shows it for the
    agent, \<open>Mem_Cluster\<close> gives the server over a list as a map, \<open>Agent_Install\<close> that an installation
    succeeds. \<open>Operator_Refinement\<close>: the operator's phase against an abstract cluster;
    \<open>Offering_Refinement\<close>: what runs for both kinds of offerings share against it;
    \<open>Client_Refinement\<close> and \<open>Provider_Refinement\<close>: whole runs for an offering of either kind.
  \<^item> \<open>Mem_Server\<close>, \<open>Mem_Offering\<close>: servers and objects to run the model on.
    \<open>Shared_Props\<close>: properties of the shared code.
\<close>

text \<open>
  \<^bold>\<open>What is shown.\<close> Safety of deletion: a namespace, an offering or a storage cluster is deleted
  only when its owner has been read terminating and nothing depends on it any more, for a run and for
  every history of the process. Order: finalizers are stored before anything is created. Frame: which
  objects a run can write. Convergence: on a server that stores what it is sent a successful run
  leaves every resource in place and the next one only reads. Refinement: the operator's phase, and
  a whole run for an offering of either kind, implement assignments of an abstract cluster, with the
  monitoring labels of the data foundation, and later runs change nothing. Contents: what the written Prometheus, Alertmanager, storage cluster,
  network policy and secret objects hold. Errors: which inputs make a run fail, and exactly which
  answers can make it crash. Bounds: the sleeps of the gatherer, the device sets of a storage cluster.
  Round trips: address ranges from the metadata service to the firewall, the names of pods, the
  \<open>apiVersion\<close> of every type. Liveness: what a run writes wakes the reconciler again. Some of them
  record behaviour that is not intended, such as a remote-write token that outlives its entry, or an
  uninstallation that is not requeued; they are stated as the code behaves.

  \<^bold>\<open>Bounds and fuel.\<close> No definition needs fuel to end: loops over lists are structural, the retry loop
  \<open>retryFrom\<close> recurses on the attempts left, and the gatherer's endless loop is \<open>gatherRounds n\<close>, its
  first \<open>n\<close> rounds, with properties for every \<open>n\<close>. The backoff is capped at 300 seconds, far below
  where a 64-bit number of nanoseconds wraps. A capacity in TiB is converted to \<open>float64\<close>: below
  2 to the 53rd the conversion is exact, and above it the rounding is modelled.

  \<^bold>\<open>Not modelled.\<close> The API server, informers, work queues and leader election of controller-runtime:
  the first is a parameter, and a run of a reconciler is taken to start at any time in any state of the
  cluster. Two runs of the two controllers may overlap: each sees the other through the server only. The YAML
  encoder and decoder, HTTP, files, the clock and the environment are parameters. Of the vendored code
  only what the repository builds on is modelled: \<open>CreateOrUpdate\<close>, owner references, error reasons,
  group versions, watches. Logging is left out. \<open>api/v1alpha1/zz_generated.deepcopy.go\<close> is generated, and
  values of the model are copied by construction. \<open>testutils/utils.go\<close> holds helpers of a test suite
  around the polling of a test library; no part of the program calls them. Only the types the program
  handles are registered in the model's scheme, and quantities are parsed for the literals of the source.
\<close>

end
